(* ===== verification/Prelude.thy ===== *)
theory Prelude
  imports Main "HOL-Library.Word"
begin

unbundle bit_operations_syntax

text \<open>
  Shared vocabulary of the development: the machine types of the Go sources, the parts of
  \<^verbatim>\<open>encoding/binary\<close> and \<^verbatim>\<open>encoding/hex\<close> they call, a few list and word lemmas, and the
  codec interfaces (a whole-message codec and a self-delimiting one) that the wire formats of
  the components are shown to implement.
\<close>

section \<open>Machine types\<close>

type_synonym u8 = "8 word"
type_synonym u16 = "16 word"
type_synonym u32 = "32 word"
type_synonym u64 = "64 word"
type_synonym bytes = "u8 list"

named_theorems wire_len \<open>lengths of the wire encodings\<close>

section \<open>Words\<close>

text \<open>Every 8-bit word is one of 256 numerals, so a property of all bytes is a finite check.\<close>

definition all_bytes :: "u8 list" where
  "all_bytes = map word_of_nat [0..<256]"

lemma unat_less_exp: "unat (x::'a::len word) < 2 ^ LENGTH('a)"
  by (rule unsigned_less)

lemma unat_u8_lt [simp]: "unat (x::u8) < 256"
  using unat_less_exp [of x] by simp

lemma unat_u16_lt [simp]: "unat (x::u16) < 65536"
  using unat_less_exp [of x] by simp

lemma unat_u32_lt [simp]: "unat (x::u32) < 4294967296"
  using unat_less_exp [of x] by simp

lemma unat_u64_lt [simp]: "unat (x::u64) < 18446744073709551616"
  using unat_less_exp [of x] by simp

lemma mem_all_bytes [simp]: "x \<in> set all_bytes"
proof -
  have "x = word_of_nat (unat x)" by simp
  then have "x \<in> word_of_nat ` {0..<256}"
    by (intro image_eqI [of _ _ "unat x"]) auto
  then show ?thesis by (simp add: all_bytes_def)
qed

lemma byte_forall: "(\<forall>x::u8. P x) \<longleftrightarrow> list_all P all_bytes"
  by (auto simp: list_all_iff)

lemma unat_of_nat_u8: "unat (word_of_nat n :: u8) = n mod 256"
  and unat_of_nat_u16: "unat (word_of_nat n :: u16) = n mod 65536"
  and unat_of_nat_u32: "unat (word_of_nat n :: u32) = n mod 4294967296"
  and unat_of_nat_u64: "unat (word_of_nat n :: u64) = n mod 18446744073709551616"
  by (simp_all add: unat_of_nat)

lemmas unat_of_nat_widths = unat_of_nat_u8 unat_of_nat_u16 unat_of_nat_u32 unat_of_nat_u64

lemma word_of_nat_unat: "word_of_nat (unat w) = (w :: 'a::len word)"
  by simp

section \<open>Byte strings of numbers (\<^verbatim>\<open>encoding/binary\<close>)\<close>

text \<open>
  \<open>le_bytes k n\<close> are the \<open>k\<close> low bytes of \<open>n\<close>, least significant first. The
  \<^verbatim>\<open>PutUintN\<close>/\<^verbatim>\<open>UintN\<close> methods of \<^verbatim>\<open>binary.BigEndian\<close> and \<^verbatim>\<open>binary.LittleEndian\<close> are given
  over it at each width the sources use. A read from a slice that is too short panics in Go;
  every caller of the sources checks the length first, and so do the models.
\<close>

primrec le_bytes :: "nat \<Rightarrow> nat \<Rightarrow> bytes" where
  "le_bytes 0 n = []"
| "le_bytes (Suc k) n = word_of_nat n # le_bytes k (n div 256)"

primrec le_nat :: "bytes \<Rightarrow> nat" where
  "le_nat [] = 0"
| "le_nat (b # bs) = unat b + 256 * le_nat bs"

lemma length_le_bytes [simp]: "length (le_bytes k n) = k"
  by (induction k arbitrary: n) auto

lemma le_nat_le_bytes: "le_nat (le_bytes k n) = n mod 256 ^ k"
proof (induction k arbitrary: n)
  case (Suc k)
  have "n mod 256 + 256 * (n div 256 mod 256 ^ k) = n mod (256 * 256 ^ k)"
    by (simp add: mod_mult2_eq)
  with Suc show ?case by (simp add: unat_of_nat_u8)
qed simp

lemma le_bytes_le_nat: "le_bytes (length bs) (le_nat bs) = bs"
proof (induction bs)
  case (Cons b bs)
  have "(unat b + 256 * le_nat bs) div 256 = le_nat bs" by simp
  moreover have "word_of_nat (unat b + 256 * le_nat bs) = b"
    by (rule word_unat_eq_iff [THEN iffD2]) (simp only: unat_of_nat_u8 mod_mult_self2 mod_less unat_u8_lt)
  ultimately show ?case using Cons by simp
qed simp

lemma le_nat_less: "le_nat bs < 256 ^ length bs"
proof (induction bs)
  case (Cons b bs)
  then have "256 * (le_nat bs + 1) \<le> 256 * 256 ^ length bs" by simp
  then show ?case using unat_u8_lt [of b] by (simp del: unat_u8_lt)
qed simp

definition put_be16 :: "u16 \<Rightarrow> bytes" where "put_be16 w = rev (le_bytes 2 (unat w))"
definition put_be32 :: "u32 \<Rightarrow> bytes" where "put_be32 w = rev (le_bytes 4 (unat w))"
definition put_le16 :: "u16 \<Rightarrow> bytes" where "put_le16 w = le_bytes 2 (unat w)"
definition put_le32 :: "u32 \<Rightarrow> bytes" where "put_le32 w = le_bytes 4 (unat w)"
definition put_le64 :: "u64 \<Rightarrow> bytes" where "put_le64 w = le_bytes 8 (unat w)"
definition get_be16 :: "bytes \<Rightarrow> u16" where "get_be16 bs = word_of_nat (le_nat (rev (take 2 bs)))"
definition get_be32 :: "bytes \<Rightarrow> u32" where "get_be32 bs = word_of_nat (le_nat (rev (take 4 bs)))"
definition get_le16 :: "bytes \<Rightarrow> u16" where "get_le16 bs = word_of_nat (le_nat (take 2 bs))"

lemma length_put [simp, wire_len]:
  "length (put_be16 a) = 2" "length (put_be32 b) = 4" "length (put_le16 a) = 2"
  "length (put_le32 b) = 4" "length (put_le64 c) = 8"
  by (simp_all add: put_be16_def put_be32_def put_le16_def put_le32_def put_le64_def)

lemma get_put [simp]:
  "get_be16 (put_be16 a @ r) = a" "get_be32 (put_be32 b @ r) = b" "get_le16 (put_le16 a @ r) = a"
  by (simp_all add: get_be16_def put_be16_def get_be32_def put_be32_def get_le16_def put_le16_def
      le_nat_le_bytes)

lemma get_put_Nil [simp]:
  "get_be16 (put_be16 a) = a" "get_be32 (put_be32 b) = b" "get_le16 (put_le16 a) = a"
  using get_put [where r = "[]"] by simp_all

lemma le_bytes_unat_take:
  assumes "length bs = k" "256 ^ k \<le> (2::nat) ^ LENGTH('a::len)"
  shows "le_bytes k (unat (word_of_nat (le_nat bs) :: 'a word)) = bs"
proof -
  have "le_nat bs < 2 ^ LENGTH('a)"
    using le_nat_less [of bs] assms by simp
  then have "unat (word_of_nat (le_nat bs) :: 'a word) = le_nat bs"
    by (simp add: unat_of_nat)
  then show ?thesis using le_bytes_le_nat [of bs] assms(1) by simp
qed

lemma put_get:
  "2 \<le> length bs \<Longrightarrow> put_be16 (get_be16 bs) = take 2 bs"
  "4 \<le> length bs \<Longrightarrow> put_be32 (get_be32 bs) = take 4 bs"
  "2 \<le> length bs \<Longrightarrow> put_le16 (get_le16 bs) = take 2 bs"
  by (simp_all add: put_be16_def get_be16_def put_be32_def get_be32_def put_le16_def get_le16_def
      le_bytes_unat_take)

lemma left_inverse_inject: "(\<And>x. g (f x) = x) \<Longrightarrow> f a = f b \<longleftrightarrow> a = b"
  by metis

lemma put_inject [simp]:
  "put_be16 a = put_be16 a' \<longleftrightarrow> a = a'"
  "put_be32 b = put_be32 b' \<longleftrightarrow> b = b'"
  "put_le16 a = put_le16 a' \<longleftrightarrow> a = a'"
  by (rule left_inverse_inject, rule get_put_Nil)+

lemma le_bytes_inject:
  "m < 256 ^ k \<Longrightarrow> n < 256 ^ k \<Longrightarrow> le_bytes k m = le_bytes k n \<longleftrightarrow> m = n"
  by (metis le_nat_le_bytes mod_less)

lemma put_le_inject [simp]:
  "put_le32 b = put_le32 b' \<longleftrightarrow> b = b'" "put_le64 c = put_le64 c' \<longleftrightarrow> c = c'"
  unfolding put_le32_def put_le64_def
  by (subst le_bytes_inject; simp add: word_unat_eq_iff)+

section \<open>Hexadecimal strings (\<^verbatim>\<open>encoding/hex\<close>)\<close>

definition hextable :: string where "hextable = ''0123456789abcdef''"

definition hex_digit :: "nat \<Rightarrow> char" where "hex_digit n = hextable ! n"

text \<open>\<^verbatim>\<open>hex.EncodeToString\<close>: two lower-case digits per byte.\<close>

definition hex_encode :: "bytes \<Rightarrow> string" where
  "hex_encode bs = concat (map (\<lambda>b. [hex_digit (unat b div 16), hex_digit (unat b mod 16)]) bs)"

text \<open>\<^verbatim>\<open>hex.DecodeString\<close>: both cases are accepted; an odd length or a foreign character is an
  error, of which the callers only see that there is one.\<close>

definition hex_value :: "char \<Rightarrow> nat option" where
  "hex_value c = (let n = (of_char c :: nat) in
     if 48 \<le> n \<and> n \<le> 57 then Some (n - 48)
     else if 97 \<le> n \<and> n \<le> 102 then Some (n - 87)
     else if 65 \<le> n \<and> n \<le> 70 then Some (n - 55)
     else None)"

fun hex_decode :: "string \<Rightarrow> bytes option" where
  "hex_decode [] = Some []"
| "hex_decode [_] = None"
| "hex_decode (c # d # cs) =
     (case (hex_value c, hex_value d) of
        (Some h, Some l) \<Rightarrow> map_option (Cons (word_of_nat (16 * h + l))) (hex_decode cs)
      | _ \<Rightarrow> None)"

lemma hex_value_digit: "n < 16 \<Longrightarrow> hex_value (hex_digit n) = Some n"
proof -
  have "list_all (\<lambda>n. hex_value (hex_digit n) = Some n) [0..<16]" by code_simp
  then show "n < 16 \<Longrightarrow> ?thesis" by (simp add: list_all_iff)
qed

lemma hex_encode_simps [simp]:
  "hex_encode [] = []"
  "hex_encode (b # bs) = hex_digit (unat b div 16) # hex_digit (unat b mod 16) # hex_encode bs"
  by (simp_all add: hex_encode_def)

lemma hex_decode_encode [simp]: "hex_decode (hex_encode bs) = Some bs"
proof (induction bs)
  case (Cons b bs)
  have "unat b div 16 < 16" using unat_u8_lt [of b] by linarith
  with Cons show ?case by (simp add: hex_value_digit)
qed simp

lemma length_hex_encode [simp, wire_len]: "length (hex_encode bs) = 2 * length bs"
  by (induction bs) auto

section \<open>Codec interfaces\<close>

text \<open>A codec: decoding what was encoded gives the value back. \<open>valid\<close> says which values the
  encoder is meant for.\<close>

locale codec =
  fixes enc :: "'a \<Rightarrow> 'w"
    and dec :: "'w \<Rightarrow> 'e + 'a"
    and valid :: "'a \<Rightarrow> bool"
  assumes dec_enc: "valid a \<Longrightarrow> dec (enc a) = Inr a"
begin

lemma enc_inj: "valid a \<Longrightarrow> valid b \<Longrightarrow> enc a = enc b \<Longrightarrow> a = b"
  by (metis dec_enc sum.inject(2))

lemma inj_on_enc: "inj_on enc {a. valid a}"
  by (auto intro: inj_onI enc_inj)

end

text \<open>A canonical codec accepts nothing but its own encodings, so that every value has exactly
  one accepted encoding.\<close>

locale canonical_codec = codec +
  assumes enc_dec: "dec w = Inr a \<Longrightarrow> valid a \<and> enc a = w"
begin

lemma dec_iff: "dec w = Inr a \<longleftrightarrow> valid a \<and> w = enc a"
  using dec_enc enc_dec by blast

lemma dec_inj: "dec w = Inr a \<Longrightarrow> dec w' = Inr a \<Longrightarrow> w = w'"
  using enc_dec by metis

end

text \<open>A prefix code: the end of a message is known from the message itself, so a concatenation of
  messages splits in one way only.\<close>

locale prefix_code =
  fixes enc :: "'a \<Rightarrow> 'b list"
    and valid :: "'a \<Rightarrow> bool"
  assumes prefix_free: "valid a \<Longrightarrow> valid b \<Longrightarrow> enc a @ r = enc b @ s \<Longrightarrow> a = b \<and> r = s"
    and enc_nonempty: "valid a \<Longrightarrow> enc a \<noteq> []"
begin

lemma concat_inj:
  "list_all valid xs \<Longrightarrow> list_all valid ys \<Longrightarrow>
   concat (map enc xs) = concat (map enc ys) \<Longrightarrow> xs = ys"
proof (induction xs arbitrary: ys)
  case Nil
  then show ?case by (cases ys) (auto dest: enc_nonempty)
next
  case (Cons x xs)
  from Cons.prems obtain y zs where ys: "ys = y # zs"
    by (cases ys) (auto dest: enc_nonempty)
  from Cons.prems ys have "enc x @ concat (map enc xs) = enc y @ concat (map enc zs)" by simp
  with Cons.prems ys have "x = y" and "concat (map enc xs) = concat (map enc zs)"
    using prefix_free by auto
  with Cons ys show ?case by simp
qed

end

text \<open>A parser that takes one message off the front of a stream makes its encoder a prefix code,
  and reads back any sequence of messages.\<close>

locale stream_parser =
  fixes enc :: "'a \<Rightarrow> 'b list"
    and valid :: "'a \<Rightarrow> bool"
    and parse :: "'b list \<Rightarrow> ('e + 'a) \<times> 'b list"
  assumes parse_enc: "valid a \<Longrightarrow> parse (enc a @ r) = (Inr a, r)"
    and msg_nonempty: "valid a \<Longrightarrow> enc a \<noteq> []"

sublocale stream_parser \<subseteq> prefix_code enc valid
proof
  fix a b r s
  assume "valid a" "valid b" "enc a @ r = enc b @ s"
  then show "a = b \<and> r = s"
    by (metis parse_enc prod.inject sum.inject(2))
qed (rule msg_nonempty)

text \<open>Reading \<open>n\<close> messages in a row, stopping at the first error.\<close>

fun parse_n :: "('w \<Rightarrow> ('e + 'a) \<times> 'w) \<Rightarrow> nat \<Rightarrow> 'w \<Rightarrow> ('e + 'a list) \<times> 'w" where
  "parse_n p 0 w = (Inr [], w)"
| "parse_n p (Suc n) w =
     (case p w of
        (Inl e, w') \<Rightarrow> (Inl e, w')
      | (Inr a, w') \<Rightarrow>
          (case parse_n p n w' of
             (Inl e, w'') \<Rightarrow> (Inl e, w'')
           | (Inr as, w'') \<Rightarrow> (Inr (a # as), w'')))"

context stream_parser
begin

lemma parse_n_concat:
  "list_all valid xs \<Longrightarrow> parse_n parse (length xs) (concat (map enc xs) @ r) = (Inr xs, r)"
  by (induction xs) (simp_all add: parse_enc)

end

section \<open>Bounded runs\<close>

text \<open>A step relation that a rank bounds: no run is longer than the rank of the state it starts in, and
  from every state a run ends in a state without a step.\<close>

locale bounded_steps =
  fixes step :: "'x \<Rightarrow> 'x \<Rightarrow> bool"
    and rank :: "'x \<Rightarrow> nat"
  assumes decreases: "step x y \<Longrightarrow> rank y < rank x"
begin

lemma run_bounded: "(step ^^ n) x y \<Longrightarrow> n + rank y \<le> rank x"
proof (induction n arbitrary: y)
  case (Suc n)
  then obtain z where "(step ^^ n) x z" "step z y" by auto
  with Suc.IH [of z] decreases [of z y] show ?case by simp
qed simp

lemma run_ends: "\<exists>y. step\<^sup>*\<^sup>* x y \<and> (\<nexists>z. step y z)"
proof (induction "rank x" arbitrary: x rule: less_induct)
  case less
  show ?case
  proof (cases "\<exists>y. step x y")
    case True
    then obtain y where "step x y" ..
    with less [OF decreases] show ?thesis by (meson converse_rtranclp_into_rtranclp)
  qed auto
qed

end

end
