(* ===== verification/Dammsum.thy ===== *)
theory Dammsum
  imports Prelude
begin

text \<open>
  The DammSum checksum of \<^verbatim>\<open>src/address/dammsum.go\<close>: \<open>ComputeChecksum\<close> and
  \<open>ValidateChecksum\<close>, and the errors they detect. The loop body is linear over bitwise exclusive
  or; the proofs reduce every detection claim to fixed points of powers of the doubling map.
\<close>

section \<open>Errors of the address package\<close>

text \<open>The sentinel errors of \<^verbatim>\<open>src/address/errors.go\<close>, and \<^verbatim>\<open>creationError\<close> with its message.\<close>

datatype address_error =
    ErrInvalidSize
  | ErrInvalidNetwork
  | ErrInvalidFeatures
  | ErrInvalidChecksum
  | ErrInvalidEmoji
  | ErrInvalidCharacter
  | ErrCannotRecoverPublicKey
  | ErrCannotRecoverNetwork
  | ErrCannotRecoverFeature
  | ErrInvalidAddressString
  | ErrPaymentIDTooLarge
  | ErrPaymentIDNotSupported
  | CreationError string

section \<open>The algorithm\<close>

definition checksumMask :: u8 where "checksumMask = 27"

text \<open>One round of the loop after the digit was added: test the top bit, double, reduce.\<close>

definition damm_double :: "u8 \<Rightarrow> u8" where
  "damm_double r =
     (let overflow = (r AND push_bit 7 1 \<noteq> 0);
          r' = push_bit 1 r
      in if overflow then r' XOR checksumMask else r')"

primrec checksum_loop :: "u8 \<Rightarrow> bytes \<Rightarrow> u8" where
  "checksum_loop result [] = result"
| "checksum_loop result (digit # data) = checksum_loop (damm_double (result XOR digit)) data"

definition ComputeChecksum :: "bytes \<Rightarrow> u8" where
  "ComputeChecksum data = checksum_loop 0 data"

definition ValidateChecksum :: "bytes \<Rightarrow> address_error + bytes" where
  "ValidateChecksum data =
     (if length data < 2 then Inl ErrInvalidChecksum
      else if ComputeChecksum data \<noteq> 0 then Inl ErrInvalidChecksum
      else Inr (take (length data - 1) data))"

section \<open>The doubling map\<close>

lemma damm_double_alt: "damm_double r = push_bit 1 r XOR (if bit r 7 then 27 else 0)"
proof -
  have "(r AND push_bit 7 1 \<noteq> 0) = bit r 7"
    by (auto simp: bit_iff_and_push_bit_not_eq_0)
  then show ?thesis by (simp add: damm_double_def checksumMask_def)
qed

lemma damm_double_xor: "damm_double (x XOR y) = damm_double x XOR damm_double y"
  by (auto simp: damm_double_alt push_bit_xor bit_xor_iff xor.assoc xor.left_commute)

lemma damm_double_0 [simp]: "damm_double 0 = 0"
  by (simp add: damm_double_alt)

lemma damm_double_eq_0: "damm_double x = 0 \<longleftrightarrow> x = 0"
proof -
  have "list_all (\<lambda>x. damm_double x = 0 \<longleftrightarrow> x = 0) all_bytes" by code_simp
  then show ?thesis by (simp add: list_all_iff)
qed

lemma damm_pow_xor: "(damm_double ^^ n) (x XOR y) = (damm_double ^^ n) x XOR (damm_double ^^ n) y"
  by (induction n) (simp_all add: damm_double_xor)

lemma damm_pow_eq_0: "(damm_double ^^ n) x = 0 \<longleftrightarrow> x = 0"
  by (induction n) (simp_all add: damm_double_eq_0)

lemma damm_pow_3: "(damm_double ^^ 3) x = x \<longleftrightarrow> x = 0"
proof -
  have "list_all (\<lambda>x. (damm_double ^^ 3) x = x \<longleftrightarrow> x = 0) all_bytes" by code_simp
  then show ?thesis by (simp add: list_all_iff)
qed

text \<open>
  Every byte is an exclusive or of images of \<open>1\<close> under powers of the doubling map, so a linear
  law that holds at \<open>1\<close> holds everywhere.
\<close>

lemma byte_bits:
  fixes x :: u8
  shows "x = (if bit x 0 then 1 else 0) XOR (if bit x 1 then 2 else 0) XOR
             (if bit x 2 then 4 else 0) XOR (if bit x 3 then 8 else 0) XOR
             (if bit x 4 then 16 else 0) XOR (if bit x 5 then 32 else 0) XOR
             (if bit x 6 then 64 else 0) XOR (if bit x 7 then 128 else 0)"
    (is "x = ?rhs x")
proof -
  have "list_all (\<lambda>x. x = ?rhs x) all_bytes" by code_simp
  then have "x = ?rhs x" unfolding list_all_iff using mem_all_bytes by blast
  then show ?thesis .
qed

lemma damm_span:
  assumes one: "P 1"
    and double: "\<And>x. P x \<Longrightarrow> P (damm_double x)"
    and xor: "\<And>x y. P x \<Longrightarrow> P y \<Longrightarrow> P (x XOR y)"
  shows "P x"
proof -
  have zero: "P 0" using xor [OF one one] by simp
  have 2: "P 2" using double [OF one] by (simp add: damm_double_alt)
  have 4: "P 4" using double [OF 2] by (simp add: damm_double_alt)
  have 8: "P 8" using double [OF 4] by (simp add: damm_double_alt)
  have 16: "P 16" using double [OF 8] by (simp add: damm_double_alt)
  have 32: "P 32" using double [OF 16] by (simp add: damm_double_alt)
  have 64: "P 64" using double [OF 32] by (simp add: damm_double_alt)
  have 128: "P 128" using double [OF 64] by (simp add: damm_double_alt)
  show ?thesis
    by (subst byte_bits) (intro xor; simp add: zero one 2 4 8 16 32 64 128)
qed

lemma damm_pow_Suc: "(damm_double ^^ Suc n) x = (damm_double ^^ n) (damm_double x)"
  by (simp add: funpow_swap1)

lemma damm_pow_numeral: "(damm_double ^^ numeral n) x = (damm_double ^^ pred_numeral n) (damm_double x)"
  by (simp only: numeral_eq_Suc damm_pow_Suc)

lemma damm_pow_51: "(damm_double ^^ 51) x = x"
proof (rule damm_span [where x = x])
  show "(damm_double ^^ 51) 1 = 1" by (simp add: damm_pow_numeral damm_double_alt)
next
  fix x assume "(damm_double ^^ 51) x = x"
  then show "(damm_double ^^ 51) (damm_double x) = damm_double x"
    by (metis funpow_swap1)
next
  fix x y assume "(damm_double ^^ 51) x = x" "(damm_double ^^ 51) y = y"
  then show "(damm_double ^^ 51) (x XOR y) = x XOR y" by (simp only: damm_pow_xor)
qed

lemma xor_interchange: "(a XOR b) XOR (c XOR d) = (a XOR c) XOR (b XOR (d::u8))"
  by (simp only: xor.assoc xor.left_commute)

lemma damm_pow_34: "(damm_double ^^ 34) x XOR (damm_double ^^ 17) x = x"
proof (rule damm_span [where x = x])
  show "(damm_double ^^ 34) 1 XOR (damm_double ^^ 17) 1 = 1"
    by (simp add: damm_pow_numeral damm_double_alt)
next
  fix x assume "(damm_double ^^ 34) x XOR (damm_double ^^ 17) x = x"
  then show "(damm_double ^^ 34) (damm_double x) XOR (damm_double ^^ 17) (damm_double x) = damm_double x"
    by (metis funpow_swap1 damm_double_xor)
next
  fix x y
  assume "(damm_double ^^ 34) x XOR (damm_double ^^ 17) x = x"
    "(damm_double ^^ 34) y XOR (damm_double ^^ 17) y = y"
  then show "(damm_double ^^ 34) (x XOR y) XOR (damm_double ^^ 17) (x XOR y) = x XOR y"
    by (simp only: damm_pow_xor xor_interchange)
qed

lemma damm_pow_17:
  assumes "(damm_double ^^ 17) x = x"
  shows "x = 0"
proof -
  have "(damm_double ^^ (17 + 17)) x = x"
    using assms by (simp only: funpow_add o_apply)
  then show ?thesis using damm_pow_34 [of x] assms by simp
qed

text \<open>The orbit of a non-zero byte under doubling has length exactly 51.\<close>

lemma funpow_fixed_mult: "(f ^^ k) x = x \<Longrightarrow> (f ^^ (k * n)) x = x"
  by (induction n) (simp_all add: funpow_add)

lemma divisors_51: "g dvd 51 \<Longrightarrow> g dvd 3 \<or> g dvd 17 \<or> g = (51::nat)"
proof -
  assume g: "g dvd 51"
  then have "g \<le> 51" by (rule dvd_imp_le) simp
  moreover have "g \<noteq> 0" using g by (metis dvd_0_left_iff zero_neq_numeral)
  ultimately have "g = 1 \<or> g \<in> set [2..<52]" by (simp only: set_upt atLeastLessThan_iff) linarith
  moreover have "\<forall>g \<in> set [2..<52]. g dvd 51 \<longrightarrow> g dvd 3 \<or> g dvd 17 \<or> g = (51::nat)"
    unfolding list_all_iff [symmetric] by simp
  ultimately show ?thesis using g by (metis one_dvd)
qed

lemma damm_pow_fixed:
  assumes "x \<noteq> 0"
  shows "(damm_double ^^ k) x = x \<longleftrightarrow> 51 dvd k"
proof
  assume "51 dvd k"
  then show "(damm_double ^^ k) x = x"
    by (auto simp: dvd_def intro: funpow_fixed_mult damm_pow_51)
next
  assume fixed: "(damm_double ^^ k) x = x"
  show "51 dvd k"
  proof (cases "k = 0")
    case False
    define g where "g = gcd k 51"
    obtain a b where ab: "k * a = 51 * b + g"
      using bezout_nat [OF False, of 51] unfolding g_def by blast
    have "(damm_double ^^ (51 * b + g)) x = (damm_double ^^ g) ((damm_double ^^ (51 * b)) x)"
      by (simp only: add.commute [of "51 * b"] funpow_add o_apply)
    then have g_fixed: "(damm_double ^^ g) x = x"
      using funpow_fixed_mult [OF fixed, of a] funpow_fixed_mult [OF damm_pow_51, of b x]
      by (simp add: ab)
    have "g dvd 51" by (simp add: g_def)
    moreover have "\<not> g dvd 3"
      using funpow_fixed_mult [OF g_fixed] damm_pow_3 assms by (metis dvd_def)
    moreover have "\<not> g dvd 17"
      using funpow_fixed_mult [OF g_fixed] damm_pow_17 assms by (metis dvd_def)
    ultimately have "g = 51" using divisors_51 by blast
    then show ?thesis unfolding g_def by (metis gcd_dvd1)
  qed simp
qed

section \<open>The loop\<close>

lemma checksum_loop_append: "checksum_loop r (xs @ ys) = checksum_loop (checksum_loop r xs) ys"
  by (induction xs arbitrary: r) simp_all

lemma checksum_loop_state:
  "checksum_loop r xs = (damm_double ^^ length xs) r XOR checksum_loop 0 xs"
proof (induction xs arbitrary: r)
  case (Cons x xs)
  have "checksum_loop r (x # xs) =
      (damm_double ^^ length xs) (damm_double r XOR damm_double x) XOR checksum_loop 0 xs"
    using Cons [of "damm_double (r XOR x)"] by (simp add: damm_double_xor)
  also have "\<dots> = (damm_double ^^ length (x # xs)) r XOR
      ((damm_double ^^ length xs) (damm_double x) XOR checksum_loop 0 xs)"
    by (simp add: damm_pow_xor funpow_swap1 xor.assoc)
  also have "\<dots> = (damm_double ^^ length (x # xs)) r XOR checksum_loop 0 (x # xs)"
    using Cons [of "damm_double x"] by simp
  finally show ?case .
qed simp

lemma checksum_append:
  "ComputeChecksum (xs @ ys) =
   (damm_double ^^ length ys) (ComputeChecksum xs) XOR ComputeChecksum ys"
  by (simp add: ComputeChecksum_def checksum_loop_append checksum_loop_state [of "checksum_loop 0 xs" ys])

lemma checksum_Cons:
  "ComputeChecksum (x # xs) = (damm_double ^^ Suc (length xs)) x XOR ComputeChecksum xs"
  using checksum_append [of "[x]" xs] by (simp add: ComputeChecksum_def funpow_swap1)

lemma xor_cancel_left: "a XOR b = a XOR c \<longleftrightarrow> b = (c::u8)"
  by (metis xor.assoc xor_self_eq xor.left_neutral)

lemma xor_eq_0_iff: "a XOR b = 0 \<longleftrightarrow> a = (b::u8)"
  by (metis xor_cancel_left xor_self_eq)

lemma checksum_snoc: "ComputeChecksum (xs @ [c]) = 0 \<longleftrightarrow> c = ComputeChecksum xs"
proof -
  have "ComputeChecksum (xs @ [c]) = damm_double (ComputeChecksum xs XOR c)"
    by (simp add: ComputeChecksum_def checksum_loop_append)
  then show ?thesis by (auto simp: damm_double_eq_0 xor_eq_0_iff)
qed

lemma ValidateChecksum_Inr_iff:
  "ValidateChecksum data = Inr body \<longleftrightarrow>
   (\<exists>c. data = body @ [c] \<and> body \<noteq> [] \<and> c = ComputeChecksum body)"
proof (cases data rule: rev_cases)
  case (snoc xs c)
  then show ?thesis
    by (auto simp: ValidateChecksum_def checksum_snoc Suc_le_eq not_less split: if_splits)
qed (simp add: ValidateChecksum_def)

lemma ValidateChecksum_not_ok:
  "ValidateChecksum data \<noteq> Inl ErrInvalidChecksum \<longleftrightarrow> 2 \<le> length data \<and> ComputeChecksum data = 0"
  by (auto simp: ValidateChecksum_def)

lemma xor_swap_cancel:
  fixes p :: u8
  shows "(p XOR (a XOR (m XOR (b XOR q)))) XOR (p XOR (b' XOR (m XOR (a' XOR q)))) =
         (a XOR b') XOR (a' XOR b)"
  by (simp add: ac_simps)

section \<open>Properties\<close>

text \<open>
  The checksum is complete and sound for its own format: a buffer of at least one byte
  followed by a byte \<open>c\<close> validates exactly when \<open>c\<close> is the checksum of the buffer, and then the
  buffer is returned; every other trailing byte is rejected with \<open>ErrInvalidChecksum\<close>.
\<close>

theorem validate_checksum_iff:
  "ValidateChecksum (x # xs @ [c]) =
     (if c = ComputeChecksum (x # xs) then Inr (x # xs) else Inl ErrInvalidChecksum)"
  using ValidateChecksum_Inr_iff [of "x # xs @ [c]"] ValidateChecksum_not_ok [of "x # xs @ [c]"]
    checksum_snoc [of "x # xs" c] by auto

text \<open>
  C36. Every single-byte substitution is detected: if a buffer validates, then the buffer with any
  one byte replaced by a different byte is rejected.
\<close>

theorem substitution_detected:
  assumes "ValidateChecksum (pre @ a # post) = Inr body" and "a \<noteq> b"
  shows "ValidateChecksum (pre @ b # post) = Inl ErrInvalidChecksum"
proof (rule ccontr)
  assume "ValidateChecksum (pre @ b # post) \<noteq> Inl ErrInvalidChecksum"
  then have "ComputeChecksum (pre @ b # post) = ComputeChecksum (pre @ a # post)"
    using assms(1) ValidateChecksum_not_ok by (metis sum.distinct(1))
  then have "(damm_double ^^ Suc (length post)) a = (damm_double ^^ Suc (length post)) b"
    by (simp add: checksum_append checksum_Cons xor_cancel_left xor.commute
        del: funpow.simps)
  then have "(damm_double ^^ Suc (length post)) (a XOR b) = 0"
    by (simp only: damm_pow_xor xor_self_eq)
  then show False using assms(2) by (simp only: damm_pow_eq_0 xor_eq_0_iff)
qed

theorem substitution_detected_witness:
  "ValidateChecksum ([1, 2] @ 7 # [14]) = Inr [1, 2, 7] \<and>
   ValidateChecksum ([1, 2] @ 8 # [14]) = Inl ErrInvalidChecksum"
proof -
  have ok: "ValidateChecksum ([1, 2] @ 7 # [14]) = Inr [1, 2, 7]"
    by (simp add: ValidateChecksum_def ComputeChecksum_def damm_double_alt)
  show ?thesis using ok substitution_detected [OF ok, of 8] by simp
qed

text \<open>
  Swapping two different bytes of a valid buffer is detected, whatever lies between them, unless
  their distance is a multiple of 51; at those distances the swapped buffer always validates. So
  adjacent transpositions, and every transposition inside a 35-byte single address, are detected,
  but a dual address (67 bytes and more) has pairs of positions whose swap is not.
\<close>

theorem transposition_detected:
  assumes "ValidateChecksum (pre @ a # mid @ b # post) = Inr body" and "a \<noteq> b"
  shows "ValidateChecksum (pre @ b # mid @ a # post) \<noteq> Inl ErrInvalidChecksum \<longleftrightarrow>
         51 dvd Suc (length mid)"
proof -
  let ?k = "Suc (length mid)" and ?n = "Suc (length post)"
  let ?d = "a XOR b"
  let ?ab = "pre @ a # mid @ b # post" and ?ba = "pre @ b # mid @ a # post"
  have "ComputeChecksum ?ab XOR ComputeChecksum ?ba =
      (damm_double ^^ (?k + ?n)) ?d XOR (damm_double ^^ ?n) ?d"
    by (simp add: checksum_append checksum_Cons damm_pow_xor xor_swap_cancel del: funpow.simps)
  also have "\<dots> = (damm_double ^^ ?n) ((damm_double ^^ ?k) ?d XOR ?d)"
    by (simp only: add.commute [of ?k] funpow_add o_apply damm_pow_xor)
  finally have diff: "ComputeChecksum ?ab XOR ComputeChecksum ?ba =
      (damm_double ^^ ?n) ((damm_double ^^ ?k) ?d XOR ?d)" .
  have "2 \<le> length ?ab" and zero: "ComputeChecksum ?ab = 0"
    using assms(1) ValidateChecksum_not_ok [of ?ab] by simp_all
  then have "ValidateChecksum ?ba \<noteq> Inl ErrInvalidChecksum \<longleftrightarrow> ComputeChecksum ?ba = 0"
    by (simp add: ValidateChecksum_not_ok)
  also have "\<dots> \<longleftrightarrow> (damm_double ^^ ?k) ?d = ?d"
    using diff by (simp only: zero xor.left_neutral damm_pow_eq_0 xor_eq_0_iff)
  also have "\<dots> \<longleftrightarrow> 51 dvd ?k"
    using assms(2) by (intro damm_pow_fixed) (simp add: xor_eq_0_iff)
  finally show ?thesis .
qed

theorem transposition_detected_witness:
  "ValidateChecksum ([1] @ 2 # [] @ 7 # [14]) = Inr [1, 2, 7] \<and>
   ValidateChecksum ([1] @ 7 # [] @ 2 # [14]) = Inl ErrInvalidChecksum"
proof -
  have ok: "ValidateChecksum ([1] @ 2 # [] @ 7 # [14]) = Inr [1, 2, 7]"
    by (simp add: ValidateChecksum_def ComputeChecksum_def damm_double_alt)
  show ?thesis using ok transposition_detected [OF ok] by simp
qed

end
