(* ===== verification/Go_Strings.thy ===== *)
theory Go_Strings
  imports Prelude
begin

text \<open>
  What the address package uses of Go's strings. A Go string is a sequence of bytes, here a
  \<^typ>\<open>string\<close>; \<^verbatim>\<open>[]rune(s)\<close> and \<^verbatim>\<open>string(rs)\<close> convert between it and code points by UTF-8,
  with \<^verbatim>\<open>U+FFFD\<close> for what does not decode; \<^verbatim>\<open>strings.TrimSpace\<close> and \<^verbatim>\<open>strings.ReplaceAll\<close> are
  given on top of it. Code points are natural numbers: none of the runes the program handles is
  negative.
\<close>

section \<open>UTF-8\<close>

definition RuneError :: nat where "RuneError = 65533"

definition valid_rune :: "nat \<Rightarrow> bool" where
  "valid_rune r \<longleftrightarrow> r < 55296 \<or> 57344 \<le> r \<and> r < 1114112"

definition utf8_raw :: "nat \<Rightarrow> nat list" where
  "utf8_raw r =
     (if r < 128 then [r]
      else if r < 2048 then [192 + r div 64, 128 + r mod 64]
      else if r < 65536 then [224 + r div 4096, 128 + r div 64 mod 64, 128 + r mod 64]
      else [240 + r div 262144, 128 + r div 4096 mod 64, 128 + r div 64 mod 64, 128 + r mod 64])"

definition encode_rune :: "nat \<Rightarrow> nat list" where
  "encode_rune r = utf8_raw (if valid_rune r then r else RuneError)"

definition cont_byte :: "nat \<Rightarrow> bool" where
  "cont_byte b \<longleftrightarrow> 128 \<le> b \<and> b < 192"

text \<open>The first continuation byte has a narrower range after \<^verbatim>\<open>E0\<close> and \<^verbatim>\<open>F0\<close> (overlong forms),
  \<^verbatim>\<open>ED\<close> (surrogates) and \<^verbatim>\<open>F4\<close> (beyond \<^verbatim>\<open>U+10FFFF\<close>).\<close>

definition second_ok :: "nat \<Rightarrow> nat \<Rightarrow> bool" where
  "second_ok b0 b1 \<longleftrightarrow> cont_byte b1 \<and> (b0 = 224 \<longrightarrow> 160 \<le> b1) \<and> (b0 = 237 \<longrightarrow> b1 < 160) \<and>
     (b0 = 240 \<longrightarrow> 144 \<le> b1) \<and> (b0 = 244 \<longrightarrow> b1 < 144)"

text \<open>\<^verbatim>\<open>utf8.DecodeRune\<close>: the first rune and what follows it; a byte that starts no valid
  sequence is consumed alone as \<^const>\<open>RuneError\<close>.\<close>

fun decode_rune :: "nat list \<Rightarrow> nat \<times> nat list" where
  "decode_rune [] = (RuneError, [])"
| "decode_rune (b0 # bs) =
     (if b0 < 128 then (b0, bs)
      else if 194 \<le> b0 \<and> b0 < 224 then
        (case bs of b1 # r \<Rightarrow>
           if cont_byte b1 then ((b0 - 192) * 64 + (b1 - 128), r) else (RuneError, bs)
         | _ \<Rightarrow> (RuneError, bs))
      else if 224 \<le> b0 \<and> b0 < 240 then
        (case bs of b1 # b2 # r \<Rightarrow>
           if second_ok b0 b1 \<and> cont_byte b2
           then ((b0 - 224) * 4096 + (b1 - 128) * 64 + (b2 - 128), r) else (RuneError, bs)
         | _ \<Rightarrow> (RuneError, bs))
      else if 240 \<le> b0 \<and> b0 < 245 then
        (case bs of b1 # b2 # b3 # r \<Rightarrow>
           if second_ok b0 b1 \<and> cont_byte b2 \<and> cont_byte b3
           then ((b0 - 240) * 262144 + (b1 - 128) * 4096 + (b2 - 128) * 64 + (b3 - 128), r)
           else (RuneError, bs)
         | _ \<Rightarrow> (RuneError, bs))
      else (RuneError, bs))"

lemma decode_rune_shorter: "length (snd (decode_rune (b # bs))) \<le> length bs"
  by (auto split: list.splits)

function decode_runes :: "nat list \<Rightarrow> nat list" where
  "decode_runes [] = []"
| "decode_runes (b # bs) =
     (let (r, rest) = decode_rune (b # bs) in r # decode_runes rest)"
  by pat_completeness auto
termination
proof (relation "measure length")
  fix b bs x r rest
  assume "x = decode_rune (b # bs)" "(r, rest) = x"
  then show "(rest, b # bs) \<in> measure length"
    using decode_rune_shorter [of b bs] by (metis in_measure le_imp_less_Suc length_Cons snd_conv)
qed simp

declare decode_rune.simps(2) [simp del]

definition runes_of_string :: "string \<Rightarrow> nat list" where
  "runes_of_string s = decode_runes (map of_char s)"

definition string_of_runes :: "nat list \<Rightarrow> string" where
  "string_of_runes rs = map char_of (concat (map encode_rune rs))"

lemma utf8_raw_bytes: "valid_rune r \<Longrightarrow> b \<in> set (utf8_raw r) \<Longrightarrow> b < 256"
  by (auto simp: utf8_raw_def valid_rune_def split: if_splits)

lemma div64_split: "r div 64 = 64 * (r div 4096) + r div 64 mod (64::nat)"
proof -
  have "r div 4096 = r div 64 div 64" using div_mult2_eq [of r 64 64] by simp
  then show ?thesis by presburger
qed

lemma div4096_split: "r div 4096 = 64 * (r div 262144) + r div 4096 mod (64::nat)"
proof -
  have "r div 262144 = r div 4096 div 64" using div_mult2_eq [of r 4096 64] by simp
  then show ?thesis by presburger
qed

lemma decode_rune_raw: "valid_rune r \<Longrightarrow> decode_rune (utf8_raw r @ rest) = (r, rest)"
proof -
  assume v: "valid_rune r"
  consider "r < 128" | "128 \<le> r" "r < 2048" | "2048 \<le> r" "r < 65536" | "65536 \<le> r" by linarith
  then show ?thesis
  proof cases
    case 1
    then show ?thesis by (simp add: utf8_raw_def decode_rune.simps)
  next
    case 2
    then have "194 \<le> 192 + r div 64" "192 + r div 64 < 224" by linarith+
    with 2 show ?thesis by (simp add: utf8_raw_def decode_rune.simps cont_byte_def)
  next
    case 3
    have "r div 4096 * 4096 + r div 64 mod 64 * 64 + r mod 64 = r"
      using div64_split [of r] div_mult_mod_eq [of r 64] by linarith
    moreover have "second_ok (224 + r div 4096) (128 + r div 64 mod 64)"
      using 3 v div64_split [of r] by (auto simp: second_ok_def cont_byte_def valid_rune_def)
    ultimately show ?thesis
      using 3 by (simp add: utf8_raw_def decode_rune.simps cont_byte_def)
  next
    case 4
    with v have lt: "r < 1114112" by (simp add: valid_rune_def)
    have "r div 262144 * 262144 + r div 4096 mod 64 * 4096 + r div 64 mod 64 * 64 + r mod 64 = r"
      using div64_split [of r] div4096_split [of r] div_mult_mod_eq [of r 64] by linarith
    moreover have "second_ok (240 + r div 262144) (128 + r div 4096 mod 64)"
      using 4 lt div4096_split [of r] by (auto simp: second_ok_def cont_byte_def)
    moreover have "240 + r div 262144 < 245" using lt by linarith
    ultimately show ?thesis
      using 4 by (simp add: utf8_raw_def decode_rune.simps cont_byte_def)
  qed
qed

lemma decode_rune_encode: "valid_rune r \<Longrightarrow> decode_rune (encode_rune r @ rest) = (r, rest)"
  by (simp add: encode_rune_def decode_rune_raw)

lemma encode_rune_nonempty [simp]: "encode_rune r \<noteq> []"
  by (simp add: encode_rune_def utf8_raw_def)

lemma decode_runes_encode:
  "list_all valid_rune rs \<Longrightarrow> decode_runes (concat (map encode_rune rs)) = rs"
proof (induction rs)
  case (Cons r rs)
  obtain b bs where e: "encode_rune r = b # bs" by (cases "encode_rune r") auto
  from Cons.prems have "decode_rune (b # bs @ concat (map encode_rune rs)) = (r, concat (map encode_rune rs))"
    using decode_rune_encode [of r "concat (map encode_rune rs)"] by (simp add: e)
  with Cons show ?case by (simp add: e)
qed simp

lemma encode_rune_bytes: "b \<in> set (encode_rune r) \<Longrightarrow> b < 256"
  using utf8_raw_bytes [of r b] utf8_raw_bytes [of RuneError b]
  by (auto simp: encode_rune_def RuneError_def valid_rune_def split: if_splits)

lemma bytes_of_string_of_runes: "map of_char (string_of_runes rs) = concat (map encode_rune rs)"
proof -
  have "map (of_char \<circ> (char_of :: nat \<Rightarrow> char)) bs = bs" if "\<forall>b \<in> set bs. b < 256" for bs :: "nat list"
    using that by (induction bs) auto
  moreover have "\<forall>b \<in> set (concat (map encode_rune rs)). b < 256"
    using encode_rune_bytes by fastforce
  ultimately show ?thesis unfolding string_of_runes_def map_map by blast
qed

lemma runes_of_string_of_runes: "list_all valid_rune rs \<Longrightarrow> runes_of_string (string_of_runes rs) = rs"
  by (simp only: runes_of_string_def bytes_of_string_of_runes decode_runes_encode)

text \<open>Conversely a rune other than \<^const>\<open>RuneError\<close> was read from its own encoding.\<close>

lemma mod64: "z < 64 \<Longrightarrow> (z + 64 * k) mod 64 = (z::nat)"
  by (simp only: mod_mult_self2 mod_less)

lemma encode_three:
  assumes "x < 16" "y < 64" "z < 64" "x = 0 \<Longrightarrow> 32 \<le> y" "x = 13 \<Longrightarrow> y < 32"
  shows "encode_rune (x * 4096 + y * 64 + z) = [224 + x, 128 + y, 128 + z]"
proof -
  let ?r = "x * 4096 + y * 64 + z"
  have "?r mod 64 = z" using mod64 [of z "x * 64 + y"] assms(3) by (simp add: algebra_simps)
  moreover have "?r div 64 = x * 64 + y" "?r div 4096 = x" "(x * 64 + y) mod 64 = y"
    using assms(2,3) by simp_all
  moreover have "2048 \<le> ?r" using assms(4) by (cases "x = 0") simp_all
  moreover have "?r < 65536" using assms(1-3) by linarith
  moreover have "valid_rune ?r"
  proof -
    consider "x < 13" | "x = 13" | "13 < x" by linarith
    then show ?thesis
      using assms(1-3,5) \<open>?r < 65536\<close> by cases (simp_all add: valid_rune_def)
  qed
  ultimately show ?thesis by (simp add: encode_rune_def utf8_raw_def)
qed

lemma encode_four:
  assumes "w < 5" "x < 64" "y < 64" "z < 64" "w = 0 \<Longrightarrow> 16 \<le> x" "w = 4 \<Longrightarrow> x < 16"
  shows "encode_rune (w * 262144 + x * 4096 + y * 64 + z) = [240 + w, 128 + x, 128 + y, 128 + z]"
proof -
  let ?r = "w * 262144 + x * 4096 + y * 64 + z"
  have "?r mod 64 = z" "(w * 4096 + x * 64 + y) mod 64 = y"
    using mod64 [of z "w * 4096 + x * 64 + y"] mod64 [of y "w * 64 + x"] assms(3,4)
    by (simp_all add: algebra_simps)
  moreover have "?r div 64 = w * 4096 + x * 64 + y" "?r div 4096 = w * 64 + x"
    "?r div 262144 = w" "(w * 64 + x) mod 64 = x"
    using assms(2-4) by simp_all
  moreover have "65536 \<le> ?r" "?r < 1114112"
    using assms by linarith+
  ultimately show ?thesis by (simp add: encode_rune_def utf8_raw_def valid_rune_def)
qed

lemma encode_two:
  assumes "2 \<le> x" "x < 32" "y < 64"
  shows "encode_rune (x * 64 + y) = [192 + x, 128 + y]"
proof -
  have "(x * 64 + y) mod 64 = y" "(x * 64 + y) div 64 = x" using assms(3) by simp_all
  moreover have "128 \<le> x * 64 + y" "x * 64 + y < 2048" using assms by linarith+
  ultimately show ?thesis by (simp add: encode_rune_def utf8_raw_def valid_rune_def)
qed

lemma decode_rune_inv:
  assumes d: "decode_rune (b0 # bs) = (r, rest)" and "r \<noteq> RuneError"
  shows "b0 # bs = encode_rune r @ rest"
proof -
  consider "b0 < 128" | "194 \<le> b0" "b0 < 224" | "224 \<le> b0" "b0 < 240" | "240 \<le> b0" "b0 < 245"
    using assms by (fastforce simp: decode_rune.simps)
  then show ?thesis
  proof cases
    case 1
    with d show ?thesis by (auto simp: decode_rune.simps encode_rune_def utf8_raw_def valid_rune_def)
  next
    case 2
    with assms obtain b1 where "bs = b1 # rest" "cont_byte b1" "r = (b0 - 192) * 64 + (b1 - 128)"
      by (auto simp: decode_rune.simps split: list.splits if_splits)
    with 2 show ?thesis using encode_two [of "b0 - 192" "b1 - 128"] by (auto simp: cont_byte_def)
  next
    case 3
    with assms obtain b1 b2 where "bs = b1 # b2 # rest" "second_ok b0 b1" "cont_byte b2"
      "r = (b0 - 224) * 4096 + (b1 - 128) * 64 + (b2 - 128)"
      by (auto simp: decode_rune.simps split: list.splits if_splits)
    with 3 show ?thesis using encode_three [of "b0 - 224" "b1 - 128" "b2 - 128"]
      by (auto simp: cont_byte_def second_ok_def)
  next
    case 4
    with assms obtain b1 b2 b3 where "bs = b1 # b2 # b3 # rest" "second_ok b0 b1" "cont_byte b2"
      "cont_byte b3" "r = (b0 - 240) * 262144 + (b1 - 128) * 4096 + (b2 - 128) * 64 + (b3 - 128)"
      by (auto simp: decode_rune.simps split: list.splits if_splits)
    with 4 show ?thesis using encode_four [of "b0 - 240" "b1 - 128" "b2 - 128" "b3 - 128"]
      by (auto simp: cont_byte_def second_ok_def)
  qed
qed

lemma decode_runes_inv: "RuneError \<notin> set (decode_runes bs) \<Longrightarrow> bs = concat (map encode_rune (decode_runes bs))"
proof (induction bs rule: decode_runes.induct)
  case (2 b bs)
  obtain r rest where d: "decode_rune (b # bs) = (r, rest)" by fastforce
  with 2 have "rest = concat (map encode_rune (decode_runes rest))" by auto
  moreover have "b # bs = encode_rune r @ rest" using decode_rune_inv [OF d] 2 d by auto
  moreover have "decode_runes (b # bs) = r # decode_runes rest" using d by simp
  ultimately show ?case by (metis concat.simps(2) list.simps(9))
qed simp

lemma string_of_runes_of_string:
  "RuneError \<notin> set (runes_of_string s) \<Longrightarrow> string_of_runes (runes_of_string s) = s"
proof -
  assume "RuneError \<notin> set (runes_of_string s)"
  then have "concat (map encode_rune (runes_of_string s)) = map of_char s"
    using decode_runes_inv [of "map of_char s"] by (simp add: runes_of_string_def)
  then show ?thesis by (simp add: string_of_runes_def map_idI)
qed

section \<open>Trimming and removing\<close>

text \<open>\<^verbatim>\<open>unicode.IsSpace\<close>: the code points with the White Space property.\<close>

definition is_space :: "nat \<Rightarrow> bool" where
  "is_space r \<longleftrightarrow> 9 \<le> r \<and> r \<le> 13 \<or> r = 32 \<or> r = 133 \<or> r = 160 \<or> r = 5760 \<or>
     8192 \<le> r \<and> r \<le> 8202 \<or> r = 8232 \<or> r = 8233 \<or> r = 8239 \<or> r = 8287 \<or> r = 12288"

text \<open>\<^verbatim>\<open>utf8.DecodeLastRune\<close>: look back over at most four bytes for the start of the last
  rune; the result is the rune and what precedes it.\<close>

definition decode_last_rune :: "nat list \<Rightarrow> nat \<times> nat list" where
  "decode_last_rune bs =
     (if bs = [] then (RuneError, [])
      else if last bs < 128 then (last bs, butlast bs)
      else case List.find (\<lambda>k. k \<le> length bs \<and> \<not> cont_byte (bs ! (length bs - k))) [2, 3, 4] of
             None \<Rightarrow> (RuneError, butlast bs)
           | Some k \<Rightarrow>
               (case decode_rune (drop (length bs - k) bs) of
                  (r, rest) \<Rightarrow> if rest = [] then (r, take (length bs - k) bs)
                              else (RuneError, butlast bs)))"

lemma decode_last_rune_shorter:
  assumes "bs \<noteq> []" shows "length (snd (decode_last_rune bs)) < length bs"
proof -
  have "length (butlast bs) < length bs" using assms by simp
  moreover have "length bs - k < length bs" if "List.find P [2, 3, 4] = Some k" for P k
    using that assms by (auto split: if_splits)
  ultimately show ?thesis
    unfolding decode_last_rune_def by (auto split: option.split prod.split)
qed

function trim_left :: "nat list \<Rightarrow> nat list" where
  "trim_left [] = []"
| "trim_left (b # bs) =
     (let (r, rest) = decode_rune (b # bs) in if is_space r then trim_left rest else b # bs)"
  by pat_completeness auto
termination
proof (relation "measure length")
  fix b bs x r rest
  assume "x = decode_rune (b # bs)" "(r, rest) = x"
  then show "(rest, b # bs) \<in> measure length"
    using decode_rune_shorter [of b bs] by (metis in_measure le_imp_less_Suc length_Cons snd_conv)
qed simp

function trim_right :: "nat list \<Rightarrow> nat list" where
  "trim_right bs =
     (if bs = [] then []
      else let (r, pre) = decode_last_rune bs in if is_space r then trim_right pre else bs)"
  by pat_completeness auto
termination
proof (relation "measure length")
  fix bs :: "nat list" and x r pre
  assume "bs \<noteq> []" "x = decode_last_rune bs" "(r, pre) = x"
  then show "(pre, bs) \<in> measure length"
    using decode_last_rune_shorter [of bs] by (metis in_measure snd_conv)
qed simp

declare trim_right.simps [simp del]

definition TrimSpace :: "string \<Rightarrow> string" where
  "TrimSpace s = map char_of (trim_right (trim_left (map of_char s)))"

text \<open>\<^verbatim>\<open>strings.ReplaceAll(s, c, "")\<close> for a one-byte \<open>c\<close>.\<close>

definition remove_char :: "char \<Rightarrow> string \<Rightarrow> string" where
  "remove_char c s = filter (\<lambda>d. d \<noteq> c) s"

lemma decode_rune_suffix: "\<exists>pre. bs = pre @ snd (decode_rune bs)"
proof (cases bs)
  case (Cons b0 r)
  then show ?thesis
    by (auto simp: decode_rune.simps split: list.splits intro: exI [of _ "[b0]"] exI [of _ "[b0, _]"])
qed simp

lemma trim_left_subset: "set (trim_left bs) \<subseteq> set bs"
proof (induction bs rule: trim_left.induct)
  case (2 b bs)
  obtain r rest where d: "decode_rune (b # bs) = (r, rest)" by fastforce
  obtain pre where "b # bs = pre @ rest" using decode_rune_suffix [of "b # bs"] d by auto
  then have "set rest \<subseteq> set (b # bs)" by (metis set_append Un_upper2)
  moreover have "set (trim_left rest) \<subseteq> set rest" if "is_space r" using 2 d that by auto
  ultimately show ?case using d by auto
qed simp

lemma decode_last_rune_subset: "set (snd (decode_last_rune bs)) \<subseteq> set bs"
  by (auto simp: decode_last_rune_def dest: in_set_butlastD in_set_takeD
      split: option.split prod.split)

lemma trim_right_subset: "set (trim_right bs) \<subseteq> set bs"
proof (induction bs rule: trim_right.induct)
  case (1 bs)
  obtain r pre where d: "decode_last_rune bs = (r, pre)" by fastforce
  then have "set pre \<subseteq> set bs" using decode_last_rune_subset [of bs] by simp
  moreover have "set (trim_right pre) \<subseteq> set pre" if "is_space r" "bs \<noteq> []" using 1 d that by auto
  ultimately show ?case using d by (subst trim_right.simps) auto
qed

lemma TrimSpace_subset: "set (TrimSpace s) \<subseteq> set s"
proof -
  have "set (trim_right (trim_left (map of_char s))) \<subseteq> of_char ` set s"
    using trim_right_subset trim_left_subset by (metis set_map subset_trans)
  then have "char_of ` set (trim_right (trim_left (map of_char s))) \<subseteq> char_of ` (of_char :: char \<Rightarrow> nat) ` set s"
    by (rule image_mono)
  then show ?thesis by (simp add: TrimSpace_def image_image)
qed

text \<open>On the encoding of a list of runes, trimming only sees the first and the last rune.\<close>

lemma encode_rune_shape:
  "(\<exists>b. encode_rune r = [b] \<and> b < 128) \<or>
   (\<exists>b cs. encode_rune r = b # cs \<and> 192 \<le> b \<and> list_all cont_byte cs \<and> cs \<noteq> [] \<and> length cs \<le> 3)"
  by (auto simp: encode_rune_def utf8_raw_def cont_byte_def RuneError_def)

lemma decode_last_rune_encode:
  assumes "valid_rune r"
  shows "decode_last_rune (pre @ encode_rune r) = (r, pre)"
  using encode_rune_shape [of r]
proof (elim disjE exE conjE)
  fix b assume "encode_rune r = [b]" "b < 128"
  moreover from this have "b = r"
    using decode_rune_encode [OF assms, of "[]"] by (simp add: decode_rune.simps)
  ultimately show ?thesis by (simp add: decode_last_rune_def)
next
  fix b cs
  assume e: "encode_rune r = b # cs" and b: "192 \<le> b" and cs: "list_all cont_byte cs"
    and "cs \<noteq> []" "length cs \<le> 3"
  let ?bs = "pre @ b # cs"
  have l: "length ?bs - Suc (length cs) = length pre" by simp
  have last: "\<not> last ?bs < 128"
    using cs last_in_set [OF \<open>cs \<noteq> []\<close>] by (auto simp: list_all_iff cont_byte_def not_less)
  have nth: "cont_byte (?bs ! (length ?bs - k)) \<longleftrightarrow> k \<le> length cs" if "0 < k" "k \<le> Suc (length cs)" for k
  proof (cases "k = Suc (length cs)")
    case True
    with b show ?thesis by (simp add: nth_append cont_byte_def)
  next
    case False
    with that have "length ?bs - k = length pre + Suc (length cs - k)" by simp
    then have "?bs ! (length ?bs - k) = cs ! (length cs - k)"
      by (simp only: nth_append_length_plus nth_Cons_Suc)
    moreover have "cs ! (length cs - k) \<in> set cs" using that False by simp
    ultimately show ?thesis using cs False that by (auto simp: list_all_iff)
  qed
  have "List.find (\<lambda>k. k \<le> length ?bs \<and> \<not> cont_byte (?bs ! (length ?bs - k))) [2, 3, 4] =
      Some (Suc (length cs))"
    using nth [of 2] nth [of 3] nth [of 4] \<open>cs \<noteq> []\<close> \<open>length cs \<le> 3\<close>
    by (cases cs; cases "tl cs"; cases "tl (tl cs)"; cases "tl (tl (tl cs))") auto
  moreover have "decode_rune (b # cs) = (r, [])"
    using decode_rune_encode [OF assms, of "[]"] by (simp add: e)
  ultimately show ?thesis
    using last l by (simp add: decode_last_rune_def e del: length_append find.simps drop_append take_append)
      (simp add: drop_append take_append)
qed

lemma trim_left_encode:
  assumes "list_all valid_rune rs" "\<forall>r \<in> set rs. \<not> is_space r"
  shows "trim_left (concat (map encode_rune rs)) = concat (map encode_rune rs)"
proof (cases rs)
  case (Cons r rs')
  obtain b bs where e: "encode_rune r = b # bs" by (cases "encode_rune r") auto
  have "decode_rune (b # bs @ concat (map encode_rune rs')) = (r, concat (map encode_rune rs'))"
    using decode_rune_encode [of r "concat (map encode_rune rs')"] assms Cons by (simp add: e)
  then show ?thesis using assms Cons by (simp add: e)
qed simp

lemma trim_right_encode:
  assumes "list_all valid_rune rs" "\<forall>r \<in> set rs. \<not> is_space r"
  shows "trim_right (concat (map encode_rune rs)) = concat (map encode_rune rs)"
proof (cases rs rule: rev_cases)
  case Nil
  then show ?thesis by (simp add: trim_right.simps)
next
  case (snoc rs' r)
  then have "decode_last_rune (concat (map encode_rune rs)) = (r, concat (map encode_rune rs'))"
    using decode_last_rune_encode [of r "concat (map encode_rune rs')"] assms by simp
  then show ?thesis using assms snoc by (subst trim_right.simps) simp
qed

lemma TrimSpace_runes:
  assumes "list_all valid_rune rs" "\<forall>r \<in> set rs. \<not> is_space r"
  shows "TrimSpace (string_of_runes rs) = string_of_runes rs"
  using trim_left_encode [OF assms] trim_right_encode [OF assms]
  by (simp add: TrimSpace_def bytes_of_string_of_runes) (simp add: string_of_runes_def)

text \<open>Runes outside ASCII have no ASCII byte in their encoding.\<close>

lemma remove_char_runes:
  assumes "\<forall>r \<in> set rs. 128 \<le> r" "(of_char c :: nat) < 128"
  shows "remove_char c (string_of_runes rs) = string_of_runes rs"
proof -
  have "128 \<le> b" if "b \<in> set (encode_rune r)" "128 \<le> r" for b r
    using that by (auto simp: encode_rune_def utf8_raw_def RuneError_def split: if_splits)
  moreover have "char_of b \<noteq> c" if "128 \<le> b" "b < 256" for b :: nat
    using that assms(2) by (metis of_char_of mod_less not_less)
  ultimately show ?thesis
    using assms encode_rune_bytes
    by (auto simp: remove_char_def string_of_runes_def filter_id_conv)
qed

lemma decode_runes_ascii: "\<forall>b \<in> set bs. b < 128 \<Longrightarrow> decode_runes bs = bs"
  by (induction bs) (auto simp: decode_rune.simps)

lemma runes_of_ascii: "\<forall>c \<in> set s. (of_char c :: nat) < 128 \<Longrightarrow> runes_of_string s = map of_char s"
  by (simp add: runes_of_string_def decode_runes_ascii)

end
