(* ===== verification/Address_Types.thy ===== *)
theory Address_Types
  imports Dammsum Go_Strings
begin

text \<open>
  The small types of the address package: \<open>Network\<close> (\<^verbatim>\<open>src/address/network.go\<close>), \<open>Features\<close>
  (\<^verbatim>\<open>src/address/features.go\<close>) and \<open>CompressedPublicKey\<close> (\<^verbatim>\<open>src/address/pubkey.go\<close>). Both
  \<open>Network\<close> and \<open>Features\<close> are Go types over \<^verbatim>\<open>uint8\<close>, so any byte is a value of them; which bytes
  the decoders accept is a theorem, not part of the type.
\<close>

section \<open>Network\<close>

type_synonym Network = u8

definition MainNet :: Network where "MainNet = 0"
definition StageNet :: Network where "StageNet = 1"
definition NextNet :: Network where "NextNet = 2"
definition LocalNet :: Network where "LocalNet = 16"
definition Igor :: Network where "Igor = 36"
definition Esmeralda :: Network where "Esmeralda = 38"

lemmas network_defs = MainNet_def StageNet_def NextNet_def LocalNet_def Igor_def Esmeralda_def

definition Network_AsByte :: "Network \<Rightarrow> u8" where "Network_AsByte n = n"

definition Network_String :: "Network \<Rightarrow> string" where
  "Network_String n =
     (if n = MainNet then ''mainnet''
      else if n = StageNet then ''stagenet''
      else if n = NextNet then ''nextnet''
      else if n = Igor then ''igor''
      else if n = Esmeralda then ''esmeralda''
      else if n = LocalNet then ''localnet''
      else ''unknown'')"

definition NetworkFromByte :: "u8 \<Rightarrow> address_error + Network" where
  "NetworkFromByte v =
     (if v = MainNet then Inr MainNet
      else if v = StageNet then Inr StageNet
      else if v = NextNet then Inr NextNet
      else if v = LocalNet then Inr LocalNet
      else if v = Igor then Inr Igor
      else if v = Esmeralda then Inr Esmeralda
      else Inl ErrInvalidNetwork)"

text \<open>
  \<^verbatim>\<open>strings.ToLower\<close>: ASCII letters are mapped in place; a string with other bytes goes through its
  runes, whose lower-case mapping is the Unicode table of the Go runtime and a parameter here.
\<close>

definition ascii_lower :: "char \<Rightarrow> char" where
  "ascii_lower c = (let n = (of_char c :: nat) in if 65 \<le> n \<and> n \<le> 90 then char_of (n + 32) else c)"

definition ToLower :: "(nat \<Rightarrow> nat) \<Rightarrow> string \<Rightarrow> string" where
  "ToLower unicode_lower s =
     (if list_all (\<lambda>c. (of_char c :: nat) < 128) s then map ascii_lower s
      else string_of_runes (map unicode_lower (runes_of_string s)))"

definition NetworkFromString :: "(nat \<Rightarrow> nat) \<Rightarrow> string \<Rightarrow> address_error + Network" where
  "NetworkFromString unicode_lower value =
     (let v = ToLower unicode_lower value in
      if v = ''mainnet'' then Inr MainNet
      else if v = ''nextnet'' then Inr NextNet
      else if v = ''stagenet'' then Inr StageNet
      else if v = ''localnet'' then Inr LocalNet
      else if v = ''igor'' then Inr Igor
      else if v = ''esmeralda'' \<or> v = ''esme'' then Inr Esmeralda
      else Inl (CreationError (''invalid network option: '' @ value)))"

definition known_networks :: "Network list" where
  "known_networks = [MainNet, StageNet, NextNet, LocalNet, Igor, Esmeralda]"

lemma NetworkFromByte_Inr_iff: "NetworkFromByte v = Inr n \<longleftrightarrow> n = v \<and> v \<in> set known_networks"
  by (auto simp: NetworkFromByte_def known_networks_def)

lemma NetworkFromByte_Inl_iff: "NetworkFromByte v = Inl e \<longleftrightarrow> e = ErrInvalidNetwork \<and> v \<notin> set known_networks"
  by (auto simp: NetworkFromByte_def known_networks_def)

lemma known_network_lt_58: "n \<in> set known_networks \<Longrightarrow> unat n < 58"
  by (auto simp: known_networks_def network_defs)

section \<open>Features\<close>

type_synonym Features = u8

definition FeaturePaymentID :: Features where "FeaturePaymentID = 4"
definition FeatureInteractive :: Features where "FeatureInteractive = 2"
definition FeatureOneSided :: Features where "FeatureOneSided = 1"

definition validFeatureBits :: Features where
  "validFeatureBits = FeaturePaymentID OR FeatureInteractive OR FeatureOneSided"

lemmas feature_defs = FeaturePaymentID_def FeatureInteractive_def FeatureOneSided_def
  validFeatureBits_def

definition FeaturesInteractiveOnly :: Features where "FeaturesInteractiveOnly = FeatureInteractive"
definition FeaturesOneSidedOnly :: Features where "FeaturesOneSidedOnly = FeatureOneSided"
definition FeaturesInteractiveAndOneSided :: Features where
  "FeaturesInteractiveAndOneSided = FeatureInteractive OR FeatureOneSided"
definition DefaultFeatures :: Features where "DefaultFeatures = FeatureInteractive OR FeatureOneSided"

definition Features_AsU8 :: "Features \<Rightarrow> u8" where "Features_AsU8 f = f"

definition Contains :: "Features \<Rightarrow> Features \<Rightarrow> bool" where
  "Contains f other \<longleftrightarrow> f AND other = other"

definition Combine :: "Features \<Rightarrow> Features \<Rightarrow> Features" where
  "Combine f other = f OR other"

text \<open>\<^verbatim>\<open>(0, false)\<close> is \<open>None\<close>; \<^verbatim>\<open>x &^ y\<close> is \<open>x AND NOT y\<close>.\<close>

definition featuresFromBits :: "u8 \<Rightarrow> Features option" where
  "featuresFromBits v = (if v AND NOT validFeatureBits \<noteq> 0 then None else Some v)"

definition Features_String :: "Features \<Rightarrow> string" where
  "Features_String f =
     (if Contains f FeatureInteractive then ''Interactive,'' else '''') @
     (if Contains f FeatureOneSided then ''One-sided,'' else '''') @
     (if Contains f FeaturePaymentID then ''Payment-id,'' else '''')"

definition valid_features :: "Features \<Rightarrow> bool" where
  "valid_features f \<longleftrightarrow> f AND NOT validFeatureBits = 0"

lemma featuresFromBits_Some_iff: "featuresFromBits v = Some f \<longleftrightarrow> f = v \<and> valid_features v"
  by (auto simp: featuresFromBits_def valid_features_def)

lemma featuresFromBits_None_iff: "featuresFromBits v = None \<longleftrightarrow> \<not> valid_features v"
  by (auto simp: featuresFromBits_def valid_features_def)

lemma valid_features_lt_8: "valid_features f \<longleftrightarrow> unat f < 8"
proof -
  have "list_all (\<lambda>f. valid_features f \<longleftrightarrow> unat f < 8) all_bytes" by code_simp
  then show ?thesis by (simp add: list_all_iff)
qed

lemma and_or_distrib_eq_0: "(a OR b) AND c = 0 \<longleftrightarrow> a AND c = 0 \<and> b AND (c::u8) = 0"
  by (auto simp: bit_eq_iff bit_and_iff bit_or_iff)

lemma valid_features_Combine [simp]:
  "valid_features (Combine f g) \<longleftrightarrow> valid_features f \<and> valid_features g"
  by (simp add: valid_features_def Combine_def and_or_distrib_eq_0)

lemma valid_features_consts [simp]:
  "valid_features FeaturePaymentID" "valid_features FeatureInteractive"
  "valid_features FeatureOneSided" "valid_features DefaultFeatures"
  "valid_features FeaturesInteractiveOnly"
  by (simp_all add: valid_features_lt_8 feature_defs DefaultFeatures_def FeaturesInteractiveOnly_def)

lemma byte_bit_lt: "bit (h::u8) n \<Longrightarrow> n < 8"
  using bit_imp_le_length [of h n] by simp

lemma Contains_Combine:
  "Contains (Combine f g) h \<longleftrightarrow> (\<forall>n. bit h n \<longrightarrow> bit f n \<or> bit g n)"
  using byte_bit_lt [of h] by (simp add: Contains_def Combine_def bit_eq_iff bit_and_iff bit_or_iff) blast

lemma Contains_iff: "Contains f h \<longleftrightarrow> (\<forall>n. bit h n \<longrightarrow> bit f n)"
  using byte_bit_lt [of h] by (simp add: Contains_def bit_eq_iff bit_and_iff) blast

lemma Contains_Combine_left [simp]: "Contains (Combine f g) f"
  and Contains_Combine_right [simp]: "Contains (Combine f g) g"
  by (simp_all add: Contains_Combine)

section \<open>Compressed public keys\<close>

text \<open>
  A \<open>CompressedPublicKey\<close> is an array of 32 bytes. Whether 32 bytes are the canonical encoding of a
  Ristretto255 element is decided by \<^verbatim>\<open>github.com/gtank/ristretto255\<close>; \<open>canonical\<close> stands for
  \<^verbatim>\<open>SetCanonicalBytes(b)\<close> returning no error.
\<close>

definition PublicKeySize :: nat where "PublicKeySize = 32"

type_synonym CompressedPublicKey = bytes

definition zero_key :: CompressedPublicKey where "zero_key = replicate 32 0"

definition PublicKey_Bytes :: "CompressedPublicKey \<Rightarrow> bytes" where "PublicKey_Bytes k = k"

definition PublicKeyFromCanonicalBytes ::
    "(bytes \<Rightarrow> bool) \<Rightarrow> bytes \<Rightarrow> address_error + CompressedPublicKey" where
  "PublicKeyFromCanonicalBytes canonical b =
     (if length b \<noteq> PublicKeySize then Inl ErrCannotRecoverPublicKey
      else if \<not> canonical b then Inl ErrCannotRecoverPublicKey
      else Inr b)"

definition valid_key :: "(bytes \<Rightarrow> bool) \<Rightarrow> CompressedPublicKey \<Rightarrow> bool" where
  "valid_key canonical k \<longleftrightarrow> length k = 32 \<and> canonical k"

lemma PublicKeyFromCanonicalBytes_Inr_iff:
  "PublicKeyFromCanonicalBytes canonical b = Inr k \<longleftrightarrow> k = b \<and> valid_key canonical b"
  by (auto simp: PublicKeyFromCanonicalBytes_def valid_key_def PublicKeySize_def)

lemma PublicKeyFromCanonicalBytes_Inl_iff:
  "PublicKeyFromCanonicalBytes canonical b = Inl e \<longleftrightarrow>
   e = ErrCannotRecoverPublicKey \<and> \<not> valid_key canonical b"
  by (auto simp: PublicKeyFromCanonicalBytes_def valid_key_def PublicKeySize_def)

end
