(* ===== verification/Base58_Text.thy ===== *)
theory Base58_Text
  imports Address_Types
begin

text \<open>
  The base58 helpers of \<^verbatim>\<open>src/address/base58.go\<close>. The codec itself is
  \<^verbatim>\<open>github.com/mr-tron/base58\<close>, a parameter \<open>B\<close> with its two entry points; what the address
  package relies on of it is the locale \<open>base58\<close>. The theory \<open>Base58_Bitcoin\<close> gives the
  Bitcoin base58 algorithm and shows that it satisfies that locale.
\<close>

section \<open>The codec the package calls\<close>

record base58_lib =
  Encode :: "bytes \<Rightarrow> string"
  Decode :: "string \<Rightarrow> bytes option"

definition base58_alphabet :: string where
  "base58_alphabet = ''123456789ABCDEFGHJKLMNPQRSTUVWXYZabcdefghijkmnopqrstuvwxyz''"

text \<open>
  What is relied on: decoding inverts encoding of a non-empty byte string; a byte below 58 is one
  character; encodings are written in the Bitcoin alphabet, and a string with a character outside
  it does not decode.
\<close>

locale base58 =
  fixes B :: base58_lib
  assumes decode_encode: "bs \<noteq> [] \<Longrightarrow> Decode B (Encode B bs) = Some bs"
    and encode_digit: "unat b < 58 \<Longrightarrow> length (Encode B [b]) = 1"
    and encode_alphabet: "set (Encode B bs) \<subseteq> set base58_alphabet"
    and decode_foreign: "\<not> set s \<subseteq> set base58_alphabet \<Longrightarrow> Decode B s = None"

section \<open>Helpers of the package\<close>

definition encodeSingleByte :: "base58_lib \<Rightarrow> u8 \<Rightarrow> string" where
  "encodeSingleByte B b = Encode B [b]"

definition decodeBytes :: "base58_lib \<Rightarrow> string \<Rightarrow> bytes option" where
  "decodeBytes B s = Decode B s"

definition splitNetworkFeaturesRest :: "string \<Rightarrow> address_error + (string \<times> string \<times> string)" where
  "splitNetworkFeaturesRest s =
     (if length s < 2 then Inl ErrInvalidCharacter
      else let first = take 2 s; rest = drop 2 s
           in Inr (take 1 first, take 1 (drop 1 first), rest))"

lemma split_encoded:
  assumes "length a = 1" "length b = 1"
  shows "splitNetworkFeaturesRest (a @ b @ r) = Inr (a, b, r)"
  using assms by (auto simp: splitNetworkFeaturesRest_def length_Suc_conv)

context base58
begin

text \<open>The three pieces of an encoded buffer come back from the split and the three decodings.\<close>

lemma split_decode:
  assumes "unat n < 58" "unat f < 58" "rest \<noteq> []"
  shows "splitNetworkFeaturesRest (encodeSingleByte B n @ encodeSingleByte B f @ Encode B rest) =
           Inr (Encode B [n], Encode B [f], Encode B rest)"
    and "decodeBytes B (Encode B [n]) = Some [n]"
    and "decodeBytes B (Encode B [f]) = Some [f]"
    and "decodeBytes B (Encode B rest) = Some rest"
  using assms by (simp_all add: encodeSingleByte_def decodeBytes_def split_encoded encode_digit
      decode_encode)

lemma encode_ascii: "c \<in> set (Encode B bs) \<Longrightarrow> (of_char c :: nat) < 128"
proof -
  have "list_all (\<lambda>c. (of_char c :: nat) < 128) base58_alphabet"
    by (simp add: base58_alphabet_def)
  then show "c \<in> set (Encode B bs) \<Longrightarrow> ?thesis"
    using encode_alphabet [of bs] by (auto simp: list_all_iff)
qed

lemma decode_zero_digit: "CHR ''0'' \<in> set s \<Longrightarrow> Decode B s = None"
proof -
  have "CHR ''0'' \<notin> set base58_alphabet" by (simp add: base58_alphabet_def)
  then show "CHR ''0'' \<in> set s \<Longrightarrow> ?thesis" using decode_foreign [of s] by blast
qed

end

end
