(* ===== verification/Base58_Bitcoin.thy ===== *)
theory Base58_Bitcoin
  imports Base58_Text
begin

text \<open>
  The Bitcoin base58 encoding, as an executable change of base that keeps leading zeros, and the
  proof that it satisfies the interface \<open>base58\<close> the address package relies on. It stands for no
  file of the repository: it is the published algorithm the library call implements, and
  instantiates the library parameter where a concrete codec is needed.
\<close>

section \<open>Change of base\<close>

function to_base :: "nat \<Rightarrow> nat \<Rightarrow> nat list" where
  "to_base b n = (if n = 0 \<or> b < 2 then [] else n mod b # to_base b (n div b))"
  by pat_completeness auto
termination by (relation "measure snd") auto

declare to_base.simps [simp del]

primrec of_base :: "nat \<Rightarrow> nat list \<Rightarrow> nat" where
  "of_base b [] = 0"
| "of_base b (d # ds) = d + b * of_base b ds"

definition change_base :: "nat \<Rightarrow> nat \<Rightarrow> nat list \<Rightarrow> nat list" where
  "change_base a b ds =
     takeWhile (\<lambda>d. d = 0) ds @ rev (to_base b (of_base a (rev (dropWhile (\<lambda>d. d = 0) ds))))"

lemma of_to_base: "2 \<le> b \<Longrightarrow> of_base b (to_base b n) = n"
proof (induction b n rule: to_base.induct)
  case (1 b n)
  then show ?case by (subst to_base.simps) auto
qed

lemma to_base_digits: "d \<in> set (to_base b n) \<Longrightarrow> d < b"
proof (induction b n rule: to_base.induct)
  case (1 b n)
  then show ?case by (subst (asm) (2) to_base.simps) (auto split: if_splits)
qed

lemma to_base_eq_Nil: "2 \<le> b \<Longrightarrow> to_base b n = [] \<longleftrightarrow> n = 0"
  by (subst to_base.simps) simp

lemma to_base_last: "2 \<le> b \<Longrightarrow> to_base b n \<noteq> [] \<Longrightarrow> last (to_base b n) \<noteq> 0"
proof (induction b n rule: to_base.induct)
  case (1 b n)
  show ?case
  proof (cases "n div b = 0")
    case True
    with "1.prems" have "to_base b n = [n mod b]" "n mod b \<noteq> 0"
      by (auto simp: to_base.simps [of b n] to_base.simps [of b 0] div_eq_0_iff split: if_splits)
    then show ?thesis by simp
  next
    case False
    with 1 show ?thesis
      by (simp add: to_base.simps [of b n] to_base_eq_Nil split: if_splits)
  qed
qed

lemma of_base_eq_0: "1 \<le> b \<Longrightarrow> of_base b ds = 0 \<longleftrightarrow> (\<forall>d \<in> set ds. d = 0)"
  by (induction ds) auto

lemma to_of_base:
  "2 \<le> b \<Longrightarrow> \<forall>d \<in> set ds. d < b \<Longrightarrow> (ds \<noteq> [] \<Longrightarrow> last ds \<noteq> 0) \<Longrightarrow> to_base b (of_base b ds) = ds"
proof (induction ds)
  case Nil
  then show ?case by (simp add: to_base.simps)
next
  case (Cons d ds)
  then have "of_base b (d # ds) \<noteq> 0"
    using of_base_eq_0 [of b "d # ds"] last_in_set [of "d # ds"] by auto
  moreover have "to_base b (of_base b ds) = ds" using Cons by (auto split: if_splits)
  ultimately show ?case using Cons.prems(1,2) by (subst to_base.simps) simp
qed

lemma change_base_split:
  assumes "2 \<le> b"
  shows "takeWhile (\<lambda>d. d = 0) (change_base a b ds) = takeWhile (\<lambda>d. d = 0) ds"
    and "dropWhile (\<lambda>d. d = 0) (change_base a b ds) =
         rev (to_base b (of_base a (rev (dropWhile (\<lambda>d. d = 0) ds))))" (is "_ = rev ?ts")
proof -
  have "rev ?ts = [] \<or> hd (rev ?ts) \<noteq> 0"
    by (metis assms hd_rev rev_is_Nil_conv to_base_last)
  then have tail: "takeWhile (\<lambda>d. d = 0) (rev ?ts) = []" "dropWhile (\<lambda>d. d = 0) (rev ?ts) = rev ?ts"
    by (cases "rev ?ts"; simp)+
  have head: "\<forall>d \<in> set (takeWhile (\<lambda>d. d = 0) ds). d = 0" by (auto dest: set_takeWhileD)
  show "takeWhile (\<lambda>d. d = 0) (change_base a b ds) = takeWhile (\<lambda>d. d = 0) ds"
    and "dropWhile (\<lambda>d. d = 0) (change_base a b ds) = rev ?ts"
    using head tail by (simp_all add: change_base_def takeWhile_append2 dropWhile_append2)
qed

lemma change_base_back:
  assumes "2 \<le> a" "2 \<le> b" "\<forall>d \<in> set ds. d < a"
  shows "change_base b a (change_base a b ds) = ds"
proof -
  let ?r = "dropWhile (\<lambda>d. d = 0) ds"
  have "last (rev ?r) \<noteq> 0" if "rev ?r \<noteq> []"
    using that hd_dropWhile [of "\<lambda>d. d = 0" ds] by (simp add: last_rev)
  moreover have "\<forall>d \<in> set (rev ?r). d < a" using assms(3) by (auto dest: set_dropWhileD)
  ultimately have "to_base a (of_base a (rev ?r)) = rev ?r"
    using assms(1) by (intro to_of_base)
  then show ?thesis
    using assms(2) by (simp add: change_base_def [of b a] change_base_split of_to_base)
qed

lemma change_base_digits: "2 \<le> b \<Longrightarrow> d \<in> set (change_base a b ds) \<Longrightarrow> d < b"
  by (auto simp: change_base_def dest: set_takeWhileD to_base_digits)

text \<open>The number of digits.\<close>

lemma length_to_base_le: "2 \<le> b \<Longrightarrow> n < b ^ k \<Longrightarrow> length (to_base b n) \<le> k"
proof (induction k arbitrary: n)
  case 0
  then show ?case by (simp add: to_base_eq_Nil)
next
  case (Suc k)
  then have "n div b < b ^ k" by (simp add: less_mult_imp_div_less mult.commute)
  then show ?case using Suc by (subst to_base.simps) simp
qed

lemma length_to_base_gt: "2 \<le> b \<Longrightarrow> b ^ k \<le> n \<Longrightarrow> k < length (to_base b n)"
proof (induction k arbitrary: n)
  case 0
  then show ?case by (simp add: to_base_eq_Nil)
next
  case (Suc k)
  then have "b ^ k \<le> n div b" by (simp add: less_eq_div_iff_mult_less_eq mult.commute)
  moreover have "n \<noteq> 0" using Suc.prems power_not_zero [of b "Suc k"] by (intro notI) simp
  ultimately show ?case using Suc by (subst to_base.simps) simp
qed

lemma of_base_lt: "\<forall>d \<in> set ds. d < b \<Longrightarrow> of_base b ds < b ^ length ds"
proof (induction ds)
  case (Cons d ds)
  then have "d + b * of_base b ds < b * Suc (of_base b ds)" by simp
  also have "\<dots> \<le> b * b ^ length ds" using Cons by (intro mult_le_mono2) simp
  finally show ?case by simp
qed simp

lemma of_base_ge: "of_base b (ds @ [d]) \<ge> b ^ length ds * d"
  by (induction ds) (auto simp: mult.assoc intro: le_trans [OF _ le_add2])

lemma length_change_base:
  assumes "2 \<le> a" "2 \<le> b" "\<forall>d \<in> set ds. d < a" "x < a" "x \<noteq> 0"
    and "b ^ k \<le> a ^ length ds" "a ^ Suc (length ds) \<le> b ^ m"
  shows "z + k < length (change_base a b (replicate z 0 @ x # ds))"
    and "length (change_base a b (replicate z 0 @ x # ds)) \<le> z + m"
proof -
  let ?n = "of_base a (rev ds @ [x])"
  have "a ^ length ds \<le> a ^ length ds * x" using assms(5) by simp
  then have "b ^ k \<le> ?n" using assms(6) of_base_ge [of a "rev ds" x] unfolding length_rev by linarith
  then have lo: "k < length (to_base b ?n)" using assms(2) length_to_base_gt by simp
  have "?n < b ^ m" using of_base_lt [of "rev ds @ [x]" a] assms by simp
  then have hi: "length (to_base b ?n) \<le> m" using assms(2) length_to_base_le by simp
  have "takeWhile (\<lambda>d. d = 0) (replicate z 0 @ x # ds) = replicate z 0"
    "dropWhile (\<lambda>d. d = 0) (replicate z 0 @ x # ds) = x # ds"
    using assms(5) by (induction z) simp_all
  then show "z + k < length (change_base a b (replicate z 0 @ x # ds))"
    and "length (change_base a b (replicate z 0 @ x # ds)) \<le> z + m"
    using lo hi by (simp_all add: change_base_def)
qed

section \<open>Base58\<close>

definition alphabet_index :: "char \<Rightarrow> nat" where
  "alphabet_index c = length (takeWhile (\<lambda>d. d \<noteq> c) base58_alphabet)"

definition b58_encode :: "bytes \<Rightarrow> string" where
  "b58_encode bs = map (\<lambda>d. base58_alphabet ! d) (change_base 256 58 (map unat bs))"

definition b58_decode :: "string \<Rightarrow> bytes option" where
  "b58_decode s =
     (if s = [] \<or> \<not> list_all (\<lambda>c. c \<in> set base58_alphabet) s then None
      else Some (map word_of_nat (change_base 58 256 (map alphabet_index s))))"

definition bitcoin_base58 :: base58_lib where
  "bitcoin_base58 = \<lparr>Encode = b58_encode, Decode = b58_decode\<rparr>"

lemma alphabet_index_nth: "d < 58 \<Longrightarrow> alphabet_index (base58_alphabet ! d) = d"
proof -
  have "list_all (\<lambda>d. alphabet_index (base58_alphabet ! d) = d) [0..<58]" by code_simp
  then show "d < 58 \<Longrightarrow> ?thesis" by (simp add: list_all_iff)
qed

lemma length_alphabet: "length base58_alphabet = 58"
  by (simp add: base58_alphabet_def)

lemma b58_roundtrip: "bs \<noteq> [] \<Longrightarrow> b58_decode (b58_encode bs) = Some bs"
proof -
  assume "bs \<noteq> []"
  let ?ds = "change_base 256 58 (map unat bs)"
  have lt: "\<forall>d \<in> set ?ds. d < 58" using change_base_digits [of 58] by simp
  have "change_base 58 256 ?ds = map unat bs"
    by (rule change_base_back) auto
  then have back_digits: "change_base 58 256 ?ds = map unat bs" .
  then have again: "map word_of_nat (change_base 58 256 ?ds) = bs" by (simp add: map_idI)
  have "map (alphabet_index \<circ> (\<lambda>d. base58_alphabet ! d)) ?ds = ?ds"
    using lt by (simp add: map_idI alphabet_index_nth)
  moreover have "list_all (\<lambda>c. c \<in> set base58_alphabet) (b58_encode bs)"
    using lt by (auto simp: b58_encode_def list_all_iff length_alphabet)
  moreover have "?ds \<noteq> []"
    using back_digits \<open>bs \<noteq> []\<close>
    by (auto simp: change_base_def to_base.simps)
  ultimately show ?thesis using again by (simp add: b58_decode_def b58_encode_def)
qed

lemma b58_digit: "unat (b::u8) < 58 \<Longrightarrow> length (b58_encode [b]) = 1"
  by (cases "unat b = 0")
    (auto simp: b58_encode_def change_base_def to_base.simps [of 58 "unat b"] to_base.simps [of 58 0])

lemma length_b58_encode:
  assumes "x \<noteq> 0" "58 ^ k \<le> (256::nat) ^ length bs" "(256::nat) ^ Suc (length bs) \<le> 58 ^ m"
  shows "z + k < length (b58_encode (replicate z 0 @ x # bs))"
    and "length (b58_encode (replicate z 0 @ x # bs)) \<le> z + m"
proof -
  have "unat x \<noteq> 0" using assms(1) by (simp add: unat_eq_0)
  then show "z + k < length (b58_encode (replicate z 0 @ x # bs))"
    and "length (b58_encode (replicate z 0 @ x # bs)) \<le> z + m"
    using length_change_base [of 256 58 "map unat bs" "unat x" k m z] assms(2,3)
    by (simp_all add: b58_encode_def unat_u8_lt)
qed

lemma leading_zeros:
  "n \<le> length xs \<Longrightarrow> take n xs \<noteq> replicate n 0 \<Longrightarrow>
     \<exists>z x rest. z < n \<and> x \<noteq> 0 \<and> xs = replicate z 0 @ x # rest"
proof (induction n arbitrary: xs)
  case (Suc n)
  then obtain y ys where xs: "xs = y # ys" by (cases xs) auto
  show ?case
  proof (cases "y = 0")
    case True
    with Suc xs obtain z x rest where "z < n" "x \<noteq> 0" "ys = replicate z 0 @ x # rest" by fastforce
    with True xs have "Suc z < Suc n \<and> x \<noteq> 0 \<and> xs = replicate (Suc z) 0 @ x # rest" by simp
    then show ?thesis by blast
  next
    case False
    with xs have "0 < Suc n \<and> y \<noteq> 0 \<and> xs = replicate 0 0 @ y # ys" by simp
    then show ?thesis by blast
  qed
qed simp

interpretation bitcoin: base58 bitcoin_base58
proof unfold_locales
  fix bs :: bytes and s :: string and b :: u8
  show "bs \<noteq> [] \<Longrightarrow> Decode bitcoin_base58 (Encode bitcoin_base58 bs) = Some bs"
    by (simp add: bitcoin_base58_def b58_roundtrip)
  show "unat b < 58 \<Longrightarrow> length (Encode bitcoin_base58 [b]) = 1"
    by (simp add: bitcoin_base58_def b58_digit)
  show "set (Encode bitcoin_base58 bs) \<subseteq> set base58_alphabet"
    using change_base_digits [of 58 _ 256 "map unat bs"]
    by (auto simp: bitcoin_base58_def b58_encode_def length_alphabet)
  show "\<not> set s \<subseteq> set base58_alphabet \<Longrightarrow> Decode bitcoin_base58 s = None"
    by (auto simp: bitcoin_base58_def b58_decode_def list_all_iff)
qed

end
