(* ===== verification/Emoji_Table.thy ===== *)
theory Emoji_Table
  imports Go_Strings Dammsum
begin

text \<open>
  The emoji dictionary of \<^verbatim>\<open>src/address/emoji.go\<close>: the table \<open>Emoji\<close> as the code points of its
  256 rune literals, and \<open>ReverseEmoji\<close> as the loop that builds the inverse map.
\<close>

section \<open>The table\<close>

definition Emoji :: "nat list" where
  "Emoji = [
    128034, 128223, 127752, 127754, 127919, 128011, 127769, 129300, 127765, 11088, 127883, 127792,
    127796, 127797, 127794, 127800, 127801, 127803, 127805, 127808, 127809, 127812, 129361, 127814,
    127815, 127816, 127817, 127818, 127819, 127820, 127821, 127822, 127824, 127825, 127826, 127827,
    127828, 127829, 127831, 127834, 127838, 127839, 129373, 127843, 127846, 127849, 127850, 127851,
    127852, 127853, 127855, 129360, 127859, 129348, 127861, 127862, 127863, 127864, 127870, 127866,
    127868, 127872, 127873, 127874, 127875, 129302, 127880, 127881, 127890, 127891, 127904, 127905,
    127906, 127907, 127908, 127909, 127911, 127912, 127913, 127914, 127916, 127917, 127918, 127920,
    127921, 127922, 127923, 127925, 127927, 127928, 127929, 127930, 127931, 127932, 127933, 127934,
    127935, 127936, 127937, 127942, 127944, 9917, 127968, 127973, 127974, 127981, 127984, 128000,
    128009, 128010, 128012, 128013, 129409, 128016, 128017, 128020, 128584, 128023, 128024, 128025,
    128026, 128027, 128028, 128029, 128030, 129419, 128035, 128040, 129408, 128042, 128044, 128045,
    128046, 128047, 128048, 129414, 129410, 128052, 128053, 128054, 128055, 128056, 128058, 128059,
    128060, 128061, 128062, 128064, 128069, 128081, 128082, 129506, 128133, 128085, 128086, 128087,
    128088, 128089, 128131, 128091, 128094, 128095, 128096, 129354, 128098, 128099, 129313, 128123,
    128125, 128126, 129312, 128067, 128132, 128136, 128137, 128138, 128139, 128066, 128141, 128142,
    128144, 128148, 128274, 129513, 128161, 128163, 128164, 128166, 128168, 128169, 10133, 128175,
    128176, 128179, 128181, 128186, 128187, 128188, 128200, 128220, 128204, 128206, 128214, 128255,
    128225, 9200, 128241, 128247, 128267, 128268, 128688, 128273, 128276, 128293, 128294, 128295,
    128296, 128297, 128298, 128299, 128300, 128301, 128302, 128305, 128509, 128514, 128519, 128520,
    129297, 128525, 128526, 128561, 128567, 129314, 128077, 128118, 128640, 128641, 128642, 128666,
    128657, 128658, 128659, 128757, 128663, 128668, 128674, 128678, 128679, 128680, 128682, 128683,
    128690, 128701, 128703, 129522]"

text \<open>\<^verbatim>\<open>for i, r := range Emoji { m[r] = byte(i) }\<close>\<close>

fun reverse_emoji_loop :: "(nat \<rightharpoonup> u8) \<Rightarrow> nat \<Rightarrow> nat list \<Rightarrow> (nat \<rightharpoonup> u8)" where
  "reverse_emoji_loop m i [] = m"
| "reverse_emoji_loop m i (r # rs) = reverse_emoji_loop (m(r \<mapsto> word_of_nat i)) (Suc i) rs"

definition ReverseEmoji :: "nat \<rightharpoonup> u8" where
  "ReverseEmoji = reverse_emoji_loop Map.empty 0 Emoji"

lemma length_Emoji [simp]: "length Emoji = 256"
  by (simp add: Emoji_def)

lemma distinct_Emoji: "distinct Emoji"
  unfolding Emoji_def by simp

lemma Emoji_runes: "list_all (\<lambda>r. 128 \<le> r \<and> valid_rune r \<and> \<not> is_space r) Emoji"
  unfolding Emoji_def by (simp add: valid_rune_def is_space_def)

section \<open>Bytes and emoji\<close>

text \<open>The loop of \<open>EmojiString\<close>: \<^verbatim>\<open>out[i] = Emoji[b]\<close>.\<close>

definition emoji_of_bytes :: "bytes \<Rightarrow> nat list" where
  "emoji_of_bytes bs = map (\<lambda>b. Emoji ! unat b) bs"

text \<open>The loop shared by \<open>singleEmojiToBytes\<close> and \<open>dualEmojiToBytes\<close>.\<close>

fun emoji_loop :: "nat list \<Rightarrow> bytes \<Rightarrow> address_error + bytes" where
  "emoji_loop [] bs = Inr bs"
| "emoji_loop (c # cs) bs =
     (case ReverseEmoji c of
        None \<Rightarrow> Inl ErrInvalidEmoji
      | Some b \<Rightarrow> emoji_loop cs (bs @ [b]))"

lemma reverse_emoji_loop_notin:
  "r \<notin> set rs \<Longrightarrow> reverse_emoji_loop m i rs r = m r"
  by (induction m i rs rule: reverse_emoji_loop.induct) auto

lemma reverse_emoji_loop_nth:
  "distinct rs \<Longrightarrow> j < length rs \<Longrightarrow> reverse_emoji_loop m i rs (rs ! j) = Some (word_of_nat (i + j))"
proof (induction rs arbitrary: m i j)
  case (Cons r rs)
  show ?case
  proof (cases j)
    case 0
    with Cons.prems show ?thesis by (simp add: reverse_emoji_loop_notin)
  next
    case (Suc k)
    with Cons show ?thesis by simp
  qed
qed simp

lemma ReverseEmoji_iff: "ReverseEmoji r = Some b \<longleftrightarrow> r = Emoji ! unat b"
proof
  assume s: "ReverseEmoji r = Some b"
  have "r \<in> set Emoji"
    using s reverse_emoji_loop_notin [of r Emoji Map.empty 0] by (auto simp: ReverseEmoji_def)
  then obtain j where "j < length Emoji" "r = Emoji ! j" by (metis in_set_conv_nth)
  moreover from this have "Some (word_of_nat j) = Some b"
    using s reverse_emoji_loop_nth [OF distinct_Emoji, of j Map.empty 0] by (simp add: ReverseEmoji_def)
  ultimately show "r = Emoji ! unat b" by (auto simp: unat_of_nat_u8)
next
  assume "r = Emoji ! unat b"
  then show "ReverseEmoji r = Some b"
    using reverse_emoji_loop_nth [OF distinct_Emoji, of "unat b" Map.empty 0]
    by (simp add: ReverseEmoji_def)
qed

lemma Emoji_inject: "Emoji ! unat b = Emoji ! unat c \<longleftrightarrow> b = (c::u8)"
  by (simp add: nth_eq_iff_index_eq [OF distinct_Emoji] word_unat_eq_iff)

lemma Emoji_nth_props:
  "128 \<le> Emoji ! unat (b::u8)" "valid_rune (Emoji ! unat b)" "\<not> is_space (Emoji ! unat b)"
  using Emoji_runes nth_mem [of "unat b" Emoji] by (auto simp: list_all_iff)

lemma ReverseEmoji_ascii: "r < 128 \<Longrightarrow> ReverseEmoji r = None"
proof (rule ccontr)
  assume "r < 128" "ReverseEmoji r \<noteq> None"
  then obtain b where "ReverseEmoji r = Some b" by auto
  then have "r = Emoji ! unat b" by (simp add: ReverseEmoji_iff)
  with \<open>r < 128\<close> show False using Emoji_nth_props(1) [of b] by simp
qed

lemma emoji_loop_Inr_iff: "emoji_loop cs acc = Inr bs \<longleftrightarrow> (\<exists>ds. bs = acc @ ds \<and> cs = emoji_of_bytes ds)"
proof (induction cs acc rule: emoji_loop.induct)
  case (1 acc)
  then show ?case by (auto simp: emoji_of_bytes_def)
next
  case (2 c cs acc)
  show ?case
  proof (cases "ReverseEmoji c")
    case None
    then have "c \<noteq> Emoji ! unat b" for b :: u8 by (simp flip: ReverseEmoji_iff)
    with None show ?thesis by (auto simp: emoji_of_bytes_def Cons_eq_map_conv)
  next
    case (Some b)
    then have c: "c = Emoji ! unat b" by (simp add: ReverseEmoji_iff)
    have "emoji_loop (c # cs) acc = Inr bs \<longleftrightarrow> (\<exists>ds. bs = acc @ b # ds \<and> cs = emoji_of_bytes ds)"
      using 2 Some by simp
    also have "\<dots> \<longleftrightarrow> (\<exists>ds. bs = acc @ ds \<and> c # cs = emoji_of_bytes ds)"
      by (auto simp: emoji_of_bytes_def Cons_eq_map_conv c Emoji_inject)
    finally show ?thesis .
  qed
qed

lemma emoji_loop_error: "emoji_loop cs acc = Inl e \<Longrightarrow> e = ErrInvalidEmoji"
  by (induction cs acc rule: emoji_loop.induct) (auto split: option.splits)

text \<open>The emoji alphabet is a canonical codec for byte strings: every byte string has one spelling
  and every spelling that is accepted is the one of the bytes it stands for.\<close>

interpretation emoji: canonical_codec emoji_of_bytes "\<lambda>cs. emoji_loop cs []" "\<lambda>_. True"
  by unfold_locales (auto simp: emoji_loop_Inr_iff)

lemma length_emoji_of_bytes [simp, wire_len]: "length (emoji_of_bytes bs) = length bs"
  by (simp add: emoji_of_bytes_def)

lemma emoji_of_bytes_runes:
  "list_all valid_rune (emoji_of_bytes bs)"
  "\<forall>r \<in> set (emoji_of_bytes bs). \<not> is_space r"
  "\<forall>r \<in> set (emoji_of_bytes bs). 128 \<le> r"
  using Emoji_nth_props by (auto simp: emoji_of_bytes_def list_all_iff)

end
