(* ===== verification/Address_Format.thy ===== *)
theory Address_Format
  imports Base58_Bitcoin Emoji_Table
begin

text \<open>
  What the single address, the dual address and their union share: a canonical byte format whose
  first byte is a network and whose second byte is a feature set, and three text forms derived
  from it. The interface is the locale \<open>address_format\<close>; the facts about the text forms are proved
  once here, over the bodies the three copies of the code have in common.
\<close>

section \<open>The common bodies\<close>

text \<open>What follows the length check of a \<open>FromBase58\<close>.\<close>

definition base58_body :: "base58_lib \<Rightarrow> (bytes \<Rightarrow> address_error + 'a) \<Rightarrow> string \<Rightarrow> address_error + 'a" where
  "base58_body B from_bytes s =
     (case splitNetworkFeaturesRest s of
        Inl err \<Rightarrow> Inl err
      | Inr (networkStr, featuresStr, rest) \<Rightarrow>
          (case decodeBytes B networkStr of
             None \<Rightarrow> Inl ErrCannotRecoverNetwork
           | Some networkBytes \<Rightarrow>
               (case decodeBytes B featuresStr of
                  None \<Rightarrow> Inl ErrCannotRecoverFeature
                | Some featuresBytes \<Rightarrow>
                    (case decodeBytes B rest of
                       None \<Rightarrow> Inl ErrCannotRecoverPublicKey
                     | Some restBytes \<Rightarrow> from_bytes (networkBytes @ featuresBytes @ restBytes)))))"

definition base58_text :: "base58_lib \<Rightarrow> bytes \<Rightarrow> string" where
  "base58_text B bs = encodeSingleByte B (bs ! 0) @ encodeSingleByte B (bs ! 1) @ Encode B (drop 2 bs)"

definition hex_body :: "(bytes \<Rightarrow> address_error + 'a) \<Rightarrow> string \<Rightarrow> address_error + 'a" where
  "hex_body from_bytes s =
     (case hex_decode s of
        None \<Rightarrow> Inl ErrCannotRecoverPublicKey
      | Some buf \<Rightarrow> from_bytes buf)"

definition emoji_text :: "bytes \<Rightarrow> string" where
  "emoji_text bs = string_of_runes (emoji_of_bytes bs)"

lemma runes_emoji_text: "runes_of_string (emoji_text bs) = emoji_of_bytes bs"
  by (simp add: emoji_text_def runes_of_string_of_runes emoji_of_bytes_runes)

lemma Emoji_nth_mem: "Emoji ! unat (b::u8) \<in> set Emoji"
  using unat_u8_lt [of b] by (intro nth_mem) (simp add: length_Emoji)

lemma emoji_text_inv:
  assumes "runes_of_string s = emoji_of_bytes bs"
  shows "s = emoji_text bs"
proof -
  have "list_all (\<lambda>r. r \<noteq> RuneError) Emoji" unfolding Emoji_def by (simp add: RuneError_def)
  then have "\<forall>r \<in> set Emoji. r \<noteq> RuneError" by (simp only: list_all_iff)
  then have "RuneError \<noteq> Emoji ! unat b" for b :: u8
    by (rule bspec [OF _ Emoji_nth_mem, THEN not_sym])
  then have "RuneError \<notin> (\<lambda>b. Emoji ! unat b) ` set bs" by blast
  then have "RuneError \<notin> set (emoji_of_bytes bs)" by (simp add: emoji_of_bytes_def)
  then show ?thesis
    using string_of_runes_of_string [of s] assms by (simp add: emoji_text_def)
qed

section \<open>The interface\<close>

locale address_format = canonical_codec Bytes FromBytes wf
  for Bytes :: "'a \<Rightarrow> bytes" and FromBytes :: "bytes \<Rightarrow> address_error + 'a" and wf :: "'a \<Rightarrow> bool" +
  assumes size: "wf a \<Longrightarrow> 3 \<le> length (Bytes a)"
    and network_byte: "wf a \<Longrightarrow> Bytes a ! 0 \<in> set known_networks"
    and features_byte: "wf a \<Longrightarrow> valid_features (Bytes a ! 1)"
begin

lemma bytes_split:
  assumes "wf a"
  shows "[Bytes a ! 0] @ [Bytes a ! 1] @ drop 2 (Bytes a) = Bytes a"
  using size [OF assms] by (cases "Bytes a"; cases "tl (Bytes a)") auto

lemma base58_roundtrip:
  assumes "base58 B" "wf a"
  shows "base58_body B FromBytes (base58_text B (Bytes a)) = Inr a"
proof -
  have nf: "unat (Bytes a ! 0) < 58" "unat (Bytes a ! 1) < 58" "drop 2 (Bytes a) \<noteq> []"
    using known_network_lt_58 [OF network_byte [OF assms(2)]] size [OF assms(2)]
      features_byte [OF assms(2)] by (auto simp: valid_features_lt_8)
  then show ?thesis
    using base58.split_decode [OF assms(1) nf] bytes_split [OF assms(2)] dec_enc [OF assms(2)]
    by (simp add: base58_body_def base58_text_def)
qed

lemma hex_roundtrip: "wf a \<Longrightarrow> hex_body FromBytes (hex_encode (Bytes a)) = Inr a"
  by (simp add: hex_body_def dec_enc)

text \<open>The feature byte is below 8, so the third character of the hexadecimal form is the digit
  zero, which base58 does not have: a hexadecimal form is never a base58 form.\<close>

lemma hex_not_base58:
  assumes "base58 B" "wf a"
  shows "\<exists>e. base58_body B F (hex_encode (Bytes a)) = Inl e"
proof -
  obtain n f rest where bs: "Bytes a = n # f # rest"
    using size [OF assms(2)] by (cases "Bytes a"; cases "tl (Bytes a)") auto
  have "unat f < 8" using features_byte [OF assms(2)] by (simp add: bs valid_features_lt_8)
  then have "hex_digit (unat f div 16) = CHR ''0''" by (simp add: hex_digit_def hextable_def)
  then have "splitNetworkFeaturesRest (hex_encode (Bytes a)) =
      Inr ([hex_digit (unat n div 16)], [hex_digit (unat n mod 16)],
           CHR ''0'' # hex_digit (unat f mod 16) # hex_encode rest)"
    by (simp add: bs splitNetworkFeaturesRest_def)
  moreover have "decodeBytes B (CHR ''0'' # cs) = None" for cs
    using base58.decode_zero_digit [OF assms(1)] by (simp add: decodeBytes_def)
  ultimately show ?thesis by (auto simp: base58_body_def split: option.split)
qed

lemma emoji_roundtrip:
  "wf a \<Longrightarrow> emoji_loop (runes_of_string (emoji_text (Bytes a))) [] = Inr (Bytes a)"
  by (simp add: runes_emoji_text emoji.dec_enc)

text \<open>An accepted emoji string is the emoji string of the address it denotes.\<close>

lemma emoji_canonical:
  assumes "emoji_loop (runes_of_string s) [] = Inr bs" "FromBytes bs = Inr a"
  shows "wf a \<and> s = emoji_text (Bytes a)"
proof -
  have "runes_of_string s = emoji_of_bytes bs" using emoji.enc_dec [OF assms(1)] by simp
  then show ?thesis using enc_dec [OF assms(2)] by (auto dest: emoji_text_inv)
qed

end

lemma hex_digit_ascii: "n < 16 \<Longrightarrow> (of_char (hex_digit n) :: nat) < 128"
proof -
  have "list_all (\<lambda>n. (of_char (hex_digit n) :: nat) < 128) [0..<16]" by code_simp
  then show "n < 16 \<Longrightarrow> ?thesis" by (simp add: list_all_iff)
qed

lemma hex_encode_ascii: "c \<in> set (hex_encode bs) \<Longrightarrow> (of_char c :: nat) < 128"
proof (induction bs)
  case (Cons b bs)
  have "unat b div 16 < 16" using unat_u8_lt [of b] by linarith
  with Cons show ?case using hex_digit_ascii by auto
qed simp

lemma base58_text_ascii: "base58 B \<Longrightarrow> c \<in> set (base58_text B bs) \<Longrightarrow> (of_char c :: nat) < 128"
  by (auto simp: base58_text_def encodeSingleByte_def dest: base58.encode_ascii)

text \<open>No ASCII string is an emoji string.\<close>

lemma emoji_loop_ascii:
  assumes "\<forall>c \<in> set s. (of_char c :: nat) < 128" "s \<noteq> []"
  shows "emoji_loop (runes_of_string s) acc = Inl ErrInvalidEmoji"
  using assms by (cases s) (simp_all add: runes_of_ascii ReverseEmoji_ascii)

text \<open>The first two bytes of an address take one base58 character each.\<close>

lemma length_base58_text:
  assumes "bs ! 0 \<in> set known_networks" "valid_features (bs ! 1)"
  shows "length (base58_text bitcoin_base58 bs) = 2 + length (b58_encode (drop 2 bs))"
proof -
  have "unat (bs ! 0) < 58" "unat (bs ! 1) < 58"
    using assms known_network_lt_58 by (auto simp: valid_features_lt_8)
  then have "length (encodeSingleByte bitcoin_base58 (bs ! 0)) = 1"
    "length (encodeSingleByte bitcoin_base58 (bs ! 1)) = 1"
    by (simp_all add: encodeSingleByte_def bitcoin.encode_digit)
  then show ?thesis by (simp add: base58_text_def bitcoin_base58_def)
qed

end
