(* ===== verification/Single_Address.thy ===== *)
theory Single_Address
  imports Address_Format
begin

text \<open>
  \<^verbatim>\<open>src/address/single_address.go\<close>: the 35-byte single address (network, features, spend key,
  checksum) and its four encodings. \<open>canonical\<close> is the Ristretto255 decoding check and \<open>B\<close> the
  base58 library.
\<close>

section \<open>Data and constructors\<close>

definition SingleAddressInternalSize :: nat where "SingleAddressInternalSize = 35"
definition singleBase58MinSize :: nat where "singleBase58MinSize = 45"
definition singleBase58MaxSize :: nat where "singleBase58MaxSize = 48"

record SingleAddress =
  s_network :: Network
  s_features :: Features
  s_publicSpendKey :: CompressedPublicKey

definition NewSingleAddress :: "CompressedPublicKey \<Rightarrow> Network \<Rightarrow> Features \<Rightarrow> SingleAddress" where
  "NewSingleAddress spendKey network features =
     \<lparr>s_network = network, s_features = features, s_publicSpendKey = spendKey\<rparr>"

definition NewSingleAddressInteractiveOnly :: "CompressedPublicKey \<Rightarrow> Network \<Rightarrow> SingleAddress" where
  "NewSingleAddressInteractiveOnly spendKey network =
     NewSingleAddress spendKey network FeaturesInteractiveOnly"

definition SingleAddress_Network :: "SingleAddress \<Rightarrow> Network" where
  [simp]: "SingleAddress_Network a = s_network a"

definition SingleAddress_Features :: "SingleAddress \<Rightarrow> Features" where
  [simp]: "SingleAddress_Features a = s_features a"

definition SingleAddress_PublicSpendKey :: "SingleAddress \<Rightarrow> CompressedPublicKey" where
  [simp]: "SingleAddress_PublicSpendKey a = s_publicSpendKey a"

section \<open>Bytes\<close>

definition SingleAddress_Bytes :: "SingleAddress \<Rightarrow> bytes" where
  "SingleAddress_Bytes a =
     (let body = [Network_AsByte (s_network a), Features_AsU8 (s_features a)]
                 @ PublicKey_Bytes (s_publicSpendKey a)
      in body @ [ComputeChecksum body])"

definition SingleAddressFromBytes :: "(bytes \<Rightarrow> bool) \<Rightarrow> bytes \<Rightarrow> address_error + SingleAddress" where
  "SingleAddressFromBytes canonical b =
     (if length b \<noteq> SingleAddressInternalSize then Inl ErrInvalidSize
      else case ValidateChecksum b of
        Inl _ \<Rightarrow> Inl ErrInvalidChecksum
      | Inr _ \<Rightarrow>
          (case NetworkFromByte (b ! 0) of
             Inl _ \<Rightarrow> Inl ErrInvalidNetwork
           | Inr network \<Rightarrow>
               (case featuresFromBits (b ! 1) of
                  None \<Rightarrow> Inl ErrInvalidFeatures
                | Some features \<Rightarrow>
                    (case PublicKeyFromCanonicalBytes canonical (take 32 (drop 2 b)) of
                       Inl _ \<Rightarrow> Inl ErrCannotRecoverPublicKey
                     | Inr spendKey \<Rightarrow>
                         Inr \<lparr>s_network = network, s_features = features,
                              s_publicSpendKey = spendKey\<rparr>))))"

section \<open>Emoji, base58 and hexadecimal\<close>

definition singleEmojiToBytes :: "nat list \<Rightarrow> address_error + bytes" where
  "singleEmojiToBytes emoji =
     (if length emoji \<noteq> SingleAddressInternalSize then Inl ErrInvalidSize
      else emoji_loop emoji [])"

definition SingleAddressFromEmojiString ::
    "(bytes \<Rightarrow> bool) \<Rightarrow> string \<Rightarrow> address_error + SingleAddress" where
  "SingleAddressFromEmojiString canonical emoji =
     (case singleEmojiToBytes (runes_of_string emoji) of
        Inl err \<Rightarrow> Inl err
      | Inr bs \<Rightarrow> SingleAddressFromBytes canonical bs)"

definition SingleAddress_EmojiString :: "SingleAddress \<Rightarrow> string" where
  "SingleAddress_EmojiString a = string_of_runes (emoji_of_bytes (SingleAddress_Bytes a))"

definition SingleAddressFromBase58 ::
    "base58_lib \<Rightarrow> (bytes \<Rightarrow> bool) \<Rightarrow> string \<Rightarrow> address_error + SingleAddress" where
  "SingleAddressFromBase58 B canonical s =
     (if length s < singleBase58MinSize \<or> length s > singleBase58MaxSize then Inl ErrInvalidSize
      else case splitNetworkFeaturesRest s of
        Inl err \<Rightarrow> Inl err
      | Inr (networkStr, featuresStr, rest) \<Rightarrow>
          (case decodeBytes B networkStr of
             None \<Rightarrow> Inl ErrCannotRecoverNetwork
           | Some networkBytes \<Rightarrow>
               (case decodeBytes B featuresStr of
                  None \<Rightarrow> Inl ErrCannotRecoverFeature
                | Some featuresBytes \<Rightarrow>
                    (case decodeBytes B rest of
                       None \<Rightarrow> Inl ErrCannotRecoverPublicKey
                     | Some restBytes \<Rightarrow>
                         SingleAddressFromBytes canonical
                           (networkBytes @ featuresBytes @ restBytes)))))"

definition SingleAddress_Base58 :: "base58_lib \<Rightarrow> SingleAddress \<Rightarrow> string" where
  "SingleAddress_Base58 B a =
     (let bs = SingleAddress_Bytes a
      in encodeSingleByte B (bs ! 0) @ encodeSingleByte B (bs ! 1) @ Encode B (drop 2 bs))"

definition SingleAddress_Hex :: "SingleAddress \<Rightarrow> string" where
  "SingleAddress_Hex a = hex_encode (SingleAddress_Bytes a)"

definition SingleAddressFromHex :: "(bytes \<Rightarrow> bool) \<Rightarrow> string \<Rightarrow> address_error + SingleAddress" where
  "SingleAddressFromHex canonical s =
     (case hex_decode s of
        None \<Rightarrow> Inl ErrCannotRecoverPublicKey
      | Some buf \<Rightarrow> SingleAddressFromBytes canonical buf)"

section \<open>Well-formed single addresses and the byte codec\<close>

definition wf_single :: "(bytes \<Rightarrow> bool) \<Rightarrow> SingleAddress \<Rightarrow> bool" where
  "wf_single canonical a \<longleftrightarrow> s_network a \<in> set known_networks \<and> valid_features (s_features a) \<and>
     valid_key canonical (s_publicSpendKey a)"

lemma length_SingleAddress_Bytes [wire_len]:
  "length (SingleAddress_Bytes a) = 3 + length (s_publicSpendKey a)"
  by (simp add: SingleAddress_Bytes_def PublicKey_Bytes_def)

lemma SingleAddressFromBytes_Bytes:
  assumes "wf_single canonical a"
  shows "SingleAddressFromBytes canonical (SingleAddress_Bytes a) = Inr a"
proof -
  let ?body = "[s_network a, s_features a] @ s_publicSpendKey a"
  have len: "length (s_publicSpendKey a) = 32" using assms by (simp add: wf_single_def valid_key_def)
  have "ValidateChecksum (?body @ [ComputeChecksum ?body]) = Inr ?body"
    by (simp add: ValidateChecksum_Inr_iff)
  then show ?thesis
    using assms len
    by (simp add: SingleAddressFromBytes_def SingleAddress_Bytes_def SingleAddressInternalSize_def
        Network_AsByte_def Features_AsU8_def PublicKey_Bytes_def wf_single_def
        NetworkFromByte_Inr_iff [THEN iffD2] featuresFromBits_Some_iff [THEN iffD2]
        PublicKeyFromCanonicalBytes_Inr_iff [THEN iffD2])
qed

text \<open>Every failure of the byte decoder is classified by its first failing check.\<close>

lemma SingleAddressFromBytes_cases:
  assumes "length b = 35"
  shows "SingleAddressFromBytes canonical b =
    (if ComputeChecksum b \<noteq> 0 then Inl ErrInvalidChecksum
     else if b ! 0 \<notin> set known_networks then Inl ErrInvalidNetwork
     else if \<not> valid_features (b ! 1) then Inl ErrInvalidFeatures
     else if \<not> canonical (take 32 (drop 2 b)) then Inl ErrCannotRecoverPublicKey
     else Inr \<lparr>s_network = b ! 0, s_features = b ! 1, s_publicSpendKey = take 32 (drop 2 b)\<rparr>)"
  using assms
  by (auto simp: SingleAddressFromBytes_def SingleAddressInternalSize_def ValidateChecksum_def
      valid_key_def NetworkFromByte_Inr_iff NetworkFromByte_Inl_iff featuresFromBits_Some_iff
      featuresFromBits_None_iff PublicKeyFromCanonicalBytes_Inr_iff
      PublicKeyFromCanonicalBytes_Inl_iff split: sum.split option.split)

lemma take_two_nth: "2 \<le> length xs \<Longrightarrow> take 2 xs = [xs ! 0, xs ! 1]"
  by (cases xs; cases "tl xs") auto

lemma list_split_35:
  assumes "length b = 35"
  shows "b = [b ! 0, b ! 1] @ take 32 (drop 2 b) @ [b ! 34]"
proof -
  have "b = take 2 b @ take 32 (drop 2 b) @ drop 34 b"
    using append_take_drop_id [of 2 b] append_take_drop_id [of 32 "drop 2 b"] by simp
  also have "take 2 b = [b ! 0, b ! 1]" using assms by (simp add: take_two_nth)
  also have "drop 34 b = [b ! 34]" using assms Cons_nth_drop_Suc [of 34 b] by simp
  finally show ?thesis .
qed

lemma SingleAddressFromBytes_Inr:
  assumes "SingleAddressFromBytes canonical b = Inr a"
  shows "wf_single canonical a \<and> SingleAddress_Bytes a = b"
proof -
  have len: "length b = 35"
    using assms by (auto simp: SingleAddressFromBytes_def SingleAddressInternalSize_def split: if_splits)
  let ?k = "take 32 (drop 2 b)"
  have a: "a = \<lparr>s_network = b ! 0, s_features = b ! 1, s_publicSpendKey = ?k\<rparr>"
    and wf: "wf_single canonical a" and c: "ComputeChecksum b = 0"
    using assms len
    by (auto simp: SingleAddressFromBytes_cases wf_single_def valid_key_def split: if_splits)
  have "ComputeChecksum (([b ! 0, b ! 1] @ ?k) @ [b ! 34]) = 0"
    using c list_split_35 [OF len] by simp
  then have "b ! 34 = ComputeChecksum ([b ! 0, b ! 1] @ ?k)"
    by (simp only: checksum_snoc)
  then show ?thesis
    using wf list_split_35 [OF len]
    by (simp add: a SingleAddress_Bytes_def Network_AsByte_def Features_AsU8_def PublicKey_Bytes_def)
qed

text \<open>Bytes and single addresses are in bijection, and the single address has the address format.\<close>

interpretation single_format: address_format SingleAddress_Bytes "SingleAddressFromBytes canonical"
    "wf_single canonical" for canonical
proof unfold_locales
  fix a
  assume wf: "wf_single canonical a"
  show "SingleAddressFromBytes canonical (SingleAddress_Bytes a) = Inr a"
    by (rule SingleAddressFromBytes_Bytes [OF wf])
  show "3 \<le> length (SingleAddress_Bytes a)" by (simp add: length_SingleAddress_Bytes)
  show "SingleAddress_Bytes a ! 0 \<in> set known_networks" "valid_features (SingleAddress_Bytes a ! 1)"
    using wf by (simp_all add: wf_single_def SingleAddress_Bytes_def Network_AsByte_def Features_AsU8_def)
qed (rule SingleAddressFromBytes_Inr)

lemma wf_single_length: "wf_single canonical a \<Longrightarrow> length (SingleAddress_Bytes a) = 35"
  by (simp add: length_SingleAddress_Bytes wf_single_def valid_key_def)

lemma SingleAddressFromBase58_body:
  "SingleAddressFromBase58 B canonical s =
     (if length s < 45 \<or> 48 < length s then Inl ErrInvalidSize
      else base58_body B (SingleAddressFromBytes canonical) s)"
  by (simp add: SingleAddressFromBase58_def base58_body_def singleBase58MinSize_def
      singleBase58MaxSize_def)

lemma SingleAddress_Base58_text: "SingleAddress_Base58 B a = base58_text B (SingleAddress_Bytes a)"
  by (simp add: SingleAddress_Base58_def base58_text_def Let_def)

lemma SingleAddress_EmojiString_text: "SingleAddress_EmojiString a = emoji_text (SingleAddress_Bytes a)"
  by (simp add: SingleAddress_EmojiString_def emoji_text_def)

definition sample_single :: SingleAddress where
  "sample_single = NewSingleAddressInteractiveOnly (map word_of_nat [1..<33]) Esmeralda"

lemma wf_sample_single: "wf_single (\<lambda>k. hd k = 1) sample_single"
  by code_simp

lemma sample_single_key: "take 5 (s_publicSpendKey sample_single) \<noteq> replicate 5 0"
  by code_simp

text \<open>The key of a single address with at most four leading zero bytes has a base58 text of 45 to
  48 characters: 33 bytes follow the first two, and 58 to the power 42 - z is at most 256 to the
  power 32 - z for every such number z of leading zeros.\<close>

lemma single_base58_length:
  assumes "wf_single canonical a" "take 5 (s_publicSpendKey a) \<noteq> replicate 5 0"
  shows "45 \<le> length (SingleAddress_Base58 bitcoin_base58 a)"
    and "length (SingleAddress_Base58 bitcoin_base58 a) \<le> 48"
proof -
  let ?key = "s_publicSpendKey a"
  define c where "c = last (SingleAddress_Bytes a)"
  have len: "length ?key = 32" using assms(1) by (simp add: wf_single_def valid_key_def)
  then obtain z x rest where z: "z < 5" "x \<noteq> 0" and k: "?key = replicate z 0 @ x # rest"
    using leading_zeros [of 5 ?key] assms(2) by auto
  have rest: "length (rest @ [c]) = 32 - z" using len k by auto
  have "drop 2 (SingleAddress_Bytes a) = replicate z 0 @ x # rest @ [c]"
    by (simp add: c_def SingleAddress_Bytes_def PublicKey_Bytes_def k)
  moreover have "SingleAddress_Bytes a ! 0 \<in> set known_networks"
    "valid_features (SingleAddress_Bytes a ! 1)"
    using single_format.network_byte single_format.features_byte assms(1) by auto
  ultimately have "length (SingleAddress_Base58 bitcoin_base58 a) =
      2 + length (b58_encode (replicate z 0 @ x # rest @ [c]))"
    by (simp add: SingleAddress_Base58_text length_base58_text)
  moreover have "z \<in> {0, 1, 2, 3, 4}" using z by auto
  then have "42 \<le> z + (42 - z)" "(58::nat) ^ (42 - z) \<le> 256 ^ (32 - z)"
      "(256::nat) ^ Suc (32 - z) \<le> 58 ^ (46 - z)" "z + (46 - z) \<le> 46"
    by auto
  ultimately show "45 \<le> length (SingleAddress_Base58 bitcoin_base58 a)"
    and "length (SingleAddress_Base58 bitcoin_base58 a) \<le> 48"
    using length_b58_encode [of x "42 - z" "rest @ [c]" "46 - z" z] z(2) unfolding rest by linarith+
qed

section \<open>Properties\<close>

text \<open>
  The 35-byte format of a single address is exact in both directions: \<open>SingleAddressFromBytes\<close>
  returns an address if and only if the address is well formed (a known network, valid feature
  bits, a canonical 32-byte key) and the buffer is byte for byte what \<open>Bytes\<close> produces for it.
\<close>

theorem single_bytes_exact:
  "SingleAddressFromBytes canonical b = Inr a \<longleftrightarrow> wf_single canonical a \<and> b = SingleAddress_Bytes a"
  by (rule single_format.dec_iff)

text \<open>
  On a buffer of the right size the decoder reports the first check that fails, in the order
  checksum, network, features, key; any other size is \<open>ErrInvalidSize\<close>.
\<close>

theorem single_decode_errors:
  "SingleAddressFromBytes canonical b =
    (if length b \<noteq> 35 then Inl ErrInvalidSize
     else if ComputeChecksum b \<noteq> 0 then Inl ErrInvalidChecksum
     else if b ! 0 \<notin> {0, 1, 2, 16, 36, 38} then Inl ErrInvalidNetwork
     else if 8 \<le> unat (b ! 1) then Inl ErrInvalidFeatures
     else if \<not> canonical (take 32 (drop 2 b)) then Inl ErrCannotRecoverPublicKey
     else Inr \<lparr>s_network = b ! 0, s_features = b ! 1, s_publicSpendKey = take 32 (drop 2 b)\<rparr>)"
proof (cases "length b = 35")
  case True
  have "set known_networks = {0, 1, 2, 16, 36, 38}"
    by (simp add: known_networks_def network_defs)
  then show ?thesis
    using True SingleAddressFromBytes_cases [OF True]
    by (simp add: valid_features_lt_8 not_less)
qed (simp add: SingleAddressFromBytes_def SingleAddressInternalSize_def)

text \<open>
  A single address survives each of its three text forms: emoji and hexadecimal always, base58
  whenever the text has one of the admitted lengths 45 to 48; at any other length the base58 parser
  answers \<open>ErrInvalidSize\<close>.
\<close>

theorem single_text_roundtrips:
  assumes "base58 B" and "wf_single canonical a"
  shows "SingleAddressFromEmojiString canonical (SingleAddress_EmojiString a) = Inr a \<and>
    SingleAddressFromHex canonical (SingleAddress_Hex a) = Inr a \<and>
    SingleAddressFromBase58 B canonical (SingleAddress_Base58 B a) =
      (if 45 \<le> length (SingleAddress_Base58 B a) \<and> length (SingleAddress_Base58 B a) \<le> 48
       then Inr a else Inl ErrInvalidSize)"
proof (intro conjI)
  note wf = assms(2)
  show "SingleAddressFromEmojiString canonical (SingleAddress_EmojiString a) = Inr a"
    using single_format.dec_enc [OF wf] wf_single_length [OF wf]
    by (simp add: SingleAddressFromEmojiString_def singleEmojiToBytes_def SingleAddress_EmojiString_text
        SingleAddressInternalSize_def runes_emoji_text length_emoji_of_bytes emoji.dec_enc)
  show "SingleAddressFromHex canonical (SingleAddress_Hex a) = Inr a"
    using single_format.hex_roundtrip [OF wf]
    by (simp add: SingleAddressFromHex_def SingleAddress_Hex_def hex_body_def)
  show "SingleAddressFromBase58 B canonical (SingleAddress_Base58 B a) =
      (if 45 \<le> length (SingleAddress_Base58 B a) \<and> length (SingleAddress_Base58 B a) \<le> 48
       then Inr a else Inl ErrInvalidSize)"
    using single_format.base58_roundtrip [OF assms]
    by (simp add: SingleAddressFromBase58_body SingleAddress_Base58_text)
qed

theorem single_text_roundtrips_witness:
  "SingleAddressFromEmojiString (\<lambda>k. hd k = 1) (SingleAddress_EmojiString sample_single) = Inr sample_single \<and>
   SingleAddressFromHex (\<lambda>k. hd k = 1) (SingleAddress_Hex sample_single) = Inr sample_single \<and>
   SingleAddressFromBase58 bitcoin_base58 (\<lambda>k. hd k = 1) (SingleAddress_Base58 bitcoin_base58 sample_single)
     = Inr sample_single"
  using single_text_roundtrips [OF bitcoin.base58_axioms wf_sample_single]
    single_base58_length [OF wf_sample_single sample_single_key]
  by simp

text \<open>
  With the Bitcoin base58 algorithm every single address whose key does not begin with five
  zero bytes survives its base58 form: the text always has one of the admitted lengths.
\<close>

theorem single_base58_complete:
  assumes "wf_single canonical a" and "take 5 (s_publicSpendKey a) \<noteq> replicate 5 0"
  shows "SingleAddressFromBase58 bitcoin_base58 canonical (SingleAddress_Base58 bitcoin_base58 a) = Inr a"
  using single_base58_length [OF assms] single_format.base58_roundtrip [OF bitcoin.base58_axioms assms(1)]
  by (simp add: SingleAddressFromBase58_body SingleAddress_Base58_text)

theorem single_base58_complete_witness:
  "SingleAddressFromBase58 bitcoin_base58 (\<lambda>k. hd k = 1) (SingleAddress_Base58 bitcoin_base58 sample_single)
     = Inr sample_single"
  by (rule single_base58_complete [OF wf_sample_single sample_single_key])

text \<open>
  The base58 text of the single address of the all-zero key is at most 36 characters long, and
  \<open>SingleAddressFromBase58\<close> refuses it as having the wrong size: on this key the base58 form is not a
  round trip.
\<close>

theorem single_base58_zero_key:
  assumes "wf_single canonical a" and "s_publicSpendKey a = zero_key"
  shows "length (SingleAddress_Base58 bitcoin_base58 a) \<le> 36 \<and>
    SingleAddressFromBase58 bitcoin_base58 canonical (SingleAddress_Base58 bitcoin_base58 a)
      = Inl ErrInvalidSize"
proof -
  have "drop 2 (SingleAddress_Bytes a) = replicate 32 0 @ [last (SingleAddress_Bytes a)]"
    by (simp add: SingleAddress_Bytes_def PublicKey_Bytes_def assms(2) zero_key_def)
  moreover have "length (b58_encode (replicate 32 0 @ [c])) \<le> 34" for c
  proof (cases "c = 0")
    case True
    then have "replicate 32 0 @ [c] = replicate 33 0" by (simp add: numeral_eq_Suc)
    then show ?thesis by (simp add: b58_encode_def change_base_def to_base.simps)
  qed (use length_b58_encode(2) [of c 0 "[]" 2 32] in simp)
  ultimately have "length (SingleAddress_Base58 bitcoin_base58 a) \<le> 36"
    using single_format.network_byte [OF assms(1)] single_format.features_byte [OF assms(1)]
    by (simp add: SingleAddress_Base58_text length_base58_text)
  then show ?thesis by (simp add: SingleAddressFromBase58_body)
qed

theorem single_base58_zero_key_witness:
  "SingleAddressFromBase58 bitcoin_base58 (\<lambda>k. True)
     (SingleAddress_Base58 bitcoin_base58 (NewSingleAddressInteractiveOnly zero_key MainNet))
   = Inl ErrInvalidSize"
proof -
  have "wf_single (\<lambda>k. True) (NewSingleAddressInteractiveOnly zero_key MainNet)" by code_simp
  from single_base58_zero_key [OF this] show ?thesis
    by (simp add: NewSingleAddressInteractiveOnly_def NewSingleAddress_def)
qed

end
