(* ===== verification/Dual_Address.thy ===== *)
theory Dual_Address
  imports Single_Address
begin

text \<open>
  \<^verbatim>\<open>src/address/dual_address.go\<close>: the dual address (network, features, view key, spend key, an
  optional memo of at most 256 bytes, checksum), 67 to 323 bytes long, and its encodings.
\<close>

section \<open>Data and constructors\<close>

definition DualAddressInternalSize :: nat where "DualAddressInternalSize = 67"
definition MaxEncryptedDataSize :: nat where "MaxEncryptedDataSize = 256"
definition dualBase58MinSize :: nat where "dualBase58MinSize = 89"
definition dualBase58MaxSize :: nat where "dualBase58MaxSize = 443"

lemmas dual_sizes = DualAddressInternalSize_def MaxEncryptedDataSize_def dualBase58MinSize_def
  dualBase58MaxSize_def

record DualAddress =
  d_network :: Network
  d_features :: Features
  d_publicViewKey :: CompressedPublicKey
  d_publicSpendKey :: CompressedPublicKey
  d_memoFieldPaymentID :: bytes

text \<open>The memo argument is \<open>None\<close> for a nil slice; a non-nil empty slice is \<open>Some []\<close>.\<close>

definition NewDualAddress ::
    "CompressedPublicKey \<Rightarrow> CompressedPublicKey \<Rightarrow> Network \<Rightarrow> Features \<Rightarrow> bytes option
      \<Rightarrow> address_error + DualAddress" where
  "NewDualAddress viewKey spendKey network features memoFieldPaymentID =
     (case memoFieldPaymentID of
        Some memo \<Rightarrow>
          if length memo > MaxEncryptedDataSize then Inl ErrPaymentIDTooLarge
          else Inr \<lparr>d_network = network, d_features = Combine features FeaturePaymentID,
                    d_publicViewKey = viewKey, d_publicSpendKey = spendKey,
                    d_memoFieldPaymentID = memo\<rparr>
      | None \<Rightarrow>
          Inr \<lparr>d_network = network, d_features = features, d_publicViewKey = viewKey,
               d_publicSpendKey = spendKey, d_memoFieldPaymentID = []\<rparr>)"

definition NewDualAddressWithDefaultFeatures ::
    "CompressedPublicKey \<Rightarrow> CompressedPublicKey \<Rightarrow> Network \<Rightarrow> address_error + DualAddress" where
  "NewDualAddressWithDefaultFeatures viewKey spendKey network =
     NewDualAddress viewKey spendKey network DefaultFeatures None"

text \<open>The method mutates its receiver: the result is the receiver afterwards, or the error.\<close>

definition AddMemoFieldPaymentID :: "DualAddress \<Rightarrow> bytes \<Rightarrow> address_error + DualAddress" where
  "AddMemoFieldPaymentID a data =
     (if length data > MaxEncryptedDataSize then Inl ErrPaymentIDTooLarge
      else Inr (a\<lparr>d_features := Combine (d_features a) FeaturePaymentID,
                  d_memoFieldPaymentID := data\<rparr>))"

definition DualAddress_GetMemoFieldPaymentIDBytes :: "DualAddress \<Rightarrow> bytes" where
  "DualAddress_GetMemoFieldPaymentIDBytes a = d_memoFieldPaymentID a"

definition DualAddress_Network :: "DualAddress \<Rightarrow> Network" where
  [simp]: "DualAddress_Network a = d_network a"

definition DualAddress_Features :: "DualAddress \<Rightarrow> Features" where
  [simp]: "DualAddress_Features a = d_features a"

definition DualAddress_PublicViewKey :: "DualAddress \<Rightarrow> CompressedPublicKey" where
  [simp]: "DualAddress_PublicViewKey a = d_publicViewKey a"

definition DualAddress_PublicSpendKey :: "DualAddress \<Rightarrow> CompressedPublicKey" where
  [simp]: "DualAddress_PublicSpendKey a = d_publicSpendKey a"

section \<open>Bytes\<close>

definition DualAddress_Bytes :: "DualAddress \<Rightarrow> bytes" where
  "DualAddress_Bytes a =
     (let body = [Network_AsByte (d_network a), Features_AsU8 (d_features a)]
                 @ PublicKey_Bytes (d_publicViewKey a) @ PublicKey_Bytes (d_publicSpendKey a)
                 @ d_memoFieldPaymentID a
      in body @ [ComputeChecksum body])"

definition DualAddressFromBytes :: "(bytes \<Rightarrow> bool) \<Rightarrow> bytes \<Rightarrow> address_error + DualAddress" where
  "DualAddressFromBytes canonical b =
     (let len = length b in
      if len < DualAddressInternalSize \<or> len > DualAddressInternalSize + MaxEncryptedDataSize
      then Inl ErrInvalidSize
      else case ValidateChecksum b of
        Inl _ \<Rightarrow> Inl ErrInvalidChecksum
      | Inr _ \<Rightarrow>
          (case NetworkFromByte (b ! 0) of
             Inl _ \<Rightarrow> Inl ErrInvalidNetwork
           | Inr network \<Rightarrow>
               (case featuresFromBits (b ! 1) of
                  None \<Rightarrow> Inl ErrInvalidFeatures
                | Some features \<Rightarrow>
                    (case PublicKeyFromCanonicalBytes canonical (take 32 (drop 2 b)) of
                       Inl _ \<Rightarrow> Inl ErrCannotRecoverPublicKey
                     | Inr viewKey \<Rightarrow>
                         (case PublicKeyFromCanonicalBytes canonical (take 32 (drop 34 b)) of
                            Inl _ \<Rightarrow> Inl ErrCannotRecoverPublicKey
                          | Inr spendKey \<Rightarrow>
                              Inr \<lparr>d_network = network, d_features = features,
                                   d_publicViewKey = viewKey, d_publicSpendKey = spendKey,
                                   d_memoFieldPaymentID = take (len - 1 - 66) (drop 66 b)\<rparr>)))))"

section \<open>Emoji, base58 and hexadecimal\<close>

definition dualEmojiToBytes :: "nat list \<Rightarrow> address_error + bytes" where
  "dualEmojiToBytes emoji =
     (if length emoji < DualAddressInternalSize
         \<or> length emoji > DualAddressInternalSize + MaxEncryptedDataSize
      then Inl ErrInvalidSize
      else emoji_loop emoji [])"

definition DualAddressFromEmojiString ::
    "(bytes \<Rightarrow> bool) \<Rightarrow> string \<Rightarrow> address_error + DualAddress" where
  "DualAddressFromEmojiString canonical emoji =
     (case dualEmojiToBytes (runes_of_string emoji) of
        Inl err \<Rightarrow> Inl err
      | Inr bs \<Rightarrow> DualAddressFromBytes canonical bs)"

definition DualAddress_EmojiString :: "DualAddress \<Rightarrow> string" where
  "DualAddress_EmojiString a = string_of_runes (emoji_of_bytes (DualAddress_Bytes a))"

definition DualAddressFromBase58 ::
    "base58_lib \<Rightarrow> (bytes \<Rightarrow> bool) \<Rightarrow> string \<Rightarrow> address_error + DualAddress" where
  "DualAddressFromBase58 B canonical s =
     (if length s < dualBase58MinSize \<or> length s > dualBase58MaxSize then Inl ErrInvalidSize
      else case splitNetworkFeaturesRest s of
        Inl err \<Rightarrow> Inl err
      | Inr (networkStr, featuresStr, rest) \<Rightarrow>
          (case decodeBytes B networkStr of
             None \<Rightarrow> Inl ErrCannotRecoverNetwork
           | Some networkBytes \<Rightarrow>
               (case decodeBytes B featuresStr of
                  None \<Rightarrow> Inl ErrCannotRecoverFeature
                | Some featuresBytes \<Rightarrow>
                    (case decodeBytes B rest of
                       None \<Rightarrow> Inl ErrCannotRecoverPublicKey
                     | Some restBytes \<Rightarrow>
                         DualAddressFromBytes canonical
                           (networkBytes @ featuresBytes @ restBytes)))))"

definition DualAddress_Base58 :: "base58_lib \<Rightarrow> DualAddress \<Rightarrow> string" where
  "DualAddress_Base58 B a =
     (let bs = DualAddress_Bytes a
      in encodeSingleByte B (bs ! 0) @ encodeSingleByte B (bs ! 1) @ Encode B (drop 2 bs))"

definition DualAddress_Hex :: "DualAddress \<Rightarrow> string" where
  "DualAddress_Hex a = hex_encode (DualAddress_Bytes a)"

definition DualAddressFromHex :: "(bytes \<Rightarrow> bool) \<Rightarrow> string \<Rightarrow> address_error + DualAddress" where
  "DualAddressFromHex canonical s =
     (case hex_decode s of
        None \<Rightarrow> Inl ErrCannotRecoverPublicKey
      | Some buf \<Rightarrow> DualAddressFromBytes canonical buf)"

section \<open>Well-formed dual addresses and the byte codec\<close>

definition wf_dual :: "(bytes \<Rightarrow> bool) \<Rightarrow> DualAddress \<Rightarrow> bool" where
  "wf_dual canonical a \<longleftrightarrow> d_network a \<in> set known_networks \<and> valid_features (d_features a) \<and>
     valid_key canonical (d_publicViewKey a) \<and> valid_key canonical (d_publicSpendKey a) \<and>
     length (d_memoFieldPaymentID a) \<le> 256"

lemma wf_dual_length:
  "wf_dual canonical a \<Longrightarrow> length (DualAddress_Bytes a) = 67 + length (d_memoFieldPaymentID a)"
  by (simp add: DualAddress_Bytes_def PublicKey_Bytes_def wf_dual_def valid_key_def)

lemma DualAddressFromBytes_cases:
  assumes "67 \<le> length b" "length b \<le> 323"
  shows "DualAddressFromBytes canonical b =
    (if ComputeChecksum b \<noteq> 0 then Inl ErrInvalidChecksum
     else if b ! 0 \<notin> set known_networks then Inl ErrInvalidNetwork
     else if \<not> valid_features (b ! 1) then Inl ErrInvalidFeatures
     else if \<not> (canonical (take 32 (drop 2 b)) \<and> canonical (take 32 (drop 34 b)))
       then Inl ErrCannotRecoverPublicKey
     else Inr \<lparr>d_network = b ! 0, d_features = b ! 1, d_publicViewKey = take 32 (drop 2 b),
       d_publicSpendKey = take 32 (drop 34 b),
       d_memoFieldPaymentID = take (length b - 67) (drop 66 b)\<rparr>)"
  using assms
  by (auto simp: DualAddressFromBytes_def dual_sizes Let_def ValidateChecksum_def
      valid_key_def NetworkFromByte_Inr_iff NetworkFromByte_Inl_iff featuresFromBits_Some_iff
      featuresFromBits_None_iff PublicKeyFromCanonicalBytes_Inr_iff
      PublicKeyFromCanonicalBytes_Inl_iff split: sum.split option.split)

lemma DualAddressFromBytes_size:
  "\<not> (67 \<le> length b \<and> length b \<le> 323) \<Longrightarrow> DualAddressFromBytes canonical b = Inl ErrInvalidSize"
  by (auto simp: DualAddressFromBytes_def dual_sizes Let_def)

lemma list_split_67:
  assumes "67 \<le> length b"
  shows "b = ([b ! 0, b ! 1] @ take 32 (drop 2 b) @ take 32 (drop 34 b)
              @ take (length b - 67) (drop 66 b)) @ [last b]"
proof -
  have "b = take 2 b @ take 32 (drop 2 b) @ take 32 (drop 34 b)
              @ take (length b - 67) (drop 66 b) @ drop (length b - 1) b"
    using append_take_drop_id [of 2 b] append_take_drop_id [of 32 "drop 2 b"]
      append_take_drop_id [of 32 "drop 34 b"] append_take_drop_id [of "length b - 67" "drop 66 b"] assms
    by simp
  also have "take 2 b = [b ! 0, b ! 1]" using assms by (simp add: take_two_nth)
  also have "drop (length b - 1) b = [last b]"
    using assms by (cases b rule: rev_cases) auto
  finally show ?thesis by simp
qed

lemma DualAddressFromBytes_Bytes:
  assumes "wf_dual canonical a"
  shows "DualAddressFromBytes canonical (DualAddress_Bytes a) = Inr a"
proof -
  let ?body = "[d_network a, d_features a] @ d_publicViewKey a @ d_publicSpendKey a
    @ d_memoFieldPaymentID a"
  have bs: "DualAddress_Bytes a = ?body @ [ComputeChecksum ?body]"
    by (simp add: DualAddress_Bytes_def Let_def Network_AsByte_def Features_AsU8_def PublicKey_Bytes_def)
  then have c: "ComputeChecksum (DualAddress_Bytes a) = 0" by (simp only: checksum_snoc)
  have len: "length (d_publicViewKey a) = 32" "length (d_publicSpendKey a) = 32"
    "length (d_memoFieldPaymentID a) \<le> 256"
    using assms by (auto simp: wf_dual_def valid_key_def)
  then have "67 \<le> length (DualAddress_Bytes a)" "length (DualAddress_Bytes a) \<le> 323"
    using wf_dual_length [OF assms] by auto
  from DualAddressFromBytes_cases [OF this] show ?thesis
    using assms len unfolding c by (simp add: bs wf_dual_def valid_key_def)
qed

lemma DualAddressFromBytes_Inr:
  assumes "DualAddressFromBytes canonical b = Inr a"
  shows "wf_dual canonical a \<and> DualAddress_Bytes a = b"
proof -
  have len: "67 \<le> length b" "length b \<le> 323"
    using assms DualAddressFromBytes_size [of b canonical] by force+
  let ?body = "[b ! 0, b ! 1] @ take 32 (drop 2 b) @ take 32 (drop 34 b)
    @ take (length b - 67) (drop 66 b)"
  have a: "a = \<lparr>d_network = b ! 0, d_features = b ! 1, d_publicViewKey = take 32 (drop 2 b),
       d_publicSpendKey = take 32 (drop 34 b),
       d_memoFieldPaymentID = take (length b - 67) (drop 66 b)\<rparr>"
    and wf: "wf_dual canonical a" and c: "ComputeChecksum b = 0"
    using assms len
    by (auto simp: DualAddressFromBytes_cases wf_dual_def valid_key_def split: if_splits)
  have "ComputeChecksum (?body @ [last b]) = 0" using c list_split_67 [OF len(1)] by simp
  then have "last b = ComputeChecksum ?body" by (simp only: checksum_snoc)
  then have "?body @ [ComputeChecksum ?body] = b" using list_split_67 [OF len(1)] by simp
  then show ?thesis
    using wf
    by (simp add: a DualAddress_Bytes_def Let_def Network_AsByte_def Features_AsU8_def PublicKey_Bytes_def)
qed

interpretation dual_format: address_format DualAddress_Bytes "DualAddressFromBytes canonical"
    "wf_dual canonical" for canonical
proof unfold_locales
  fix a
  assume wf: "wf_dual canonical a"
  show "DualAddressFromBytes canonical (DualAddress_Bytes a) = Inr a"
    by (rule DualAddressFromBytes_Bytes [OF wf])
  show "3 \<le> length (DualAddress_Bytes a)" by (simp add: wf_dual_length [OF wf])
  show "DualAddress_Bytes a ! 0 \<in> set known_networks" "valid_features (DualAddress_Bytes a ! 1)"
    using wf
    by (simp_all add: wf_dual_def DualAddress_Bytes_def Let_def Network_AsByte_def Features_AsU8_def)
qed (rule DualAddressFromBytes_Inr)

lemma DualAddressFromBase58_body:
  "DualAddressFromBase58 B canonical s =
     (if length s < 89 \<or> 443 < length s then Inl ErrInvalidSize
      else base58_body B (DualAddressFromBytes canonical) s)"
  by (simp add: DualAddressFromBase58_def base58_body_def dual_sizes)

lemma DualAddress_Base58_text: "DualAddress_Base58 B a = base58_text B (DualAddress_Bytes a)"
  by (simp add: DualAddress_Base58_def base58_text_def Let_def)

lemma DualAddress_EmojiString_text: "DualAddress_EmojiString a = emoji_text (DualAddress_Bytes a)"
  by (simp add: DualAddress_EmojiString_def emoji_text_def)

definition sample_dual :: DualAddress where
  "sample_dual = \<lparr>d_network = Esmeralda, d_features = DefaultFeatures,
     d_publicViewKey = map word_of_nat [1..<33], d_publicSpendKey = map word_of_nat [1..<33],
     d_memoFieldPaymentID = []\<rparr>"

lemma wf_sample_dual: "wf_dual (\<lambda>k. hd k = 1) sample_dual"
  by code_simp

lemma sample_dual_key: "take 4 (d_publicViewKey sample_dual) \<noteq> replicate 4 0"
  by code_simp

text \<open>A view key with at most three leading zero bytes gives a base58 text of 89 to 443 characters.\<close>

lemma dual_base58_length:
  assumes "wf_dual canonical a" "take 4 (d_publicViewKey a) \<noteq> replicate 4 0"
  shows "89 \<le> length (DualAddress_Base58 bitcoin_base58 a)"
    and "length (DualAddress_Base58 bitcoin_base58 a) \<le> 443"
proof -
  let ?key = "d_publicViewKey a"
  define tl where "tl = d_publicSpendKey a @ d_memoFieldPaymentID a @ [last (DualAddress_Bytes a)]"
  have len: "length ?key = 32" "33 \<le> length tl" "length tl \<le> 289"
    using assms(1) by (auto simp: wf_dual_def valid_key_def tl_def)
  then obtain z x rest where z: "z < 4" "x \<noteq> 0" and k: "?key = replicate z 0 @ x # rest"
    using leading_zeros [of 4 ?key] assms(2) by auto
  have rest: "64 - z \<le> length (rest @ tl)" "length (rest @ tl) \<le> 320 - z" using len k by auto
  have "drop 2 (DualAddress_Bytes a) = replicate z 0 @ x # rest @ tl"
    by (simp add: tl_def DualAddress_Bytes_def Let_def PublicKey_Bytes_def k)
  then have "length (DualAddress_Base58 bitcoin_base58 a) =
      2 + length (b58_encode (replicate z 0 @ x # rest @ tl))"
    using dual_format.network_byte [OF assms(1)] dual_format.features_byte [OF assms(1)]
    by (simp add: DualAddress_Base58_text length_base58_text)
  moreover have "z \<in> {0, 1, 2, 3}" using z by auto
  then have num: "86 \<le> z + (86 - z)" "(58::nat) ^ (86 - z) \<le> 256 ^ (64 - z)"
      "(256::nat) ^ (17 - z) \<le> 58 ^ (24 - z)" "z + (440 - z) \<le> 441"
      "Suc (320 - z) = 19 * 16 + (17 - z)" "440 - z = 26 * 16 + (24 - z)"
    by auto
  have lo: "(58::nat) ^ (86 - z) \<le> 256 ^ length (rest @ tl)"
    using num(2) power_increasing [OF rest(1), of "256::nat"] by linarith
  have "((256::nat) ^ 19) ^ 16 \<le> (58 ^ 26) ^ 16" by (intro power_mono) simp_all
  from mult_le_mono [OF this num(3)] have "(256::nat) ^ Suc (320 - z) \<le> 58 ^ (440 - z)"
    unfolding num(5,6) power_add power_mult .
  then have hi: "(256::nat) ^ Suc (length (rest @ tl)) \<le> 58 ^ (440 - z)"
    using power_increasing [of "Suc (length (rest @ tl))" "Suc (320 - z)" "256::nat"] rest(2)
    by linarith
  ultimately show "89 \<le> length (DualAddress_Base58 bitcoin_base58 a)"
    and "length (DualAddress_Base58 bitcoin_base58 a) \<le> 443"
    using length_b58_encode [OF z(2) lo hi, of z] num(1,4) by linarith+
qed

section \<open>Properties\<close>

text \<open>
  The dual format is exact in both directions: \<open>DualAddressFromBytes\<close> returns an address if
  and only if that address is well formed (known network, valid features, two canonical keys, a
  memo of at most 256 bytes) and the buffer is byte for byte its \<open>Bytes\<close>.
\<close>

theorem dual_bytes_exact:
  "DualAddressFromBytes canonical b = Inr a \<longleftrightarrow> wf_dual canonical a \<and> b = DualAddress_Bytes a"
  by (rule dual_format.dec_iff)

text \<open>
  A dual address survives its emoji and hexadecimal forms, and its base58 form whenever the
  text has one of the admitted lengths 89 to 443; at any other length the base58 parser answers
  \<open>ErrInvalidSize\<close>.
\<close>

theorem dual_text_roundtrips:
  assumes "base58 B" and "wf_dual canonical a"
  shows "DualAddressFromEmojiString canonical (DualAddress_EmojiString a) = Inr a \<and>
    DualAddressFromHex canonical (DualAddress_Hex a) = Inr a \<and>
    DualAddressFromBase58 B canonical (DualAddress_Base58 B a) =
      (if 89 \<le> length (DualAddress_Base58 B a) \<and> length (DualAddress_Base58 B a) \<le> 443
       then Inr a else Inl ErrInvalidSize)"
proof (intro conjI)
  note wf = assms(2)
  have "length (d_memoFieldPaymentID a) \<le> 256" using wf by (simp add: wf_dual_def)
  then show "DualAddressFromEmojiString canonical (DualAddress_EmojiString a) = Inr a"
    using dual_format.dec_enc [OF wf] wf_dual_length [OF wf]
    by (simp add: DualAddressFromEmojiString_def dualEmojiToBytes_def DualAddress_EmojiString_text
        dual_sizes runes_emoji_text length_emoji_of_bytes emoji.dec_enc)
  show "DualAddressFromHex canonical (DualAddress_Hex a) = Inr a"
    using dual_format.hex_roundtrip [OF wf]
    by (simp add: DualAddressFromHex_def DualAddress_Hex_def hex_body_def)
  show "DualAddressFromBase58 B canonical (DualAddress_Base58 B a) =
      (if 89 \<le> length (DualAddress_Base58 B a) \<and> length (DualAddress_Base58 B a) \<le> 443
       then Inr a else Inl ErrInvalidSize)"
    using dual_format.base58_roundtrip [OF assms]
    by (simp add: DualAddressFromBase58_body DualAddress_Base58_text)
qed

theorem dual_text_roundtrips_witness:
  "DualAddressFromEmojiString (\<lambda>k. hd k = 1) (DualAddress_EmojiString sample_dual) = Inr sample_dual \<and>
   DualAddressFromHex (\<lambda>k. hd k = 1) (DualAddress_Hex sample_dual) = Inr sample_dual \<and>
   DualAddressFromBase58 bitcoin_base58 (\<lambda>k. hd k = 1) (DualAddress_Base58 bitcoin_base58 sample_dual)
     = Inr sample_dual"
  using dual_text_roundtrips [OF bitcoin.base58_axioms wf_sample_dual] dual_base58_length [OF wf_sample_dual sample_dual_key]
  by simp



end
