(* ===== verification/Tari_Address.thy ===== *)
theory Tari_Address
  imports Dual_Address
begin

text \<open>
  \<^verbatim>\<open>src/address/address.go\<close>: the address type of the package, a tagged union of the dual and the
  single address, the parser that recognises its three text forms, and the combination of two
  addresses of one wallet.
\<close>

section \<open>Data, constructors, accessors\<close>

definition INTERNAL_SINGLE_MIN_BASE58_SIZE :: nat where "INTERNAL_SINGLE_MIN_BASE58_SIZE = 45"
definition singleBase58MinSizeForParse :: nat where
  "singleBase58MinSizeForParse = INTERNAL_SINGLE_MIN_BASE58_SIZE"

datatype Kind = KindDual | KindSingle

record Address =
  kind :: Kind
  dual :: DualAddress
  single :: SingleAddress

text \<open>The zero values Go gives the fields a composite literal leaves out.\<close>

definition zero_dual :: DualAddress where
  "zero_dual = \<lparr>d_network = 0, d_features = 0, d_publicViewKey = zero_key,
     d_publicSpendKey = zero_key, d_memoFieldPaymentID = []\<rparr>"

definition zero_single :: SingleAddress where
  "zero_single = \<lparr>s_network = 0, s_features = 0, s_publicSpendKey = zero_key\<rparr>"

definition of_dual :: "DualAddress \<Rightarrow> Address" where
  "of_dual d = \<lparr>kind = KindDual, dual = d, single = zero_single\<rparr>"

definition of_single :: "SingleAddress \<Rightarrow> Address" where
  "of_single s = \<lparr>kind = KindSingle, dual = zero_dual, single = s\<rparr>"

definition Address_Kind :: "Address \<Rightarrow> Kind" where
  [simp]: "Address_Kind a = kind a"

definition AsDual :: "Address \<Rightarrow> DualAddress \<times> bool" where
  "AsDual a = (dual a, kind a = KindDual)"

definition AsSingle :: "Address \<Rightarrow> SingleAddress \<times> bool" where
  "AsSingle a = (single a, kind a = KindSingle)"

definition NewDual ::
    "CompressedPublicKey \<Rightarrow> CompressedPublicKey \<Rightarrow> Network \<Rightarrow> Features \<Rightarrow> bytes option
      \<Rightarrow> address_error + Address" where
  "NewDual viewKey spendKey network features memoFieldPaymentID =
     (case NewDualAddress viewKey spendKey network features memoFieldPaymentID of
        Inl err \<Rightarrow> Inl err
      | Inr d \<Rightarrow> Inr (of_dual d))"

definition NewSingle :: "CompressedPublicKey \<Rightarrow> Network \<Rightarrow> Features \<Rightarrow> Address" where
  "NewSingle spendKey network features = of_single (NewSingleAddress spendKey network features)"

definition NewDualWithDefaultFeatures ::
    "CompressedPublicKey \<Rightarrow> CompressedPublicKey \<Rightarrow> Network \<Rightarrow> address_error + Address" where
  "NewDualWithDefaultFeatures viewKey spendKey network =
     (case NewDualAddressWithDefaultFeatures viewKey spendKey network of
        Inl err \<Rightarrow> Inl err
      | Inr d \<Rightarrow> Inr (of_dual d))"

definition NewSingleInteractiveOnly :: "CompressedPublicKey \<Rightarrow> Network \<Rightarrow> Address" where
  "NewSingleInteractiveOnly spendKey network =
     of_single (NewSingleAddressInteractiveOnly spendKey network)"

definition Address_Network :: "Address \<Rightarrow> Network" where
  "Address_Network a = (if kind a = KindDual then DualAddress_Network (dual a) else SingleAddress_Network (single a))"

definition Address_Features :: "Address \<Rightarrow> Features" where
  "Address_Features a = (if kind a = KindDual then DualAddress_Features (dual a) else SingleAddress_Features (single a))"

definition Address_PublicViewKey :: "Address \<Rightarrow> CompressedPublicKey \<times> bool" where
  "Address_PublicViewKey a =
     (if kind a = KindDual then (DualAddress_PublicViewKey (dual a), True) else (zero_key, False))"

definition Address_PublicSpendKey :: "Address \<Rightarrow> CompressedPublicKey" where
  "Address_PublicSpendKey a =
     (if kind a = KindDual then DualAddress_PublicSpendKey (dual a) else SingleAddress_PublicSpendKey (single a))"

definition CommsPublicKey :: "Address \<Rightarrow> CompressedPublicKey" where
  "CommsPublicKey a = Address_PublicSpendKey a"

definition GetSize :: "Address \<Rightarrow> nat" where
  "GetSize a =
     (if kind a = KindDual then
        if Contains (DualAddress_Features (dual a)) FeaturePaymentID then length (DualAddress_Bytes (dual a))
        else DualAddressInternalSize
      else SingleAddressInternalSize)"

definition GetMemoFieldPaymentIDBytes :: "Address \<Rightarrow> bytes" where
  "GetMemoFieldPaymentIDBytes a =
     (if kind a = KindDual then DualAddress_GetMemoFieldPaymentIDBytes (dual a) else [])"

definition WithMemoFieldPaymentID :: "Address \<Rightarrow> bytes \<Rightarrow> address_error + Address" where
  "WithMemoFieldPaymentID a data =
     (if kind a \<noteq> KindDual then Inl ErrPaymentIDNotSupported
      else case AddMemoFieldPaymentID (dual a) data of
        Inl err \<Rightarrow> Inl err
      | Inr d \<Rightarrow> Inr (of_dual d))"

section \<open>Encodings\<close>

definition Address_Bytes :: "Address \<Rightarrow> bytes" where
  "Address_Bytes a =
     (if kind a = KindDual then DualAddress_Bytes (dual a) else SingleAddress_Bytes (single a))"

definition CalculateChecksum :: "Address \<Rightarrow> u8" where
  "CalculateChecksum a = (let b = Address_Bytes a in b ! (length b - 1))"

definition FromBytes :: "(bytes \<Rightarrow> bool) \<Rightarrow> bytes \<Rightarrow> address_error + Address" where
  "FromBytes canonical b =
     (if \<not> (length b = SingleAddressInternalSize
            \<or> (length b \<ge> DualAddressInternalSize
               \<and> length b \<le> DualAddressInternalSize + MaxEncryptedDataSize))
      then Inl ErrInvalidSize
      else if length b = SingleAddressInternalSize then
        (case SingleAddressFromBytes canonical b of
           Inl err \<Rightarrow> Inl err
         | Inr s \<Rightarrow> Inr (of_single s))
      else
        (case DualAddressFromBytes canonical b of
           Inl err \<Rightarrow> Inl err
         | Inr d \<Rightarrow> Inr (of_dual d)))"

definition emojiToBytes :: "string \<Rightarrow> address_error + bytes" where
  "emojiToBytes emoji =
     (let runes = runes_of_string emoji in
      if length runes = SingleAddressInternalSize then singleEmojiToBytes runes
      else dualEmojiToBytes runes)"

definition FromEmojiString :: "(bytes \<Rightarrow> bool) \<Rightarrow> string \<Rightarrow> address_error + Address" where
  "FromEmojiString canonical emoji =
     (case emojiToBytes emoji of
        Inl err \<Rightarrow> Inl err
      | Inr bs \<Rightarrow> FromBytes canonical bs)"

definition EmojiString :: "Address \<Rightarrow> string" where
  "EmojiString a =
     (if kind a = KindDual then DualAddress_EmojiString (dual a)
      else SingleAddress_EmojiString (single a))"

definition FromBase58 :: "base58_lib \<Rightarrow> (bytes \<Rightarrow> bool) \<Rightarrow> string \<Rightarrow> address_error + Address" where
  "FromBase58 B canonical s =
     (if length s < singleBase58MinSizeForParse then Inl ErrInvalidSize
      else case splitNetworkFeaturesRest s of
        Inl err \<Rightarrow> Inl err
      | Inr (networkStr, featuresStr, rest) \<Rightarrow>
          (case decodeBytes B networkStr of
             None \<Rightarrow> Inl ErrCannotRecoverNetwork
           | Some networkBytes \<Rightarrow>
               (case decodeBytes B featuresStr of
                  None \<Rightarrow> Inl ErrCannotRecoverFeature
                | Some featuresBytes \<Rightarrow>
                    (case decodeBytes B rest of
                       None \<Rightarrow> Inl ErrCannotRecoverPublicKey
                     | Some restBytes \<Rightarrow>
                         FromBytes canonical (networkBytes @ featuresBytes @ restBytes)))))"

definition Base58 :: "base58_lib \<Rightarrow> Address \<Rightarrow> string" where
  "Base58 B a =
     (let bs = Address_Bytes a
      in encodeSingleByte B (bs ! 0) @ encodeSingleByte B (bs ! 1) @ Encode B (drop 2 bs))"

definition Hex :: "Address \<Rightarrow> string" where
  "Hex a = hex_encode (Address_Bytes a)"

definition FromHex :: "(bytes \<Rightarrow> bool) \<Rightarrow> string \<Rightarrow> address_error + Address" where
  "FromHex canonical s =
     (case hex_decode s of
        None \<Rightarrow> Inl ErrCannotRecoverPublicKey
      | Some buf \<Rightarrow> FromBytes canonical buf)"

definition Parse :: "base58_lib \<Rightarrow> (bytes \<Rightarrow> bool) \<Rightarrow> string \<Rightarrow> address_error + Address" where
  "Parse B canonical s =
     (let cleaned = remove_char (CHR ''|'') (TrimSpace s) in
      case FromEmojiString canonical cleaned of
        Inr a \<Rightarrow> Inr a
      | Inl _ \<Rightarrow>
          (case FromBase58 B canonical s of
             Inr a \<Rightarrow> Inr a
           | Inl _ \<Rightarrow>
               (case FromHex canonical s of
                  Inr a \<Rightarrow> Inr a
                | Inl _ \<Rightarrow> Inl ErrInvalidAddressString)))"

definition Address_String :: "Address \<Rightarrow> string" where
  "Address_String a = EmojiString a"

definition CombineAddresses :: "Address \<Rightarrow> Address \<Rightarrow> address_error + Address" where
  "CombineAddresses one two =
     (if Address_PublicSpendKey one \<noteq> Address_PublicSpendKey two
      then Inl (CreationError ''Public keys do not match'')
      else if Address_Network one \<noteq> Address_Network two
      then Inl (CreationError ''Networks do not match'')
      else
        let (oneDual, oneIsDual) = AsDual one; (twoDual, twoIsDual) = AsDual two in
        if oneIsDual \<and> twoIsDual \<and> d_publicViewKey oneDual \<noteq> d_publicViewKey twoDual
        then Inl (CreationError ''View keys do not match'')
        else if oneIsDual then
          NewDual (d_publicViewKey oneDual) (d_publicSpendKey oneDual) (Address_Network one)
            (Combine (Address_Features one) (Address_Features two)) None
        else if twoIsDual then
          NewDual (d_publicViewKey twoDual) (Address_PublicSpendKey one) (Address_Network one)
            (Combine (Address_Features one) (Address_Features two)) None
        else
          Inr (NewSingle (Address_PublicSpendKey one) (Address_Network one)
            (Combine (Address_Features one) (Address_Features two))))"

section \<open>The byte codec\<close>

definition wf_address :: "(bytes \<Rightarrow> bool) \<Rightarrow> Address \<Rightarrow> bool" where
  "wf_address canonical a \<longleftrightarrow>
     (case kind a of
        KindDual \<Rightarrow> wf_dual canonical (dual a) \<and> single a = zero_single
      | KindSingle \<Rightarrow> wf_single canonical (single a) \<and> dual a = zero_dual)"

lemma wf_address_cases:
  assumes "wf_address canonical a"
  obtains (dual) d where "a = of_dual d" "wf_dual canonical d"
    | (single) s where "a = of_single s" "wf_single canonical s"
  using assms by (cases a; cases "kind a") (auto simp: wf_address_def of_dual_def of_single_def)

lemma wf_of_dual [simp]: "wf_address canonical (of_dual d) \<longleftrightarrow> wf_dual canonical d"
  and wf_of_single [simp]: "wf_address canonical (of_single s) \<longleftrightarrow> wf_single canonical s"
  by (simp_all add: wf_address_def of_dual_def of_single_def)

lemma Address_Bytes_of [simp]:
  "Address_Bytes (of_dual d) = DualAddress_Bytes d"
  "Address_Bytes (of_single s) = SingleAddress_Bytes s"
  by (simp_all add: Address_Bytes_def of_dual_def of_single_def)

lemma EmojiString_text: "EmojiString a = emoji_text (Address_Bytes a)"
  by (simp add: EmojiString_def Address_Bytes_def DualAddress_EmojiString_text
      SingleAddress_EmojiString_text)

lemma wf_dual_size:
  "wf_dual canonical d \<Longrightarrow> 67 \<le> length (DualAddress_Bytes d) \<and> length (DualAddress_Bytes d) \<le> 323"
  using wf_dual_length [of canonical d] by (simp add: wf_dual_def)

lemma FromBytes_Bytes: "wf_address canonical a \<Longrightarrow> FromBytes canonical (Address_Bytes a) = Inr a"
proof (erule wf_address_cases)
  fix d
  assume "a = of_dual d" "wf_dual canonical d"
  then show ?thesis
    using wf_dual_size [of canonical d]
    by (auto simp: FromBytes_def SingleAddressInternalSize_def dual_sizes dual_format.dec_enc)
next
  fix s
  assume "a = of_single s" "wf_single canonical s"
  then show ?thesis
    by (simp add: FromBytes_def SingleAddressInternalSize_def wf_single_length single_format.dec_enc)
qed

lemma FromBytes_Inr:
  "FromBytes canonical b = Inr a \<Longrightarrow> wf_address canonical a \<and> Address_Bytes a = b"
  by (auto simp: FromBytes_def single_format.dec_iff dual_format.dec_iff split: if_splits sum.splits)

interpretation tari_format: address_format Address_Bytes "FromBytes canonical" "wf_address canonical"
  for canonical
proof unfold_locales
  fix a
  assume wf: "wf_address canonical a"
  show "FromBytes canonical (Address_Bytes a) = Inr a" by (rule FromBytes_Bytes [OF wf])
  from wf show "3 \<le> length (Address_Bytes a)" "Address_Bytes a ! 0 \<in> set known_networks"
    "valid_features (Address_Bytes a ! 1)"
    by (auto elim!: wf_address_cases simp del: One_nat_def simp: dual_format.network_byte single_format.network_byte
        dual_format.features_byte single_format.features_byte dual_format.size single_format.size)
qed (rule FromBytes_Inr)

lemma wf_address_size:
  assumes "wf_address canonical a"
  shows "length (Address_Bytes a) = 35 \<or> 67 \<le> length (Address_Bytes a) \<and> length (Address_Bytes a) \<le> 323"
  using assms by (auto elim!: wf_address_cases simp: wf_single_length dest: wf_dual_size)

section \<open>Text forms\<close>

lemma emojiToBytes_runes:
  "emojiToBytes s =
     (let rs = runes_of_string s in
      if length rs = 35 \<or> 67 \<le> length rs \<and> length rs \<le> 323 then emoji_loop rs []
      else Inl ErrInvalidSize)"
  by (auto simp: emojiToBytes_def singleEmojiToBytes_def dualEmojiToBytes_def dual_sizes
      SingleAddressInternalSize_def Let_def)

lemma FromEmojiString_EmojiString:
  "wf_address canonical a \<Longrightarrow> FromEmojiString canonical (EmojiString a) = Inr a"
  using wf_address_size [of canonical a]
  by (simp add: FromEmojiString_def emojiToBytes_runes EmojiString_text runes_emoji_text
      length_emoji_of_bytes emoji.dec_enc FromBytes_Bytes)

lemma FromEmojiString_Inr:
  assumes "FromEmojiString canonical s = Inr a"
  shows "wf_address canonical a \<and> s = EmojiString a"
proof -
  obtain bs where "emojiToBytes s = Inr bs" "FromBytes canonical bs = Inr a"
    using assms by (auto simp: FromEmojiString_def split: sum.splits)
  moreover from this have "emoji_loop (runes_of_string s) [] = Inr bs"
    by (simp add: emojiToBytes_runes Let_def split: if_splits)
  ultimately show ?thesis using tari_format.emoji_canonical by (simp add: EmojiString_text)
qed

lemma FromBase58_body:
  "FromBase58 B canonical s =
     (if length s < 45 then Inl ErrInvalidSize else base58_body B (FromBytes canonical) s)"
  by (simp add: FromBase58_def base58_body_def singleBase58MinSizeForParse_def
      INTERNAL_SINGLE_MIN_BASE58_SIZE_def)

lemma Base58_text: "Base58 B a = base58_text B (Address_Bytes a)"
  by (simp add: Base58_def base58_text_def Let_def)

lemma FromHex_body: "FromHex canonical s = hex_body (FromBytes canonical) s"
  by (simp add: FromHex_def hex_body_def)

lemma base58_body_Inr: "base58_body B F s = Inr a \<Longrightarrow> \<exists>bs. F bs = Inr a"
  by (auto simp: base58_body_def split: sum.splits option.splits)

text \<open>An ASCII string is never taken for an emoji string.\<close>

lemma FromEmojiString_ascii:
  assumes "\<forall>c \<in> set s. (of_char c :: nat) < 128"
  shows "\<exists>e. FromEmojiString canonical (remove_char (CHR ''|'') (TrimSpace s)) = Inl e"
proof -
  let ?t = "remove_char (CHR ''|'') (TrimSpace s)"
  have "\<forall>c \<in> set ?t. (of_char c :: nat) < 128"
    using assms TrimSpace_subset [of s] by (auto simp: remove_char_def)
  then have "?t \<noteq> [] \<Longrightarrow> \<exists>e. emojiToBytes ?t = Inl e"
    by (simp add: emojiToBytes_runes Let_def emoji_loop_ascii)
  moreover have "\<exists>e. emojiToBytes [] = Inl e"
    by (simp add: emojiToBytes_runes Let_def runes_of_ascii)
  ultimately show ?thesis by (cases "?t = []") (auto simp: FromEmojiString_def)
qed

text \<open>The separator is dropped wherever it stands between emoji.\<close>

lemma runes_append: "string_of_runes (xs @ ys) = string_of_runes xs @ string_of_runes ys"
  by (simp add: string_of_runes_def)

lemma remove_separator:
  assumes "\<forall>r \<in> set rs. 128 \<le> r \<or> r = 124"
  shows "remove_char (CHR ''|'') (string_of_runes rs) = string_of_runes (filter (\<lambda>r. r \<noteq> 124) rs)"
  using assms
proof (induction rs)
  case (Cons r rs)
  have split: "string_of_runes (r # rs) = string_of_runes [r] @ string_of_runes rs"
    using runes_append [of "[r]" rs] by simp
  show ?case
  proof (cases "r = 124")
    case True
    have "string_of_runes [124] = ''|''" by code_simp
    then have "remove_char (CHR ''|'') (string_of_runes (124 # rs)) = remove_char (CHR ''|'') (string_of_runes rs)"
      using runes_append [of "[124]" rs] by (simp add: remove_char_def)
    with Cons True show ?thesis by simp
  next
    case False
    then have "remove_char (CHR ''|'') (string_of_runes [r]) = string_of_runes [r]"
      using Cons.prems by (intro remove_char_runes) auto
    with Cons False show ?thesis
      using runes_append [of "[r]" "filter (\<lambda>r. r \<noteq> 124) rs"] by (simp add: split remove_char_def)
  qed
qed (simp add: remove_char_def string_of_runes_def)

lemma separated_emoji_cleaned:
  assumes "filter (\<lambda>r. r \<noteq> 124) rs = emoji_of_bytes bs"
  shows "remove_char (CHR ''|'') (TrimSpace (string_of_runes rs)) = emoji_text bs"
proof -
  have mem: "r = 124 \<or> r \<in> set (emoji_of_bytes bs)" if "r \<in> set rs" for r
  proof (cases "r = 124")
    case False
    with that have "r \<in> set (filter (\<lambda>r. r \<noteq> 124) rs)" by simp
    then show ?thesis unfolding assms by simp
  qed simp
  have emo: "128 \<le> r \<and> valid_rune r \<and> \<not> is_space r" if "r \<in> set (emoji_of_bytes bs)" for r
    using that Emoji_nth_props by (auto simp: emoji_of_bytes_def)
  have "valid_rune 124 \<and> \<not> is_space 124" by code_simp
  then have "list_all valid_rune rs" "\<forall>r \<in> set rs. \<not> is_space r" "\<forall>r \<in> set rs. 128 \<le> r \<or> r = 124"
    using mem emo by (auto simp: list_all_iff)
  then show ?thesis by (simp add: TrimSpace_runes remove_separator assms emoji_text_def)
qed

section \<open>Properties\<close>

text \<open>
  C4. The byte format of the union is exact: \<open>FromBytes\<close> returns an address if and only if the
  address is well formed and the buffer is its \<open>Bytes\<close>; so no two addresses, single or dual, share
  an encoding and no two encodings share an address.
\<close>

theorem address_bytes_exact:
  "FromBytes canonical b = Inr a \<longleftrightarrow> wf_address canonical a \<and> b = Address_Bytes a"
  by (rule tari_format.dec_iff)

text \<open>
  C37. The emoji form is exact at the level of UTF-8 bytes: a string is accepted by
  \<open>FromEmojiString\<close> as the address \<open>a\<close> if and only if it is the string \<open>EmojiString\<close> writes for \<open>a\<close>.
\<close>

theorem address_emoji_exact:
  "FromEmojiString canonical s = Inr a \<longleftrightarrow> wf_address canonical a \<and> s = EmojiString a"
  using FromEmojiString_EmojiString FromEmojiString_Inr by blast



text \<open>
  C40. \<open>Parse\<close> is total and sound: it yields a well-formed address, whose own encodings then parse,
  or the one error \<open>ErrInvalidAddressString\<close>.
\<close>

theorem parse_sound:
  "case Parse B canonical s of
     Inr a \<Rightarrow> wf_address canonical a \<and> FromBytes canonical (Address_Bytes a) = Inr a
   | Inl e \<Rightarrow> e = ErrInvalidAddressString"
proof -
  have "wf_address canonical a" if "FromBase58 B canonical s = Inr a" for a
    using that by (auto simp: FromBase58_body dest!: base58_body_Inr FromBytes_Inr split: if_splits)
  moreover have "wf_address canonical a" if "FromHex canonical s = Inr a" for a
    using that by (auto simp: FromHex_def dest!: FromBytes_Inr split: option.splits)
  ultimately show ?thesis
    using FromEmojiString_Inr by (auto simp: Parse_def Let_def FromBytes_Bytes split: sum.split)
qed

text \<open>
  \<open>CombineAddresses\<close> is symmetric in its arguments, failures and their messages included.
\<close>

theorem combine_symmetric: "CombineAddresses one two = CombineAddresses two one"
proof (cases "Address_PublicSpendKey one = Address_PublicSpendKey two")
  case True
  have "Combine f g = Combine g f" for f g by (simp add: Combine_def or.commute)
  with True show ?thesis
    by (auto simp: CombineAddresses_def AsDual_def Address_PublicSpendKey_def split: if_splits)
qed (auto simp: CombineAddresses_def)


lemma wf_sample_union: "wf_address (\<lambda>k. hd k = 1) (of_dual sample_dual)"
    "wf_address (\<lambda>k. hd k = 1) (of_single sample_single)"
  by (simp_all add: wf_sample_dual wf_sample_single)

lemma combine_samples:
  "CombineAddresses (of_dual sample_dual) (of_single sample_single) = Inr (of_dual sample_dual)"
  by code_simp


text \<open>
  \<open>GetSize\<close> is the length of the encoding except in one case: a dual address with a memo and no
  PAYMENT_ID feature bit, which \<open>FromBytes\<close> accepts and the constructors never build. There it
  answers 67 although the encoding is longer.
\<close>

theorem get_size_exact:
  assumes "wf_address canonical a"
  shows "GetSize a = length (Address_Bytes a) \<longleftrightarrow>
    GetMemoFieldPaymentIDBytes a = [] \<or> Contains (Address_Features a) FeaturePaymentID"
  using assms
proof (cases rule: wf_address_cases)
  case (dual d)
  then show ?thesis
    by (simp add: GetSize_def GetMemoFieldPaymentIDBytes_def Address_Features_def dual_sizes
        wf_dual_length DualAddress_GetMemoFieldPaymentIDBytes_def of_dual_def Address_Bytes_def)
next
  case (single s)
  then show ?thesis
    by (simp add: GetSize_def GetMemoFieldPaymentIDBytes_def of_single_def Address_Bytes_def
        wf_single_length SingleAddressInternalSize_def)
qed

theorem get_size_exact_witness:
  "GetSize (of_dual (sample_dual\<lparr>d_memoFieldPaymentID := [9]\<rparr>)) \<noteq>
   length (Address_Bytes (of_dual (sample_dual\<lparr>d_memoFieldPaymentID := [9]\<rparr>)))"
proof -
  have "wf_address (\<lambda>k. hd k = 1) (of_dual (sample_dual\<lparr>d_memoFieldPaymentID := [9]\<rparr>))"
    using wf_sample_dual by (simp add: wf_dual_def)
  moreover have "\<not> (GetMemoFieldPaymentIDBytes (of_dual (sample_dual\<lparr>d_memoFieldPaymentID := [9]\<rparr>)) = []
      \<or> Contains (Address_Features (of_dual (sample_dual\<lparr>d_memoFieldPaymentID := [9]\<rparr>))) FeaturePaymentID)"
    by code_simp
  ultimately show ?thesis using get_size_exact by blast
qed

text \<open>
  \<open>WithMemoFieldPaymentID\<close> on a well-formed address: a dual address with data of at most 256
  bytes gives a well-formed address that carries exactly the data and the PAYMENT_ID bit, has the
  network and keys of the original and an encoding of 67 bytes more than the data; a single
  address and oversized data are refused with their own errors.
\<close>

theorem with_memo_spec:
  assumes "wf_address canonical a"
  shows "case WithMemoFieldPaymentID a data of
      Inr r \<Rightarrow> wf_address canonical r \<and> kind a = KindDual \<and>
        GetMemoFieldPaymentIDBytes r = data \<and> Contains (Address_Features r) FeaturePaymentID \<and>
        Address_Network r = Address_Network a \<and> Address_PublicViewKey r = Address_PublicViewKey a \<and>
        Address_PublicSpendKey r = Address_PublicSpendKey a \<and>
        GetSize r = 67 + length data \<and> length (Address_Bytes r) = 67 + length data
    | Inl e \<Rightarrow>
        if kind a = KindSingle then e = ErrPaymentIDNotSupported
        else e = ErrPaymentIDTooLarge \<and> 256 < length data"
  using assms
proof (cases rule: wf_address_cases)
  case (dual d)
  show ?thesis
  proof (cases "length data \<le> 256")
    case True
    let ?d = "d\<lparr>d_features := Combine (d_features d) FeaturePaymentID, d_memoFieldPaymentID := data\<rparr>"
    have "wf_dual canonical ?d" using dual True by (simp add: wf_dual_def)
    moreover from this have "length (DualAddress_Bytes ?d) = 67 + length data"
      using wf_dual_length by fastforce
    moreover have "WithMemoFieldPaymentID a data = Inr (of_dual ?d)"
      using dual True
      by (simp add: WithMemoFieldPaymentID_def AddMemoFieldPaymentID_def of_dual_def dual_sizes)
    ultimately show ?thesis
      using dual
      by (simp add: of_dual_def [of d] of_dual_def [of ?d] wf_address_def GetSize_def Address_Bytes_def
          GetMemoFieldPaymentIDBytes_def DualAddress_GetMemoFieldPaymentIDBytes_def
          Address_Features_def Address_Network_def Address_PublicViewKey_def Address_PublicSpendKey_def)
  next
    case False
    then show ?thesis
      using dual
      by (simp add: WithMemoFieldPaymentID_def AddMemoFieldPaymentID_def of_dual_def dual_sizes)
  qed
qed (simp add: WithMemoFieldPaymentID_def of_single_def)

theorem with_memo_spec_witness:
  "\<exists>r. WithMemoFieldPaymentID (of_dual sample_dual) [1, 2, 3] = Inr r \<and> GetSize r = 70"
proof -
  have "\<exists>r. WithMemoFieldPaymentID (of_dual sample_dual) [1, 2, 3] = Inr r"
    by (simp add: WithMemoFieldPaymentID_def of_dual_def AddMemoFieldPaymentID_def dual_sizes)
  then obtain r where "WithMemoFieldPaymentID (of_dual sample_dual) [1, 2, 3] = Inr r" by blast
  with with_memo_spec [OF wf_sample_union(1), of "[1, 2, 3]"] show ?thesis by simp
qed

text \<open>
  The constructors build well-formed addresses from valid parts, and a memo they attach is
  always flagged by the PAYMENT_ID bit, so that \<open>GetSize\<close> is right on what they build; a memo of more
  than 256 bytes is refused.
\<close>

theorem constructors_wf:
  assumes "valid_key canonical view" and "valid_key canonical spend"
    and "network \<in> set known_networks" and "valid_features features"
  shows "wf_address canonical (NewSingle spend network features) \<and>
    (case NewDual view spend network features memo of
       Inr a \<Rightarrow> wf_address canonical a \<and> GetSize a = length (Address_Bytes a) \<and>
         GetMemoFieldPaymentIDBytes a = (case memo of None \<Rightarrow> [] | Some m \<Rightarrow> m)
     | Inl e \<Rightarrow> e = ErrPaymentIDTooLarge \<and> (\<exists>m. memo = Some m \<and> 256 < length m))"
proof -
  have "wf_address canonical (NewSingle spend network features)"
    using assms by (simp add: NewSingle_def NewSingleAddress_def wf_single_def)
  moreover have "length (DualAddress_Bytes d) = 67" if "wf_dual canonical d" "d_memoFieldPaymentID d = []" for d
    using wf_dual_length [OF that(1)] that(2) by simp
  ultimately show ?thesis
    using assms
    by (auto simp: NewDual_def NewDualAddress_def dual_sizes of_dual_def wf_address_def wf_dual_def
        GetSize_def Address_Bytes_def GetMemoFieldPaymentIDBytes_def
        DualAddress_GetMemoFieldPaymentIDBytes_def split: option.split)
qed

theorem constructors_wf_witness:
  "wf_address (\<lambda>k. hd k = 1) (NewSingle (s_publicSpendKey sample_single) Igor DefaultFeatures)"
proof -
  have "valid_key (\<lambda>k. hd k = 1) (s_publicSpendKey sample_single)" "Igor \<in> set known_networks"
    "valid_features DefaultFeatures"
    by code_simp+
  then show ?thesis using constructors_wf [where memo = None] by blast
qed

end
