(* ===== verification/Go_IO.thy ===== *)
theory Go_IO
  imports Prelude
begin

text \<open>
  Errors, effects and byte streams. A Go function that may fail and touches a connection or a
  session is a function from a state to a result and a new state; \<open>Inl\<close> is its error. The texts
  that \<^verbatim>\<open>fmt.Errorf\<close> interpolates into a message are not kept, its format string and the wrapped
  error are.
\<close>

section \<open>Errors\<close>

datatype go_error =
    Errorf string
  | Wrap string go_error
  | EOF
  | ErrUnexpectedEOF
  | WriteError
  | ErrProtocolNotSupported
  | HandshakeRejectedError u32
  | RPCStatusError u32
  | ProtoError
  | ContextError
  | CipherError
  | ErrAmbiguousBroadcast
  | WrapBoth go_error go_error
  | NilPanic

text \<open>
  \<open>WrapBoth\<close> is \<^verbatim>\<open>fmt.Errorf("%w: %w", err1, err2)\<close>. \<open>NilPanic\<close> stands for the panic of a call through a nil
  pointer, which is not an error a caller can handle. \<^verbatim>\<open>errors.Is\<close> finds the error itself or one it wraps.
\<close>

fun errors_Is :: "go_error \<Rightarrow> go_error \<Rightarrow> bool" where
  "errors_Is (Wrap msg e) target \<longleftrightarrow> Wrap msg e = target \<or> errors_Is e target"
| "errors_Is (WrapBoth e e') target \<longleftrightarrow> WrapBoth e e' = target \<or> errors_Is e target \<or> errors_Is e' target"
| "errors_Is e target \<longleftrightarrow> e = target"

lemma errors_Is_refl [simp]: "errors_Is e e"
  by (cases e) simp_all

section \<open>Strings as bytes\<close>

text \<open>The conversion \<^verbatim>\<open>[]byte(s)\<close>.\<close>

definition string_bytes :: "string \<Rightarrow> bytes" where
  "string_bytes s = map of_char s"

lemma of_char_u8_inject: "(of_char c :: u8) = of_char d \<longleftrightarrow> c = d"
proof -
  have "unat (of_char c :: u8) = of_char c" for c
    using unat_of_nat_u8 [of "of_char c"] by (simp add: of_nat_of_char)
  then show ?thesis by (metis char_of_char)
qed

lemma string_bytes_inject: "string_bytes s = string_bytes t \<longleftrightarrow> s = t"
  unfolding string_bytes_def by (rule inj_map_eq_map) (simp add: inj_def of_char_u8_inject)

section \<open>Effects\<close>

type_synonym ('s, 'a) io = "'s \<Rightarrow> (go_error + 'a) \<times> 's"

definition io_return :: "'a \<Rightarrow> ('s, 'a) io" where
  "io_return a s = (Inr a, s)"

definition io_fail :: "go_error \<Rightarrow> ('s, 'a) io" where
  "io_fail e s = (Inl e, s)"

text \<open>Sequencing with Go's early return: an error ends the function with the state reached.\<close>

definition io_bind :: "('s, 'a) io \<Rightarrow> ('a \<Rightarrow> ('s, 'b) io) \<Rightarrow> ('s, 'b) io" where
  "io_bind m f s = (case m s of (Inl e, s') \<Rightarrow> (Inl e, s') | (Inr a, s') \<Rightarrow> f a s')"

text \<open>\<^verbatim>\<open>fmt.Errorf("msg: %w", err)\<close> around the error of a call.\<close>

definition wrap_err :: "string \<Rightarrow> ('s, 'a) io \<Rightarrow> ('s, 'a) io" where
  "wrap_err msg m s = (case m s of (Inl e, s') \<Rightarrow> (Inl (Wrap msg e), s') | (Inr a, s') \<Rightarrow> (Inr a, s'))"

definition wrap_result :: "string \<Rightarrow> go_error + 'a \<Rightarrow> ('s, 'a) io" where
  "wrap_result msg r s = (case r of Inl e \<Rightarrow> (Inl (Wrap msg e), s) | Inr a \<Rightarrow> (Inr a, s))"

named_theorems io_simps \<open>evaluation of the effect combinators\<close>

lemma io_bind_step [io_simps]:
  "m s = (Inr a, s') \<Longrightarrow> io_bind m f s = f a s'"
  "m s = (Inl e, s') \<Longrightarrow> io_bind m f s = (Inl e, s')"
  by (simp_all add: io_bind_def)

lemma wrap_err_step [io_simps]:
  "m s = (Inr a, s') \<Longrightarrow> wrap_err msg m s = (Inr a, s')"
  "m s = (Inl e, s') \<Longrightarrow> wrap_err msg m s = (Inl (Wrap msg e), s')"
  by (simp_all add: wrap_err_def)

lemma wrap_result_step [simp, io_simps]:
  "wrap_result msg (Inr a) s = (Inr a, s)"
  "wrap_result msg (Inl e) s = (Inl (Wrap msg e), s)"
  by (simp_all add: wrap_result_def)

lemma io_pure_step [simp, io_simps]:
  "io_return a s = (Inr a, s)" "io_fail e s = (Inl e, s)"
  by (simp_all add: io_return_def io_fail_def)

lemma io_bind_Inr:
  "io_bind m f s = (Inr b, t) \<longleftrightarrow> (\<exists>a s'. m s = (Inr a, s') \<and> f a s' = (Inr b, t))"
  by (auto simp: io_bind_def split: prod.splits sum.splits)

lemma wrap_err_Inr [simp]: "wrap_err msg m s = (Inr b, t) \<longleftrightarrow> m s = (Inr b, t)"
  by (auto simp: wrap_err_def split: prod.splits sum.splits)

lemma wrap_result_Inr [simp]: "wrap_result msg r s = (Inr b, t) \<longleftrightarrow> r = Inr b \<and> s = t"
  by (auto simp: wrap_result_def split: sum.splits)

section \<open>Byte streams\<close>

text \<open>
  One end of a connection. \<open>inb\<close> is what the other end has sent and will send until it closes,
  \<open>outb\<close> what has been written. \<open>room\<close> is \<open>None\<close> while the other end keeps reading; with \<open>Some k\<close> it
  takes \<open>k\<close> more bytes and then the connection breaks, so that a write can fail half way.
\<close>

record conn =
  inb :: bytes
  outb :: bytes
  room :: "nat option"

definition Write :: "bytes \<Rightarrow> (conn, unit) io" where
  "Write bs c =
     (case room c of
        None \<Rightarrow> (Inr (), c\<lparr>outb := outb c @ bs\<rparr>)
      | Some k \<Rightarrow>
          if length bs \<le> k then (Inr (), c\<lparr>outb := outb c @ bs, room := Some (k - length bs)\<rparr>)
          else (Inl WriteError, c\<lparr>outb := outb c @ take k bs, room := Some 0\<rparr>))"

text \<open>\<^verbatim>\<open>io.ReadFull\<close> into a buffer of \<open>n\<close> bytes: it loops over \<^verbatim>\<open>Read\<close> until the buffer is full, so
  how the bytes are split over reads does not show.\<close>

definition ReadFull :: "nat \<Rightarrow> (conn, bytes) io" where
  "ReadFull n c =
     (if n \<le> length (inb c) then (Inr (take n (inb c)), c\<lparr>inb := drop n (inb c)\<rparr>)
      else (Inl (if inb c = [] then EOF else ErrUnexpectedEOF), c\<lparr>inb := []\<rparr>))"

lemma ReadFull_append: "length x = n \<Longrightarrow> inb c = x @ r \<Longrightarrow> ReadFull n c = (Inr x, c\<lparr>inb := r\<rparr>)"
  by (simp add: ReadFull_def)

lemma ReadFull_short: "length (inb c) < n \<Longrightarrow> \<exists>e. ReadFull n c = (Inl e, c\<lparr>inb := []\<rparr>)"
  by (simp add: ReadFull_def)

lemma ReadFull_Inr:
  "ReadFull n c = (Inr x, d) \<longleftrightarrow> length x = n \<and> inb c = x @ inb d \<and> d = c\<lparr>inb := inb d\<rparr>"
proof
  assume "ReadFull n c = (Inr x, d)"
  then show "length x = n \<and> inb c = x @ inb d \<and> d = c\<lparr>inb := inb d\<rparr>"
    by (auto simp: ReadFull_def split: if_splits)
next
  assume "length x = n \<and> inb c = x @ inb d \<and> d = c\<lparr>inb := inb d\<rparr>"
  then show "ReadFull n c = (Inr x, d)" using ReadFull_append [of x n c "inb d"] by simp
qed

lemma Write_unlimited: "room c = None \<Longrightarrow> Write bs c = (Inr (), c\<lparr>outb := outb c @ bs\<rparr>)"
  by (simp add: Write_def)

text \<open>Neither operation touches the other direction, and what is written is never taken back.\<close>

lemma Write_frame: "Write bs c = (r, d) \<Longrightarrow> inb d = inb c \<and> (\<exists>w. outb d = outb c @ w)"
  by (auto simp: Write_def split: option.splits if_splits)

lemma ReadFull_frame: "ReadFull n c = (r, d) \<Longrightarrow> outb d = outb c \<and> room d = room c"
  by (auto simp: ReadFull_def split: if_splits)

end
