(* ===== verification/Rpc_Frames.thy ===== *)
theory Rpc_Frames
  imports Go_IO
begin

text \<open>
  The two message formats of \<^verbatim>\<open>src/p2p/rpc\<close>: the canonical frame with its 32-bit length prefix
  (\<^verbatim>\<open>canonicalframe.go\<close>) and the protocol negotiation frame (\<^verbatim>\<open>negotiation.go\<close>).
\<close>

section \<open>Canonical frames\<close>

definition canonicalFrameLenPrefixSize :: nat where "canonicalFrameLenPrefixSize = 4"

text \<open>The conversion \<^verbatim>\<open>uint32(len(payload))\<close> keeps the low 32 bits of the length.\<close>

definition EncodeCanonicalFrame :: "bytes \<Rightarrow> bytes" where
  "EncodeCanonicalFrame payload = put_be32 (word_of_nat (length payload)) @ payload"

definition DecodeCanonicalFrame :: "bytes \<Rightarrow> go_error + bytes" where
  "DecodeCanonicalFrame frame =
     (if length frame < canonicalFrameLenPrefixSize
      then Inl (Errorf ''rpc: canonical frame too short (%d bytes, need at least %d for the length prefix)'')
      else
        let declaredLen = get_be32 (take canonicalFrameLenPrefixSize frame);
            payload = drop canonicalFrameLenPrefixSize frame in
        if unat declaredLen \<noteq> length payload
        then Inl (Errorf ''rpc: canonical frame declares payload length %d but %d bytes follow the length prefix'')
        else Inr payload)"

section \<open>Negotiation frames\<close>

definition negotiationFlagNone :: u8 where "negotiationFlagNone = 0"
definition negotiationFlagOptimistic :: u8 where "negotiationFlagOptimistic = 1"
definition negotiationFlagTerminate :: u8 where "negotiationFlagTerminate = 2"
definition negotiationFlagNotSupported :: u8 where "negotiationFlagNotSupported = 4"

lemmas negotiation_flags = negotiationFlagNone_def negotiationFlagOptimistic_def
  negotiationFlagTerminate_def negotiationFlagNotSupported_def

definition maxProtocolIDLen :: nat where "maxProtocolIDLen = 255"

definition encodeNegotiationFrame :: "u8 \<Rightarrow> bytes \<Rightarrow> go_error + bytes" where
  "encodeNegotiationFrame flags protocolID =
     (if length protocolID > maxProtocolIDLen
      then Inl (Errorf ''rpc: protocol id of %d bytes exceeds the maximum of %d'')
      else Inr ([word_of_nat (length protocolID)] @ [flags] @ protocolID))"

definition decodeNegotiationFrame :: "bytes \<Rightarrow> go_error + (u8 \<times> bytes)" where
  "decodeNegotiationFrame frame =
     (if length frame < 2
      then Inl (Errorf ''rpc: negotiation frame too short (%d bytes, need at least 2)'')
      else
        let len = frame ! 0; flags = frame ! 1; rest = drop 2 frame in
        if unat len \<noteq> length rest
        then Inl (Errorf ''rpc: negotiation frame declares protocol id length %d but %d bytes follow the header'')
        else Inr (flags, rest))"

fun bytesEqual_loop :: "bytes \<Rightarrow> bytes \<Rightarrow> bool" where
  "bytesEqual_loop (x # xs) (y # ys) = (if x \<noteq> y then False else bytesEqual_loop xs ys)"
| "bytesEqual_loop _ _ = True"

definition bytesEqual :: "bytes \<Rightarrow> bytes \<Rightarrow> bool" where
  "bytesEqual a b = (if length a \<noteq> length b then False else bytesEqual_loop a b)"

lemma bytesEqual_iff [simp]: "bytesEqual a b \<longleftrightarrow> a = b"
proof -
  have "length a = length b \<Longrightarrow> bytesEqual_loop a b \<longleftrightarrow> a = b"
    by (induction a b rule: bytesEqual_loop.induct) auto
  then show ?thesis by (auto simp: bytesEqual_def)
qed

section \<open>Both formats are canonical codecs\<close>

definition canonical_payload :: "bytes \<Rightarrow> bool" where
  "canonical_payload p \<longleftrightarrow> length p < 2 ^ 32"

lemma length_EncodeCanonicalFrame [wire_len]: "length (EncodeCanonicalFrame p) = 4 + length p"
  by (simp add: EncodeCanonicalFrame_def)

lemma canonical_length_word:
  "canonical_payload p \<Longrightarrow> unat (word_of_nat (length p) :: u32) = length p"
  by (simp add: canonical_payload_def unat_of_nat_u32)

interpretation canonical_frame: canonical_codec EncodeCanonicalFrame DecodeCanonicalFrame canonical_payload
proof
  fix p
  assume "canonical_payload p"
  then show "DecodeCanonicalFrame (EncodeCanonicalFrame p) = Inr p"
    by (simp add: DecodeCanonicalFrame_def EncodeCanonicalFrame_def canonicalFrameLenPrefixSize_def
        canonical_length_word)
next
  fix w p
  assume "DecodeCanonicalFrame w = Inr p"
  then have p: "p = drop 4 w" "4 \<le> length w" "unat (get_be32 w) = length p"
    by (auto simp: DecodeCanonicalFrame_def canonicalFrameLenPrefixSize_def get_be32_def Let_def
        split: if_splits)
  moreover have "canonical_payload p"
    using p(3) unat_u32_lt [of "get_be32 w"] unfolding canonical_payload_def by simp
  moreover have "put_be32 (word_of_nat (length p)) = take 4 w"
    using put_get(2) [OF p(2)] word_of_nat_unat [of "get_be32 w"] by (simp add: p(3))
  ultimately show "canonical_payload p \<and> EncodeCanonicalFrame p = w"
    by (simp add: EncodeCanonicalFrame_def)
qed

lemma negotiation_decode_encode:
  assumes "encodeNegotiationFrame flags pid = Inr frame"
  shows "decodeNegotiationFrame frame = Inr (flags, pid)"
  using assms
  by (auto simp: encodeNegotiationFrame_def decodeNegotiationFrame_def maxProtocolIDLen_def
      unat_of_nat_u8 split: if_splits)

lemma negotiation_encode_decode:
  assumes "decodeNegotiationFrame frame = Inr (flags, pid)"
  shows "encodeNegotiationFrame flags pid = Inr frame"
proof -
  have p: "2 \<le> length frame" "unat (frame ! 0) = length pid" "flags = frame ! 1" "pid = drop 2 frame"
    using assms by (auto simp: decodeNegotiationFrame_def Let_def split: if_splits)
  then have "length pid \<le> 255" using unat_u8_lt [of "frame ! 0"] by linarith
  moreover have "word_of_nat (length pid) = frame ! 0" using word_of_nat_unat [of "frame ! 0"] by (simp add: p(2))
  moreover have "frame = [frame ! 0] @ [frame ! 1] @ drop 2 frame"
    using p(1) by (cases frame; cases "tl frame") auto
  ultimately show ?thesis
    using p(3,4) by (simp add: encodeNegotiationFrame_def maxProtocolIDLen_def)
qed

definition negotiation_bytes :: "u8 \<times> bytes \<Rightarrow> bytes" where
  "negotiation_bytes fp = word_of_nat (length (snd fp)) # fst fp # snd fp"

definition negotiable :: "u8 \<times> bytes \<Rightarrow> bool" where
  "negotiable fp \<longleftrightarrow> length (snd fp) \<le> 255"

lemma encodeNegotiationFrame_Inr:
  "encodeNegotiationFrame flags pid = Inr frame \<longleftrightarrow>
     negotiable (flags, pid) \<and> frame = negotiation_bytes (flags, pid)"
  by (auto simp: encodeNegotiationFrame_def negotiable_def negotiation_bytes_def maxProtocolIDLen_def)

interpretation negotiation_frame: canonical_codec negotiation_bytes decodeNegotiationFrame negotiable
proof
  fix fp :: "u8 \<times> bytes"
  assume "negotiable fp"
  then show "decodeNegotiationFrame (negotiation_bytes fp) = Inr fp"
    using negotiation_decode_encode [of "fst fp" "snd fp"] by (simp add: encodeNegotiationFrame_Inr)
next
  fix w :: bytes and fp :: "u8 \<times> bytes"
  assume "decodeNegotiationFrame w = Inr fp"
  then show "negotiable fp \<and> negotiation_bytes fp = w"
    using negotiation_encode_decode [of w "fst fp" "snd fp"] by (simp add: encodeNegotiationFrame_Inr)
qed

section \<open>Properties\<close>

text \<open>
  A canonical frame is accepted exactly when it is the frame \<open>EncodeCanonicalFrame\<close> makes of the
  payload it yields, and the payload is then shorter than 4 GiB: a longer payload is encoded
  with a truncated length, and no frame decodes to it.
\<close>

theorem canonical_frame_exact:
  "DecodeCanonicalFrame frame = Inr payload \<longleftrightarrow>
     length payload < 2 ^ 32 \<and> frame = EncodeCanonicalFrame payload"
  using canonical_frame.dec_iff [of frame payload] by (simp add: canonical_payload_def)

text \<open>
  The negotiation frame codec is exact: parsing gives flags and a protocol id if and only if the
  frame is what \<open>encodeNegotiationFrame\<close> makes of them, and encoding fails exactly on protocol ids of
  more than 255 bytes.
\<close>

theorem negotiation_frame_exact:
  "(decodeNegotiationFrame frame = Inr (flags, pid) \<longleftrightarrow> encodeNegotiationFrame flags pid = Inr frame) \<and>
   ((\<exists>frame. encodeNegotiationFrame flags pid = Inr frame) \<longleftrightarrow> length pid \<le> 255)"
proof (rule conjI)
  show "decodeNegotiationFrame frame = Inr (flags, pid) \<longleftrightarrow> encodeNegotiationFrame flags pid = Inr frame"
    using negotiation_decode_encode negotiation_encode_decode by blast
  show "(\<exists>frame. encodeNegotiationFrame flags pid = Inr frame) \<longleftrightarrow> length pid \<le> 255"
    by (simp add: encodeNegotiationFrame_def maxProtocolIDLen_def)
qed

end
