(* ===== verification/Rpc_Transport.thy ===== *)
theory Rpc_Transport
  imports Rpc_Frames
begin

text \<open>
  The \<open>Transport\<close> interface of \<^verbatim>\<open>src/p2p/rpc/transport.go\<close> and its implementation over a raw byte
  stream, \<^verbatim>\<open>streamtransport.go\<close>. A Go interface value is a record of its methods over the state of
  the object behind it. The contract the RPC layer needs of any transport is the locale
  \<open>rpc_transport\<close>.
\<close>

section \<open>The interface\<close>

text \<open>\<open>beginCanonicalFraming\<close> is the method of the optional interface \<^verbatim>\<open>canonicalFramingSwitch\<close>; an
  implementation without it has \<open>None\<close>.\<close>

record 's transport =
  SendFrame :: "bytes \<Rightarrow> ('s, unit) io"
  ReceiveFrame :: "('s, bytes) io"
  canonicalFramingSwitch :: "('s \<Rightarrow> 's) option"

definition BeginCanonicalFraming :: "'s transport \<Rightarrow> ('s, unit) io" where
  "BeginCanonicalFraming T s =
     (case canonicalFramingSwitch T of
        Some beginCanonicalFraming \<Rightarrow> (Inr (), beginCanonicalFraming s)
      | None \<Rightarrow> (Inr (), s))"

section \<open>The stream transport\<close>

definition negotiationFrameHeaderSize :: nat where "negotiationFrameHeaderSize = 2"
definition canonicalFrameLenPrefixSizeOnStream :: nat where "canonicalFrameLenPrefixSizeOnStream = 4"

record streamTransport =
  stream :: conn
  canonical :: bool

definition on_stream :: "(conn, 'a) io \<Rightarrow> (streamTransport, 'a) io" where
  "on_stream m t = (case m (stream t) of (r, c) \<Rightarrow> (r, t\<lparr>stream := c\<rparr>))"

definition beginCanonicalFraming :: "streamTransport \<Rightarrow> streamTransport" where
  "beginCanonicalFraming t = t\<lparr>canonical := True\<rparr>"

definition streamTransport_SendFrame :: "bytes \<Rightarrow> (streamTransport, unit) io" where
  "streamTransport_SendFrame payload =
     wrap_err ''rpc: stream transport: writing frame'' (on_stream (Write payload))"

definition receiveNegotiationFrame :: "(streamTransport, bytes) io" where
  "receiveNegotiationFrame =
     io_bind (wrap_err ''rpc: stream transport: reading negotiation frame header''
                (on_stream (ReadFull negotiationFrameHeaderSize)))
       (\<lambda>header.
          let len = header ! 0 in
          if len = 0 then io_return header
          else
            io_bind (wrap_err ''rpc: stream transport: reading negotiation frame body (%d bytes)''
                       (on_stream (ReadFull (unat len))))
              (\<lambda>body. io_return (header @ body)))"

definition receiveCanonicalFrame :: "(streamTransport, bytes) io" where
  "receiveCanonicalFrame =
     io_bind (wrap_err ''rpc: stream transport: reading canonical frame length prefix''
                (on_stream (ReadFull canonicalFrameLenPrefixSizeOnStream)))
       (\<lambda>lenPrefix.
          let n = get_be32 lenPrefix in
          if n = 0 then io_return lenPrefix
          else
            io_bind (wrap_err ''rpc: stream transport: reading canonical frame payload (%d bytes)''
                       (on_stream (ReadFull (unat n))))
              (\<lambda>payload. io_return (lenPrefix @ payload)))"

definition streamTransport_ReceiveFrame :: "(streamTransport, bytes) io" where
  "streamTransport_ReceiveFrame t =
     (if canonical t then receiveCanonicalFrame t else receiveNegotiationFrame t)"

text \<open>The method table of \<^verbatim>\<open>*streamTransport\<close>, and the object \<^verbatim>\<open>NewStreamTransport\<close> makes.\<close>

definition stream_transport :: "streamTransport transport" where
  "stream_transport = \<lparr>SendFrame = streamTransport_SendFrame,
     ReceiveFrame = streamTransport_ReceiveFrame,
     canonicalFramingSwitch = Some beginCanonicalFraming\<rparr>"

definition NewStreamTransport :: "conn \<Rightarrow> streamTransport" where
  "NewStreamTransport c = \<lparr>stream = c, canonical = False\<rparr>"

section \<open>The contract\<close>

text \<open>
  \<open>view s c ins outs\<close> says that the transport state \<open>s\<close> expects negotiation frames (\<open>c\<close> false) or
  canonical frames (\<open>c\<close> true), that the messages \<open>ins\<close> are the next ones it will receive, and that
  \<open>outs\<close> are the messages sent on it so far. \<open>fits\<close> is the set of messages the transport can carry.
  One call moves one message.
\<close>

locale rpc_transport =
  fixes T :: "'s transport"
    and view :: "'s \<Rightarrow> bool \<Rightarrow> bytes list \<Rightarrow> bytes list \<Rightarrow> bool"
    and fits :: "bytes \<Rightarrow> bool"
  assumes send: "view s c ins outs \<Longrightarrow> fits m \<Longrightarrow>
      \<exists>s'. SendFrame T m s = (Inr (), s') \<and> view s' c ins (outs @ [m])"
    and receive_negotiation: "view s False (negotiation_bytes fp # ins) outs \<Longrightarrow> negotiable fp \<Longrightarrow>
      \<exists>s'. ReceiveFrame T s = (Inr (negotiation_bytes fp), s') \<and> view s' False ins outs"
    and receive_canonical: "view s True (EncodeCanonicalFrame p # ins) outs \<Longrightarrow> canonical_payload p \<Longrightarrow>
      \<exists>s'. ReceiveFrame T s = (Inr (EncodeCanonicalFrame p), s') \<and> view s' True ins outs"
    and receive_end: "view s c [] outs \<Longrightarrow> \<exists>e s'. ReceiveFrame T s = (Inl e, s')"
    and switch: "view s c ins outs \<Longrightarrow>
      \<exists>s'. BeginCanonicalFraming T s = (Inr (), s') \<and> view s' True ins outs"

section \<open>The stream transport keeps the contract\<close>

lemma on_stream_step:
  "m (stream t) = (r, c) \<Longrightarrow> on_stream m t = (r, t\<lparr>stream := c\<rparr>)"
  by (simp add: on_stream_def)

lemma receiveNegotiationFrame_ok:
  assumes "negotiable fp" "inb (stream t) = negotiation_bytes fp @ r"
  shows "receiveNegotiationFrame t = (Inr (negotiation_bytes fp), t\<lparr>stream := (stream t)\<lparr>inb := r\<rparr>\<rparr>)"
proof -
  obtain flags pid where fp: "fp = (flags, pid)" by (cases fp)
  let ?len = "word_of_nat (length pid) :: u8"
  have len: "unat ?len = length pid" using assms(1) by (simp add: fp negotiable_def unat_of_nat_u8)
  then have z: "?len = 0 \<longleftrightarrow> pid = []" by (metis length_0_conv unat_eq_0)
  have "ReadFull 2 (stream t) = (Inr [?len, flags], (stream t)\<lparr>inb := pid @ r\<rparr>)"
    using assms(2) by (intro ReadFull_append) (simp_all add: fp negotiation_bytes_def)
  with len z show ?thesis
    by (auto simp: receiveNegotiationFrame_def negotiationFrameHeaderSize_def io_bind_def wrap_err_def
        on_stream_def ReadFull_append fp negotiation_bytes_def)
qed

lemma receiveCanonicalFrame_ok:
  assumes "canonical_payload p" "inb (stream t) = EncodeCanonicalFrame p @ r"
  shows "receiveCanonicalFrame t = (Inr (EncodeCanonicalFrame p), t\<lparr>stream := (stream t)\<lparr>inb := r\<rparr>\<rparr>)"
proof -
  let ?n = "word_of_nat (length p) :: u32"
  have n: "unat ?n = length p" using canonical_length_word [OF assms(1)] .
  then have z: "?n = 0 \<longleftrightarrow> p = []" by (metis length_0_conv unat_eq_0)
  have "ReadFull 4 (stream t) = (Inr (put_be32 ?n), (stream t)\<lparr>inb := p @ r\<rparr>)"
    using assms(2) by (intro ReadFull_append) (simp_all add: EncodeCanonicalFrame_def)
  with n z show ?thesis
    by (auto simp: receiveCanonicalFrame_def canonicalFrameLenPrefixSizeOnStream_def io_bind_def
        wrap_err_def on_stream_def ReadFull_append EncodeCanonicalFrame_def)
qed

definition stream_view :: "streamTransport \<Rightarrow> bool \<Rightarrow> bytes list \<Rightarrow> bytes list \<Rightarrow> bool" where
  "stream_view t c ins outs \<longleftrightarrow>
     t = \<lparr>stream = \<lparr>inb = concat ins, outb = concat outs, room = None\<rparr>, canonical = c\<rparr>"

interpretation stream_rpc: rpc_transport stream_transport stream_view "\<lambda>_. True"
proof
  fix t c ins outs m p and fp :: "u8 \<times> bytes"
  show "\<exists>t'. SendFrame stream_transport m t = (Inr (), t') \<and> stream_view t' c ins (outs @ [m])"
    if "stream_view t c ins outs"
    using that
    by (simp add: stream_transport_def streamTransport_SendFrame_def wrap_err_def on_stream_def
        Write_unlimited stream_view_def)
  show "\<exists>t'. ReceiveFrame stream_transport t = (Inr (negotiation_bytes fp), t') \<and> stream_view t' False ins outs"
    if "stream_view t False (negotiation_bytes fp # ins) outs" "negotiable fp"
    using that receiveNegotiationFrame_ok [of fp t "concat ins"]
    by (simp add: stream_transport_def streamTransport_ReceiveFrame_def stream_view_def)
  show "\<exists>t'. ReceiveFrame stream_transport t = (Inr (EncodeCanonicalFrame p), t') \<and> stream_view t' True ins outs"
    if "stream_view t True (EncodeCanonicalFrame p # ins) outs" "canonical_payload p"
    using that receiveCanonicalFrame_ok [of p t "concat ins"]
    by (simp add: stream_transport_def streamTransport_ReceiveFrame_def stream_view_def)
  show "\<exists>e t'. ReceiveFrame stream_transport t = (Inl e, t')" if "stream_view t c [] outs"
    using that
    by (simp add: stream_transport_def streamTransport_ReceiveFrame_def stream_view_def
        receiveCanonicalFrame_def receiveNegotiationFrame_def io_bind_def wrap_err_def on_stream_def
        ReadFull_def canonicalFrameLenPrefixSizeOnStream_def negotiationFrameHeaderSize_def)
  show "\<exists>t'. BeginCanonicalFraming stream_transport t = (Inr (), t') \<and> stream_view t' True ins outs"
    if "stream_view t c ins outs"
    using that
    by (simp add: BeginCanonicalFraming_def stream_transport_def beginCanonicalFraming_def stream_view_def)
qed

end
