(* ===== verification/Proto_Messages.thy ===== *)
theory Proto_Messages
  imports Go_IO
begin

text \<open>
  The protobuf messages of \<^verbatim>\<open>src/p2p/proto\<close> as records, and the protobuf library as a parameter: a
  record of \<^verbatim>\<open>proto.Marshal\<close> and \<^verbatim>\<open>proto.Unmarshal\<close> at each message type the sources use. What the
  RPC layer relies on is the locale \<open>proto_codec\<close>.
\<close>

section \<open>Messages\<close>

record RpcRequest =
  req_RequestId :: u32
  req_Method :: u32
  req_Flags :: u32
  req_Deadline :: u64
  req_Payload :: bytes

record RpcResponse =
  resp_RequestId :: u32
  resp_Status :: u32
  resp_Flags :: u32
  resp_Payload :: bytes

record RpcSession =
  SupportedVersions :: "u32 list"

text \<open>The oneof of \<^verbatim>\<open>RpcSessionReply\<close>; \<open>None\<close> when neither alternative is set.\<close>

datatype SessionResult = AcceptedVersion u32 | Rejected bool

record RpcSessionReply =
  reply_SessionResult :: "SessionResult option"
  reply_RejectReason :: u32

record ChainMetadata =
  BestBlockHeight :: u64
  BestBlockHash :: bytes
  AccumulatedDifficultyLow :: bytes
  AccumulatedDifficultyHigh :: bytes
  PrunedHeight :: u64
  Timestamp :: u64

record pb_GetPeersRequest =
  pb_N :: u32
  pb_IncludeClients :: bool
  pb_MaxClaims :: u32
  pb_MaxAddressesPerClaim :: u32

record pb_IdentitySignature =
  sig_Version :: u32
  sig_Signature :: bytes
  sig_PublicNonce :: bytes
  sig_UpdatedAt :: u64

text \<open>A pointer field is an option; so are the elements of a slice of pointers.\<close>

record PeerIdentityClaim =
  claim_Addresses :: "bytes list"
  claim_PeerFeatures :: u32
  claim_IdentitySignature :: "pb_IdentitySignature option"

record pb_PeerInfo =
  peer_PublicKey :: bytes
  peer_Claims :: "PeerIdentityClaim option list"

record pb_GetPeersResponse =
  Peer :: "pb_PeerInfo option"

section \<open>The library\<close>

record proto_lib =
  Marshal_RpcSession :: "RpcSession \<Rightarrow> go_error + bytes"
  Unmarshal_RpcSession :: "bytes \<Rightarrow> go_error + RpcSession"
  Marshal_RpcSessionReply :: "RpcSessionReply \<Rightarrow> go_error + bytes"
  Unmarshal_RpcSessionReply :: "bytes \<Rightarrow> go_error + RpcSessionReply"
  Marshal_RpcRequest :: "RpcRequest \<Rightarrow> go_error + bytes"
  Unmarshal_RpcRequest :: "bytes \<Rightarrow> go_error + RpcRequest"
  Marshal_RpcResponse :: "RpcResponse \<Rightarrow> go_error + bytes"
  Unmarshal_RpcResponse :: "bytes \<Rightarrow> go_error + RpcResponse"
  Marshal_GetPeersRequest :: "pb_GetPeersRequest \<Rightarrow> go_error + bytes"
  Unmarshal_GetPeersRequest :: "bytes \<Rightarrow> go_error + pb_GetPeersRequest"
  Marshal_GetPeersResponse :: "pb_GetPeersResponse \<Rightarrow> go_error + bytes"
  Unmarshal_GetPeersResponse :: "bytes \<Rightarrow> go_error + pb_GetPeersResponse"
  Unmarshal_ChainMetadata :: "bytes \<Rightarrow> go_error + ChainMetadata"

text \<open>The empty message, which \<^verbatim>\<open>&pb.GetPeersRequest{}\<close> makes and the empty payload stands for.\<close>

definition empty_GetPeersRequest :: pb_GetPeersRequest where
  "empty_GetPeersRequest = \<lparr>pb_N = 0, pb_IncludeClients = False, pb_MaxClaims = 0,
     pb_MaxAddressesPerClaim = 0\<rparr>"

text \<open>A peer without a nil among its claims: the library writes a nil element of a repeated field
  as an empty message, so only such a peer comes back unchanged.\<close>

definition no_nil_claims :: "pb_PeerInfo option \<Rightarrow> bool" where
  "no_nil_claims p \<longleftrightarrow> (case p of None \<Rightarrow> True | Some i \<Rightarrow> None \<notin> set (peer_Claims i))"

text \<open>
  What is relied on: a message comes back from its encoding; the encodings of the small messages
  are small and those of a request and a response add at most 64 bytes to the payload; the empty
  message and only the empty message has the empty encoding, where the sources test for it.
\<close>

locale proto_codec =
  fixes P :: proto_lib
  assumes RpcSession_codec: "length (SupportedVersions m1) < 2 ^ 24 \<Longrightarrow> \<exists>b. Marshal_RpcSession P m1 = Inr b \<and> Unmarshal_RpcSession P b = Inr m1 \<and>
      length b \<le> 64 + 5 * length (SupportedVersions m1)"
    and RpcSessionReply_codec: "\<exists>b. Marshal_RpcSessionReply P m2 = Inr b \<and>
      Unmarshal_RpcSessionReply P b = Inr m2 \<and> length b \<le> 64"
    and RpcRequest_codec: "length (req_Payload m3) < 2 ^ 31 \<Longrightarrow> \<exists>b. Marshal_RpcRequest P m3 = Inr b \<and>
      Unmarshal_RpcRequest P b = Inr m3 \<and> length b \<le> 64 + length (req_Payload m3)"
    and RpcResponse_codec: "length (resp_Payload m4) < 2 ^ 31 \<Longrightarrow> \<exists>b. Marshal_RpcResponse P m4 = Inr b \<and>
      Unmarshal_RpcResponse P b = Inr m4 \<and> length b \<le> 64 + length (resp_Payload m4)"
    and GetPeersRequest_codec: "\<exists>b. Marshal_GetPeersRequest P m5 = Inr b \<and>
      Unmarshal_GetPeersRequest P b = Inr m5 \<and> length b \<le> 64 \<and> (b = [] \<longleftrightarrow> m5 = empty_GetPeersRequest)"
    and GetPeersResponse_codec: "no_nil_claims (Peer m6) \<Longrightarrow> Marshal_GetPeersResponse P m6 = Inr b \<Longrightarrow>
      length b < 2 ^ 31 \<Longrightarrow> Unmarshal_GetPeersResponse P b = Inr m6 \<and> (b = [] \<longleftrightarrow> Peer m6 = None)"

end
