(* ===== verification/Rpc_Session.thy ===== *)
theory Rpc_Session
  imports Rpc_Transport Proto_Messages
begin

text \<open>
  Protocol negotiation (\<^verbatim>\<open>src/p2p/rpc/negotiation.go\<close>) and the RPC session handshake
  (\<^verbatim>\<open>src/p2p/rpc/handshake.go\<close>), both sides, over any transport.
\<close>

section \<open>Protocol negotiation\<close>

definition ErrProtocolTerminated :: go_error where
  "ErrProtocolTerminated = Wrap ''rpc: peer terminated protocol negotiation'' ErrProtocolNotSupported"

definition NegotiateProtocol :: "'s transport \<Rightarrow> bytes \<Rightarrow> ('s, unit) io" where
  "NegotiateProtocol T protocolID =
     (case encodeNegotiationFrame negotiationFlagNone protocolID of
        Inl err \<Rightarrow> io_fail err
      | Inr outFrame \<Rightarrow>
          io_bind (wrap_err ''rpc: sending protocol negotiation frame'' (SendFrame T outFrame)) (\<lambda>_.
          io_bind (wrap_err ''rpc: receiving protocol negotiation reply'' (ReceiveFrame T)) (\<lambda>inFrame.
          io_bind (wrap_result ''rpc: parsing protocol negotiation reply'' (decodeNegotiationFrame inFrame))
            (\<lambda>(flags, echoedProtocol).
              if flags AND negotiationFlagTerminate \<noteq> 0 then io_fail ErrProtocolTerminated
              else if flags AND negotiationFlagNotSupported \<noteq> 0
              then io_fail (Wrap ''rpc: peer does not support protocol %q'' ErrProtocolNotSupported)
              else if \<not> bytesEqual echoedProtocol protocolID
              then io_fail (Wrap ''rpc: peer echoed unexpected protocol id %q (wanted %q)''
                              ErrProtocolNotSupported)
              else io_return ()))))"

text \<open>The search loop over the supported protocols stops at the first match.\<close>

fun supported_loop :: "bytes list \<Rightarrow> bytes \<Rightarrow> bool" where
  "supported_loop [] requested = False"
| "supported_loop (p # ps) requested = (if bytesEqual p requested then True else supported_loop ps requested)"

definition NegotiateProtocolInbound :: "'s transport \<Rightarrow> bytes list \<Rightarrow> ('s, bytes) io" where
  "NegotiateProtocolInbound T supportedProtocols =
     io_bind (wrap_err ''rpc: receiving protocol negotiation frame'' (ReceiveFrame T)) (\<lambda>inFrame.
     io_bind (wrap_result ''rpc: parsing protocol negotiation frame'' (decodeNegotiationFrame inFrame))
       (\<lambda>(_, requested).
         if \<not> supported_loop supportedProtocols requested then
           (case encodeNegotiationFrame negotiationFlagNotSupported [] of
              Inl err \<Rightarrow> io_fail err
            | Inr outFrame \<Rightarrow>
                io_bind (wrap_err ''rpc: sending NOT_SUPPORTED negotiation reply'' (SendFrame T outFrame))
                  (\<lambda>_. io_fail (Wrap ''rpc: peer requested unsupported protocol %q'' ErrProtocolNotSupported)))
         else
           (case encodeNegotiationFrame negotiationFlagNone requested of
              Inl err \<Rightarrow> io_fail err
            | Inr outFrame \<Rightarrow>
                io_bind (wrap_err ''rpc: sending negotiation success reply'' (SendFrame T outFrame))
                  (\<lambda>_. io_return requested))))"

section \<open>Session handshake\<close>

definition SupportedRPCVersion :: u32 where "SupportedRPCVersion = 0"

definition PerformSessionHandshake :: "proto_lib \<Rightarrow> 's transport \<Rightarrow> ('s, u32) io" where
  "PerformSessionHandshake P T =
     io_bind (wrap_result ''rpc: marshalling RpcSession''
                (Marshal_RpcSession P \<lparr>SupportedVersions = [SupportedRPCVersion]\<rparr>)) (\<lambda>sessionMsgBytes.
     io_bind (wrap_err ''rpc: sending RpcSession handshake frame''
                (SendFrame T (EncodeCanonicalFrame sessionMsgBytes))) (\<lambda>_.
     io_bind (wrap_err ''rpc: receiving RpcSessionReply'' (ReceiveFrame T)) (\<lambda>inFrame.
     io_bind (wrap_result ''rpc: decoding RpcSessionReply canonical frame'' (DecodeCanonicalFrame inFrame))
       (\<lambda>replyBytes.
     io_bind (wrap_result ''rpc: unmarshalling RpcSessionReply'' (Unmarshal_RpcSessionReply P replyBytes))
       (\<lambda>reply.
          case reply_SessionResult reply of
            Some (AcceptedVersion v) \<Rightarrow> io_return v
          | Some (Rejected rejected) \<Rightarrow>
              if \<not> rejected
              then io_fail (Errorf ''rpc: RpcSessionReply.session_result was Rejected(false), which is not a valid handshake outcome'')
              else io_fail (HandshakeRejectedError (reply_RejectReason reply))
          | None \<Rightarrow> io_fail (Errorf ''rpc: RpcSessionReply had neither accepted_version nor rejected set''))))))"

definition PerformSessionHandshakeResponder :: "proto_lib \<Rightarrow> 's transport \<Rightarrow> ('s, unit) io" where
  "PerformSessionHandshakeResponder P T =
     io_bind (wrap_err ''rpc: receiving RpcSession'' (ReceiveFrame T)) (\<lambda>inFrame.
     io_bind (wrap_result ''rpc: decoding RpcSession canonical frame'' (DecodeCanonicalFrame inFrame))
       (\<lambda>reqBytes.
     io_bind (wrap_result ''rpc: unmarshalling RpcSession'' (Unmarshal_RpcSession P reqBytes)) (\<lambda>_.
     io_bind (wrap_result ''rpc: marshalling RpcSessionReply''
                (Marshal_RpcSessionReply P
                   \<lparr>reply_SessionResult = Some (AcceptedVersion SupportedRPCVersion),
                    reply_RejectReason = 0\<rparr>)) (\<lambda>replyBytes.
     wrap_err ''rpc: sending RpcSessionReply'' (SendFrame T (EncodeCanonicalFrame replyBytes))))))"

definition RejectSessionHandshakeResponder :: "proto_lib \<Rightarrow> 's transport \<Rightarrow> u32 \<Rightarrow> ('s, unit) io" where
  "RejectSessionHandshakeResponder P T reason =
     io_bind (wrap_err ''rpc: receiving RpcSession'' (ReceiveFrame T)) (\<lambda>inFrame.
     io_bind (wrap_result ''rpc: decoding RpcSession canonical frame'' (DecodeCanonicalFrame inFrame)) (\<lambda>_.
     io_bind (wrap_result ''rpc: marshalling rejecting RpcSessionReply''
                (Marshal_RpcSessionReply P
                   \<lparr>reply_SessionResult = Some (Rejected True), reply_RejectReason = reason\<rparr>))
       (\<lambda>replyBytes.
     wrap_err ''rpc: sending rejecting RpcSessionReply'' (SendFrame T (EncodeCanonicalFrame replyBytes)))))"

section \<open>Negotiation over a transport that keeps the contract\<close>

definition negotiation_verdict :: "bytes \<Rightarrow> u8 \<Rightarrow> bytes \<Rightarrow> go_error + unit" where
  "negotiation_verdict protocolID flags echoed =
     (if bit flags 1 then Inl ErrProtocolTerminated
      else if bit flags 2
      then Inl (Wrap ''rpc: peer does not support protocol %q'' ErrProtocolNotSupported)
      else if echoed \<noteq> protocolID
      then Inl (Wrap ''rpc: peer echoed unexpected protocol id %q (wanted %q)'' ErrProtocolNotSupported)
      else Inr ())"

lemma flag_bits:
  "flags AND negotiationFlagTerminate = 0 \<longleftrightarrow> \<not> bit flags 1"
  "flags AND negotiationFlagNotSupported = 0 \<longleftrightarrow> \<not> bit flags 2"
proof -
  have *: "list_all (\<lambda>f. (f AND 2 = 0 \<longleftrightarrow> \<not> bit f 1) \<and> (f AND 4 = 0 \<longleftrightarrow> \<not> bit f 2)) all_bytes"
    by code_simp
  show "flags AND negotiationFlagTerminate = 0 \<longleftrightarrow> \<not> bit flags 1"
    "flags AND negotiationFlagNotSupported = 0 \<longleftrightarrow> \<not> bit flags 2"
    using * [folded byte_forall] by (auto simp: negotiation_flags)
qed

lemma supported_loop_iff [simp]: "supported_loop ps r \<longleftrightarrow> r \<in> set ps"
  by (induction ps) auto

context rpc_transport
begin

lemma negotiate_reply:
  assumes v: "view s False (negotiation_bytes (flags, echoed) # ins) outs"
    and ok: "negotiable (flags, echoed)" "length protocolID \<le> 255"
    and f: "fits (negotiation_bytes (0, protocolID))"
  shows "\<exists>s'. NegotiateProtocol T protocolID s = (negotiation_verdict protocolID flags echoed, s') \<and>
    view s' False ins (outs @ [negotiation_bytes (0, protocolID)])"
proof -
  obtain s1 where 1: "SendFrame T (negotiation_bytes (0, protocolID)) s = (Inr (), s1)"
    and v1: "view s1 False (negotiation_bytes (flags, echoed) # ins) (outs @ [negotiation_bytes (0, protocolID)])"
    using send [OF v f] by blast
  obtain s2 where 2: "ReceiveFrame T s1 = (Inr (negotiation_bytes (flags, echoed)), s2)"
    and v2: "view s2 False ins (outs @ [negotiation_bytes (0, protocolID)])"
    using receive_negotiation [OF v1 ok(1)] by blast
  have "encodeNegotiationFrame negotiationFlagNone protocolID = Inr (negotiation_bytes (0, protocolID))"
    using ok(2) by (simp add: encodeNegotiationFrame_Inr negotiable_def negotiationFlagNone_def)
  then have "NegotiateProtocol T protocolID s = (negotiation_verdict protocolID flags echoed, s2)"
    by (simp add: NegotiateProtocol_def io_simps 1 2 negotiation_frame.dec_enc [OF ok(1)] flag_bits
        negotiation_verdict_def)
  with v2 show ?thesis by blast
qed

lemma negotiate_inbound:
  assumes v: "view s False (negotiation_bytes (flags, requested) # ins) outs"
    and ok: "negotiable (flags, requested)"
    and f: "fits (negotiation_bytes (0, requested))" "fits (negotiation_bytes (4, []))"
  shows "\<exists>s'. NegotiateProtocolInbound T supported s =
      (if requested \<in> set supported then Inr requested
       else Inl (Wrap ''rpc: peer requested unsupported protocol %q'' ErrProtocolNotSupported), s') \<and>
    view s' False ins
      (outs @ [negotiation_bytes (if requested \<in> set supported then (0, requested) else (4, []))])"
proof -
  let ?reply = "negotiation_bytes (if requested \<in> set supported then (0, requested) else (4, []))"
  obtain s1 where 1: "ReceiveFrame T s = (Inr (negotiation_bytes (flags, requested)), s1)"
    and v1: "view s1 False ins outs"
    using receive_negotiation [OF v ok] by blast
  have fr: "fits ?reply" using f by simp
  obtain s2 where 2: "SendFrame T ?reply s1 = (Inr (), s2)" and v2: "view s2 False ins (outs @ [?reply])"
    using send [OF v1 fr] by blast
  have enc: "encodeNegotiationFrame negotiationFlagNone requested = Inr (negotiation_bytes (0, requested))"
    "encodeNegotiationFrame negotiationFlagNotSupported [] = Inr (negotiation_bytes (4, []))"
    using ok by (simp_all add: encodeNegotiationFrame_Inr negotiable_def negotiation_flags)
  have "NegotiateProtocolInbound T supported s =
      (if requested \<in> set supported then Inr requested
       else Inl (Wrap ''rpc: peer requested unsupported protocol %q'' ErrProtocolNotSupported), s2)"
    using 2 by (auto simp: NegotiateProtocolInbound_def io_simps 1 negotiation_frame.dec_enc [OF ok] enc)
  with v2 show ?thesis by blast
qed

end

section \<open>The handshake over a transport that keeps the contract\<close>

text \<open>The three messages of the handshake, as the library encodes them.\<close>

definition session_hello :: "proto_lib \<Rightarrow> bytes" where
  "session_hello P = (case Marshal_RpcSession P \<lparr>SupportedVersions = [0]\<rparr> of Inr b \<Rightarrow> b | Inl _ \<Rightarrow> [])"

definition session_reply :: "proto_lib \<Rightarrow> RpcSessionReply \<Rightarrow> bytes" where
  "session_reply P r = (case Marshal_RpcSessionReply P r of Inr b \<Rightarrow> b | Inl _ \<Rightarrow> [])"

definition session_verdict :: "RpcSessionReply \<Rightarrow> go_error + u32" where
  "session_verdict r =
     (case reply_SessionResult r of
        Some (AcceptedVersion v) \<Rightarrow> Inr v
      | Some (Rejected True) \<Rightarrow> Inl (HandshakeRejectedError (reply_RejectReason r))
      | Some (Rejected False) \<Rightarrow> Inl (Errorf ''rpc: RpcSessionReply.session_result was Rejected(false), which is not a valid handshake outcome'')
      | None \<Rightarrow> Inl (Errorf ''rpc: RpcSessionReply had neither accepted_version nor rejected set''))"

definition accept_reply :: RpcSessionReply where
  "accept_reply = \<lparr>reply_SessionResult = Some (AcceptedVersion 0), reply_RejectReason = 0\<rparr>"

definition reject_reply :: "u32 \<Rightarrow> RpcSessionReply" where
  "reject_reply reason = \<lparr>reply_SessionResult = Some (Rejected True), reply_RejectReason = reason\<rparr>"

context proto_codec
begin

lemma session_hello:
  "Marshal_RpcSession P \<lparr>SupportedVersions = [0]\<rparr> = Inr (session_hello P)"
  "Unmarshal_RpcSession P (session_hello P) = Inr \<lparr>SupportedVersions = [0]\<rparr>"
  "canonical_payload (session_hello P)"
  using RpcSession_codec [of "\<lparr>SupportedVersions = [0]\<rparr>"]
  by (auto simp: session_hello_def canonical_payload_def)

lemma session_reply:
  "Marshal_RpcSessionReply P r = Inr (session_reply P r)"
  "Unmarshal_RpcSessionReply P (session_reply P r) = Inr r"
  "canonical_payload (session_reply P r)"
  using RpcSessionReply_codec [of r] by (auto simp: session_reply_def canonical_payload_def)

end

locale rpc_endpoint = rpc_transport T view fits + proto_codec P
  for T :: "'s transport" and view fits and P :: proto_lib
begin

lemma handshake_client:
  assumes v: "view s True (EncodeCanonicalFrame (session_reply P r) # ins) outs"
    and f: "fits (EncodeCanonicalFrame (session_hello P))"
  shows "\<exists>s'. PerformSessionHandshake P T s = (session_verdict r, s') \<and>
    view s' True ins (outs @ [EncodeCanonicalFrame (session_hello P)])"
proof -
  obtain s1 where 1: "SendFrame T (EncodeCanonicalFrame (session_hello P)) s = (Inr (), s1)"
    and v1: "view s1 True (EncodeCanonicalFrame (session_reply P r) # ins)
      (outs @ [EncodeCanonicalFrame (session_hello P)])"
    using send [OF v f] by blast
  obtain s2 where 2: "ReceiveFrame T s1 = (Inr (EncodeCanonicalFrame (session_reply P r)), s2)"
    and v2: "view s2 True ins (outs @ [EncodeCanonicalFrame (session_hello P)])"
    using receive_canonical [OF v1 session_reply(3)] by blast
  have "PerformSessionHandshake P T s = (session_verdict r, s2)"
    by (simp add: PerformSessionHandshake_def io_simps SupportedRPCVersion_def session_hello(1) 1 2
        canonical_frame.dec_enc [OF session_reply(3)] session_reply(2) session_verdict_def
        split: option.split SessionResult.split)
  with v2 show ?thesis by blast
qed

lemma handshake_responder:
  assumes v: "view s True (EncodeCanonicalFrame (session_hello P) # ins) outs"
    and f: "fits (EncodeCanonicalFrame (session_reply P accept_reply))"
  shows "\<exists>s'. PerformSessionHandshakeResponder P T s = (Inr (), s') \<and>
    view s' True ins (outs @ [EncodeCanonicalFrame (session_reply P accept_reply)])"
proof -
  obtain s1 where 1: "ReceiveFrame T s = (Inr (EncodeCanonicalFrame (session_hello P)), s1)"
    and v1: "view s1 True ins outs"
    using receive_canonical [OF v session_hello(3)] by blast
  obtain s2 where 2: "SendFrame T (EncodeCanonicalFrame (session_reply P accept_reply)) s1 = (Inr (), s2)"
    and v2: "view s2 True ins (outs @ [EncodeCanonicalFrame (session_reply P accept_reply)])"
    using send [OF v1 f] by blast
  have "Marshal_RpcSessionReply P \<lparr>reply_SessionResult = Some (AcceptedVersion 0), reply_RejectReason = 0\<rparr>
      = Inr (session_reply P accept_reply)"
    using session_reply(1) [of accept_reply] by (simp only: accept_reply_def)
  then have "PerformSessionHandshakeResponder P T s = (Inr (), s2)"
    by (simp add: PerformSessionHandshakeResponder_def io_simps SupportedRPCVersion_def 1 2
        canonical_frame.dec_enc [OF session_hello(3)] session_hello(2))
  with v2 show ?thesis by blast
qed

end

end
