(* ===== verification/Rpc_Get_Peers.thy ===== *)
theory Rpc_Get_Peers
  imports Rpc_Session
begin

text \<open>
  The two RPC calls of the client, \<^verbatim>\<open>src/p2p/rpc/chainmetadata.go\<close> and \<^verbatim>\<open>dht_getpeers.go\<close>, and the
  server side of get_peers, \<^verbatim>\<open>dht_getpeers_responder.go\<close>.
\<close>

section \<open>Constants\<close>

definition BlockSyncProtocolID :: bytes where "BlockSyncProtocolID = string_bytes ''t/blksync/1''"
definition getChainMetadataMethod :: u32 where "getChainMetadataMethod = 5"
definition defaultRequestID :: u32 where "defaultRequestID = 1"
definition defaultRPCDeadlineSeconds :: u64 where "defaultRPCDeadlineSeconds = 20"
definition DhtProtocolID :: bytes where "DhtProtocolID = string_bytes ''t/dht/1''"
definition getPeersMethod :: u32 where "getPeersMethod = 10"
definition rpcResponseFlagFIN :: u32 where "rpcResponseFlagFIN = 1"
definition maxGetPeersStreamIterations :: nat where "maxGetPeersStreamIterations = 100000"

section \<open>GetChainMetadata\<close>

text \<open>The context is consulted once, at the start: \<open>ctxDone\<close> says whether it is already done.\<close>

definition GetChainMetadata :: "proto_lib \<Rightarrow> bool \<Rightarrow> 's transport \<Rightarrow> ('s, ChainMetadata) io" where
  "GetChainMetadata P ctxDone T =
     (if ctxDone
      then io_fail (Wrap ''rpc: context done before starting get_chain_metadata'' ContextError)
      else
        io_bind (wrap_err ''rpc: negotiating protocol %q'' (NegotiateProtocol T BlockSyncProtocolID)) (\<lambda>_.
        io_bind (BeginCanonicalFraming T) (\<lambda>_.
        io_bind (wrap_err ''rpc: performing RPC session handshake'' (PerformSessionHandshake P T)) (\<lambda>_.
        io_bind (wrap_result ''rpc: marshalling get_chain_metadata RpcRequest''
                   (Marshal_RpcRequest P
                      \<lparr>req_RequestId = defaultRequestID, req_Method = getChainMetadataMethod,
                       req_Flags = 0, req_Deadline = defaultRPCDeadlineSeconds, req_Payload = []\<rparr>))
          (\<lambda>reqBytes.
        io_bind (wrap_err ''rpc: sending get_chain_metadata RpcRequest''
                   (SendFrame T (EncodeCanonicalFrame reqBytes))) (\<lambda>_.
        io_bind (wrap_err ''rpc: receiving get_chain_metadata RpcResponse'' (ReceiveFrame T)) (\<lambda>inFrame.
        io_bind (wrap_result ''rpc: decoding get_chain_metadata RpcResponse canonical frame''
                   (DecodeCanonicalFrame inFrame)) (\<lambda>respBytes.
        io_bind (wrap_result ''rpc: unmarshalling get_chain_metadata RpcResponse''
                   (Unmarshal_RpcResponse P respBytes)) (\<lambda>resp.
          if resp_Status resp \<noteq> 0 then io_fail (RPCStatusError (resp_Status resp))
          else wrap_result ''rpc: unmarshalling ChainMetadata payload''
                 (Unmarshal_ChainMetadata P (resp_Payload resp)))))))))))"

section \<open>GetPeers\<close>

record GetPeersRequest =
  gp_N :: u32
  gp_IncludeClients :: bool
  gp_MaxClaims :: u32
  gp_MaxAddressesPerClaim :: u32

text \<open>What one response with status zero adds to the peers collected so far.\<close>

definition collect_peer :: "proto_lib \<Rightarrow> RpcResponse \<Rightarrow> pb_PeerInfo list \<Rightarrow> ('s, pb_PeerInfo list) io" where
  "collect_peer P resp peers =
     (if length (resp_Payload resp) > 0 then
        io_bind (wrap_result ''rpc: unmarshalling GetPeersResponse payload''
                   (Unmarshal_GetPeersResponse P (resp_Payload resp))) (\<lambda>getPeersResp.
          case Peer getPeersResp of
            Some peer \<Rightarrow> io_return (peers @ [peer])
          | None \<Rightarrow> io_return peers)
      else io_return peers)"

text \<open>The receive loop, with its counter and the peers collected so far.\<close>

function get_peers_loop ::
    "proto_lib \<Rightarrow> 's transport \<Rightarrow> nat \<Rightarrow> pb_PeerInfo list \<Rightarrow> ('s, pb_PeerInfo list) io" where
  "get_peers_loop P T i peers =
     (if i \<ge> maxGetPeersStreamIterations
      then io_fail (Errorf ''rpc: get_peers stream exceeded max iterations without FIN'')
      else
        io_bind (wrap_err ''rpc: receiving get_peers RpcResponse'' (ReceiveFrame T)) (\<lambda>inFrame.
        io_bind (wrap_result ''rpc: decoding get_peers RpcResponse canonical frame''
                   (DecodeCanonicalFrame inFrame)) (\<lambda>respBytes.
        io_bind (wrap_result ''rpc: unmarshalling get_peers RpcResponse''
                   (Unmarshal_RpcResponse P respBytes)) (\<lambda>resp.
          if resp_Status resp \<noteq> 0 then io_fail (RPCStatusError (resp_Status resp))
          else
            io_bind (collect_peer P resp peers)
              (\<lambda>peers'.
                 if resp_Flags resp AND rpcResponseFlagFIN \<noteq> 0 then io_return peers'
                 else get_peers_loop P T (i + 1) peers')))))"
  by pat_completeness auto
termination
  by (relation "measure (\<lambda>(P, T, i, peers). maxGetPeersStreamIterations - i)") auto

declare get_peers_loop.simps [simp del]

definition GetPeers ::
    "proto_lib \<Rightarrow> bool \<Rightarrow> 's transport \<Rightarrow> GetPeersRequest \<Rightarrow> ('s, pb_PeerInfo list) io" where
  "GetPeers P ctxDone T req =
     (if ctxDone
      then io_fail (Wrap ''rpc: context done before starting get_peers'' ContextError)
      else
        io_bind (wrap_err ''rpc: negotiating protocol %q'' (NegotiateProtocol T DhtProtocolID)) (\<lambda>_.
        io_bind (BeginCanonicalFraming T) (\<lambda>_.
        io_bind (wrap_err ''rpc: performing RPC session handshake'' (PerformSessionHandshake P T)) (\<lambda>_.
        io_bind (wrap_result ''rpc: marshalling get_peers GetPeersRequest''
                   (Marshal_GetPeersRequest P
                      \<lparr>pb_N = gp_N req, pb_IncludeClients = gp_IncludeClients req,
                       pb_MaxClaims = gp_MaxClaims req,
                       pb_MaxAddressesPerClaim = gp_MaxAddressesPerClaim req\<rparr>)) (\<lambda>payloadBytes.
        io_bind (wrap_result ''rpc: marshalling get_peers RpcRequest''
                   (Marshal_RpcRequest P
                      \<lparr>req_RequestId = defaultRequestID, req_Method = getPeersMethod, req_Flags = 0,
                       req_Deadline = defaultRPCDeadlineSeconds, req_Payload = payloadBytes\<rparr>))
          (\<lambda>rpcReqBytes.
        io_bind (wrap_err ''rpc: sending get_peers RpcRequest''
                   (SendFrame T (EncodeCanonicalFrame rpcReqBytes))) (\<lambda>_.
        get_peers_loop P T 0 [])))))))"

section \<open>Bounding what is served\<close>

text \<open>The comparisons convert the length to \<^verbatim>\<open>uint32\<close>, as the code does.\<close>

definition bounded_count :: "nat \<Rightarrow> u32 \<Rightarrow> nat" where
  "bounded_count n maximum =
     (if maximum > 0 \<and> (word_of_nat n :: u32) > maximum then unat maximum else n)"

definition boundClaimAddresses :: "PeerIdentityClaim option \<Rightarrow> u32 \<Rightarrow> PeerIdentityClaim option" where
  "boundClaimAddresses claim maxAddressesPerClaim =
     (case claim of
        None \<Rightarrow> None
      | Some c \<Rightarrow>
          let addresses = claim_Addresses c;
              numAddresses = bounded_count (length addresses) maxAddressesPerClaim
          in Some \<lparr>claim_Addresses = take numAddresses addresses,
                   claim_PeerFeatures = claim_PeerFeatures c,
                   claim_IdentitySignature = claim_IdentitySignature c\<rparr>)"

definition boundPeerClaims :: "pb_PeerInfo option \<Rightarrow> u32 \<Rightarrow> u32 \<Rightarrow> pb_PeerInfo option" where
  "boundPeerClaims peer maxClaims maxAddressesPerClaim =
     (case peer of
        None \<Rightarrow> None
      | Some p \<Rightarrow>
          let claims = peer_Claims p;
              numClaims = bounded_count (length claims) maxClaims
          in Some \<lparr>peer_PublicKey = peer_PublicKey p,
                   peer_Claims = map (\<lambda>c. boundClaimAddresses c maxAddressesPerClaim)
                                   (take numClaims claims)\<rparr>)"

definition boundPeersForRequest ::
    "pb_PeerInfo option list \<Rightarrow> pb_GetPeersRequest \<Rightarrow> pb_PeerInfo option list" where
  "boundPeersForRequest peers req =
     (let n = bounded_count (length peers) (pb_N req)
      in map (\<lambda>p. boundPeerClaims p (pb_MaxClaims req) (pb_MaxAddressesPerClaim req)) (take n peers))"

section \<open>ServeGetPeers\<close>

text \<open>The loop that streams the bounded list, with the index and the length it compares it to.\<close>

fun send_peers_loop ::
    "proto_lib \<Rightarrow> 's transport \<Rightarrow> u32 \<Rightarrow> nat \<Rightarrow> nat \<Rightarrow> pb_PeerInfo option list \<Rightarrow> ('s, unit) io" where
  "send_peers_loop P T requestId count i [] = io_return ()"
| "send_peers_loop P T requestId count i (peer # rest) =
     io_bind (wrap_result ''rpc: marshalling GetPeersResponse payload for peer %d''
                (Marshal_GetPeersResponse P \<lparr>Peer = peer\<rparr>)) (\<lambda>payload.
     let flags = (if i = count - 1 then rpcResponseFlagFIN else 0) in
     io_bind (wrap_result ''rpc: marshalling get_peers RpcResponse for peer %d''
                (Marshal_RpcResponse P
                   \<lparr>resp_RequestId = requestId, resp_Status = 0, resp_Flags = flags,
                    resp_Payload = payload\<rparr>)) (\<lambda>respBytes.
     io_bind (wrap_err ''rpc: sending get_peers RpcResponse for peer %d''
                (SendFrame T (EncodeCanonicalFrame respBytes))) (\<lambda>_.
     send_peers_loop P T requestId count (i + 1) rest)))"

text \<open>The request's own payload; an empty one is the empty request.\<close>

definition decode_request :: "proto_lib \<Rightarrow> RpcRequest \<Rightarrow> ('s, pb_GetPeersRequest) io" where
  "decode_request P rpcReq =
     (if length (req_Payload rpcReq) > 0
      then wrap_result ''rpc: unmarshalling GetPeersRequest payload''
             (Unmarshal_GetPeersRequest P (req_Payload rpcReq))
      else io_return empty_GetPeersRequest)"

definition ServeGetPeers :: "proto_lib \<Rightarrow> 's transport \<Rightarrow> pb_PeerInfo option list \<Rightarrow> ('s, unit) io" where
  "ServeGetPeers P T peers =
     io_bind (wrap_err ''rpc: negotiating protocol %q as responder''
                (NegotiateProtocolInbound T [DhtProtocolID])) (\<lambda>_.
     io_bind (BeginCanonicalFraming T) (\<lambda>_.
     io_bind (wrap_err ''rpc: performing RPC session handshake as responder''
                (PerformSessionHandshakeResponder P T)) (\<lambda>_.
     io_bind (wrap_err ''rpc: receiving get_peers RpcRequest'' (ReceiveFrame T)) (\<lambda>inFrame.
     io_bind (wrap_result ''rpc: decoding get_peers RpcRequest canonical frame''
                (DecodeCanonicalFrame inFrame)) (\<lambda>reqBytes.
     io_bind (wrap_result ''rpc: unmarshalling get_peers RpcRequest'' (Unmarshal_RpcRequest P reqBytes))
       (\<lambda>rpcReq.
     io_bind (decode_request P rpcReq) (\<lambda>getPeersReq.
     let bounded = boundPeersForRequest peers getPeersReq in
     if length bounded = 0 then
       io_bind (wrap_result ''rpc: marshalling empty get_peers RpcResponse''
                  (Marshal_RpcResponse P
                     \<lparr>resp_RequestId = req_RequestId rpcReq, resp_Status = 0,
                      resp_Flags = rpcResponseFlagFIN, resp_Payload = []\<rparr>)) (\<lambda>respBytes.
       wrap_err ''rpc: sending empty get_peers RpcResponse'' (SendFrame T (EncodeCanonicalFrame respBytes)))
     else send_peers_loop P T (req_RequestId rpcReq) (length bounded) 0 bounded)))))))"

section \<open>What the stream of responses means\<close>

text \<open>The peers one response contributes.\<close>

definition response_peers :: "proto_lib \<Rightarrow> RpcResponse \<Rightarrow> go_error + pb_PeerInfo list" where
  "response_peers P r =
     (if resp_Payload r = [] then Inr []
      else case Unmarshal_GetPeersResponse P (resp_Payload r) of
        Inl e \<Rightarrow> Inl (Wrap ''rpc: unmarshalling GetPeersResponse payload'' e)
      | Inr m \<Rightarrow> Inr (case Peer m of None \<Rightarrow> [] | Some p \<Rightarrow> [p]))"

lemma collect_peer_step:
  "collect_peer P r acc s = (case response_peers P r of Inl e \<Rightarrow> (Inl e, s) | Inr ps \<Rightarrow> (Inr (acc @ ps), s))"
  by (auto simp: collect_peer_def response_peers_def io_bind_def split: sum.split option.split)

text \<open>
  The verdict on a sequence of responses, at most \<open>k\<close> of them: a bad status or payload ends it with
  that error, a FIN ends it with the peers so far, and \<open>k\<close> responses without either are one too
  many. \<open>None\<close>: the sequence ends before a verdict.
\<close>

fun stream_verdict :: "proto_lib \<Rightarrow> nat \<Rightarrow> pb_PeerInfo list \<Rightarrow> RpcResponse list
    \<Rightarrow> (go_error + pb_PeerInfo list) option" where
  "stream_verdict P 0 acc rs =
     Some (Inl (Errorf ''rpc: get_peers stream exceeded max iterations without FIN''))"
| "stream_verdict P (Suc k) acc [] = None"
| "stream_verdict P (Suc k) acc (r # rs) =
     (if resp_Status r \<noteq> 0 then Some (Inl (RPCStatusError (resp_Status r)))
      else case response_peers P r of
        Inl e \<Rightarrow> Some (Inl e)
      | Inr ps \<Rightarrow>
          if bit (resp_Flags r) 0 then Some (Inr (acc @ ps))
          else stream_verdict P k (acc @ ps) rs)"

lemma fin_bit: "flags AND rpcResponseFlagFIN = 0 \<longleftrightarrow> \<not> bit flags 0"
  by (simp add: rpcResponseFlagFIN_def and_one_eq bit_0 odd_iff_mod_2_eq_one even_iff_mod_2_eq_zero)

text \<open>A response as the client finds it on the wire.\<close>

definition carries :: "proto_lib \<Rightarrow> RpcResponse \<Rightarrow> bytes \<Rightarrow> bool" where
  "carries P r frame \<longleftrightarrow>
     (\<exists>b. frame = EncodeCanonicalFrame b \<and> canonical_payload b \<and> Unmarshal_RpcResponse P b = Inr r)"

context rpc_transport
begin

lemma get_peers_loop_verdict:
  assumes "view s True frames outs" "list_all2 (carries P) rs frames"
    and "stream_verdict P k acc rs = Some res" "i + k = maxGetPeersStreamIterations"
  shows "\<exists>s' rest. get_peers_loop P T i acc s = (res, s') \<and> view s' True rest outs"
  using assms
proof (induction P k acc rs arbitrary: s frames i rule: stream_verdict.induct)
  case (1 P acc rs)
  then show ?case by (auto simp: get_peers_loop.simps)
next
  case (3 P k acc r rs)
  from "3.prems"(2) obtain fr0 frs where c: "frames = fr0 # frs" "carries P r fr0" "list_all2 (carries P) rs frs"
    by (auto simp: list_all2_Cons1)
  then obtain b where fr: "frames = EncodeCanonicalFrame b # frs" "canonical_payload b"
      "Unmarshal_RpcResponse P b = Inr r"
    by (auto simp: carries_def)
  obtain s1 where recv: "ReceiveFrame T s = (Inr (EncodeCanonicalFrame b), s1)" and v1: "view s1 True frs outs"
    using receive_canonical [OF "3.prems"(1) [unfolded fr(1)] fr(2)] by blast
  have i: "\<not> i \<ge> maxGetPeersStreamIterations" using "3.prems"(4) by simp
  note step = get_peers_loop.simps [of P T i acc] i recv canonical_frame.dec_enc [OF fr(2)] fr(3)
  show ?case
  proof (cases "resp_Status r = 0")
    case True
    show ?thesis
    proof (cases "response_peers P r")
      case (Inl e)
      then have "collect_peer P r acc s1 = (Inl e, s1)" by (simp add: collect_peer_step)
      moreover have "res = Inl e" using True Inl "3.prems"(3) by simp
      ultimately show ?thesis using True step v1 by (auto simp: io_simps)
    next
      case (Inr ps)
      then have body: "collect_peer P r acc s1 = (Inr (acc @ ps), s1)" by (simp add: collect_peer_step)
      show ?thesis
      proof (cases "bit (resp_Flags r) 0")
        case fin: True
        with True Inr "3.prems"(3) have "res = Inr (acc @ ps)" by simp
        with True fin step body v1 show ?thesis by (auto simp: io_simps fin_bit)
      next
        case nofin: False
        then have "\<exists>s' rest. get_peers_loop P T (i + 1) (acc @ ps) s1 = (res, s') \<and> view s' True rest outs"
          using "3.IH" [OF _ Inr nofin v1 c(3)] True Inr "3.prems"(3,4) by simp
        with True nofin step body show ?thesis by (simp add: io_simps fin_bit)
      qed
    qed
  next
    case False
    with "3.prems"(3) have "res = Inl (RPCStatusError (resp_Status r))" by simp
    with False step v1 show ?thesis by (auto simp: io_simps)
  qed
qed simp

end

section \<open>The messages of one call\<close>

definition peer_payload :: "proto_lib \<Rightarrow> pb_PeerInfo option \<Rightarrow> bytes" where
  "peer_payload P peer = (case Marshal_GetPeersResponse P \<lparr>Peer = peer\<rparr> of Inr b \<Rightarrow> b | Inl _ \<Rightarrow> [])"

definition response_bytes :: "proto_lib \<Rightarrow> RpcResponse \<Rightarrow> bytes" where
  "response_bytes P r = (case Marshal_RpcResponse P r of Inr b \<Rightarrow> b | Inl _ \<Rightarrow> [])"

text \<open>A peer the server can send: it encodes, to less than 2 GiB, and comes back unchanged.\<close>

definition sendable :: "proto_lib \<Rightarrow> pb_PeerInfo option \<Rightarrow> bool" where
  "sendable P peer \<longleftrightarrow> no_nil_claims peer \<and>
     (\<exists>b. Marshal_GetPeersResponse P \<lparr>Peer = peer\<rparr> = Inr b \<and> length b < 2 ^ 31)"

definition response_for :: "proto_lib \<Rightarrow> u32 \<Rightarrow> bool \<Rightarrow> bytes \<Rightarrow> RpcResponse" where
  "response_for P requestId fin payload = \<lparr>resp_RequestId = requestId, resp_Status = 0,
     resp_Flags = (if fin then 1 else 0), resp_Payload = payload\<rparr>"

fun responses_for :: "proto_lib \<Rightarrow> u32 \<Rightarrow> pb_PeerInfo option list \<Rightarrow> RpcResponse list" where
  "responses_for P requestId [] = [response_for P requestId True []]"
| "responses_for P requestId [p] = [response_for P requestId True (peer_payload P p)]"
| "responses_for P requestId (p # ps) =
     response_for P requestId False (peer_payload P p) # responses_for P requestId ps"

definition response_frames :: "proto_lib \<Rightarrow> u32 \<Rightarrow> pb_PeerInfo option list \<Rightarrow> bytes list" where
  "response_frames P requestId ps =
     map (\<lambda>r. EncodeCanonicalFrame (response_bytes P r)) (responses_for P requestId ps)"

definition wire_request :: "GetPeersRequest \<Rightarrow> pb_GetPeersRequest" where
  "wire_request req = \<lparr>pb_N = gp_N req, pb_IncludeClients = gp_IncludeClients req,
     pb_MaxClaims = gp_MaxClaims req, pb_MaxAddressesPerClaim = gp_MaxAddressesPerClaim req\<rparr>"

definition request_payload :: "proto_lib \<Rightarrow> GetPeersRequest \<Rightarrow> bytes" where
  "request_payload P req = (case Marshal_GetPeersRequest P (wire_request req) of Inr b \<Rightarrow> b | Inl _ \<Rightarrow> [])"

definition get_peers_rpc :: "proto_lib \<Rightarrow> GetPeersRequest \<Rightarrow> RpcRequest" where
  "get_peers_rpc P req = \<lparr>req_RequestId = 1, req_Method = 10, req_Flags = 0, req_Deadline = 20,
     req_Payload = request_payload P req\<rparr>"

definition request_bytes :: "proto_lib \<Rightarrow> GetPeersRequest \<Rightarrow> bytes" where
  "request_bytes P req = (case Marshal_RpcRequest P (get_peers_rpc P req) of Inr b \<Rightarrow> b | Inl _ \<Rightarrow> [])"

definition client_frames :: "proto_lib \<Rightarrow> GetPeersRequest \<Rightarrow> bytes list" where
  "client_frames P req = [negotiation_bytes (0, DhtProtocolID), EncodeCanonicalFrame (session_hello P),
     EncodeCanonicalFrame (request_bytes P req)]"

definition server_frames :: "proto_lib \<Rightarrow> GetPeersRequest \<Rightarrow> pb_PeerInfo option list \<Rightarrow> bytes list" where
  "server_frames P req peers = [negotiation_bytes (0, DhtProtocolID),
     EncodeCanonicalFrame (session_reply P accept_reply)]
     @ response_frames P 1 (boundPeersForRequest peers (wire_request req))"

context proto_codec
begin

lemma sendable_payload:
  assumes "sendable P peer"
  shows "Marshal_GetPeersResponse P \<lparr>Peer = peer\<rparr> = Inr (peer_payload P peer)"
    and "length (peer_payload P peer) < 2 ^ 31"
    and "response_peers P (response_for P i fin (peer_payload P peer)) =
      Inr (case peer of None \<Rightarrow> [] | Some p \<Rightarrow> [p])"
proof -
  show *: "Marshal_GetPeersResponse P \<lparr>Peer = peer\<rparr> = Inr (peer_payload P peer)"
    "length (peer_payload P peer) < 2 ^ 31"
    using assms by (auto simp: sendable_def peer_payload_def)
  from GetPeersResponse_codec [OF _ *] assms
  show "response_peers P (response_for P i fin (peer_payload P peer)) =
      Inr (case peer of None \<Rightarrow> [] | Some p \<Rightarrow> [p])"
    by (simp add: response_peers_def response_for_def sendable_def)
qed

lemma response_bytes:
  assumes "length (resp_Payload r) < 2 ^ 31"
  shows "Marshal_RpcResponse P r = Inr (response_bytes P r)"
    and "Unmarshal_RpcResponse P (response_bytes P r) = Inr r"
    and "canonical_payload (response_bytes P r)"
  using RpcResponse_codec [OF assms] assms by (auto simp: response_bytes_def canonical_payload_def)

lemma carries_responses:
  assumes "list_all (sendable P) ps"
  shows "list_all2 (carries P) (responses_for P i ps) (response_frames P i ps)"
proof -
  have "list_all (\<lambda>r. length (resp_Payload r) < 2 ^ 31) (responses_for P i ps)"
    using assms
    by (induction P i ps rule: responses_for.induct)
      (auto simp: response_for_def sendable_def peer_payload_def)
  then show ?thesis
    using response_bytes by (auto simp: response_frames_def list_all2_map2 list_all2_same carries_def list_all_iff)
qed

text \<open>The client's verdict on what the server streams is the list of peers itself.\<close>

lemma responses_verdict:
  assumes "list_all (sendable P) ps" "length ps \<le> k" "0 < k"
  shows "stream_verdict P k acc (responses_for P i ps) = Some (Inr (acc @ List.map_filter id ps))"
  using assms
proof (induction ps arbitrary: acc k rule: induct_list012)
  case 1
  then show ?case
    by (cases k) (simp_all add: response_for_def response_peers_def map_filter_simps)
next
  case (2 p)
  then show ?case
    using sendable_payload(3) [of p i True]
    by (cases k) (auto simp: map_filter_simps response_for_def split: option.splits)
next
  case (3 p q ps)
  then obtain k' where "k = Suc k'" "0 < k'" by (cases k) auto
  with 3 show ?case
    using sendable_payload(3) [of p i False]
    by (auto simp: map_filter_simps response_for_def split: option.splits)
qed

lemma request_payload:
  "Marshal_GetPeersRequest P (wire_request req) = Inr (request_payload P req)"
  "Unmarshal_GetPeersRequest P (request_payload P req) = Inr (wire_request req)"
  "request_payload P req = [] \<longleftrightarrow> wire_request req = empty_GetPeersRequest"
  "length (request_payload P req) \<le> 64"
  using GetPeersRequest_codec [of "wire_request req"] by (auto simp: request_payload_def)

lemma request_bytes:
  "Marshal_RpcRequest P (get_peers_rpc P req) = Inr (request_bytes P req)"
  "Unmarshal_RpcRequest P (request_bytes P req) = Inr (get_peers_rpc P req)"
  "canonical_payload (request_bytes P req)"
  using RpcRequest_codec [of "get_peers_rpc P req"] request_payload(4) [of req]
  by (auto simp: request_bytes_def get_peers_rpc_def canonical_payload_def)

end

section \<open>Client and server over a transport that keeps the contract\<close>

lemma dht_negotiable: "negotiable (f, DhtProtocolID)" "length DhtProtocolID \<le> 255"
  by (simp_all add: negotiable_def DhtProtocolID_def string_bytes_def)

context rpc_endpoint
begin

lemma get_peers_client:
  assumes v: "view s False ([negotiation_bytes (0, DhtProtocolID),
        EncodeCanonicalFrame (session_reply P accept_reply)] @ frames) []"
    and f: "list_all fits (client_frames P req)"
    and rs: "list_all2 (carries P) rs frames"
    and res: "stream_verdict P maxGetPeersStreamIterations [] rs = Some res"
  shows "\<exists>s' rest. GetPeers P False T req s = (res, s') \<and> view s' True rest (client_frames P req)"
proof -
  obtain s1 where 1: "NegotiateProtocol T DhtProtocolID s = (Inr (), s1)"
    and v1: "view s1 False (EncodeCanonicalFrame (session_reply P accept_reply) # frames)
      [negotiation_bytes (0, DhtProtocolID)]"
    using negotiate_reply [of s 0 DhtProtocolID _ "[]" DhtProtocolID] v f dht_negotiable
    by (auto simp: client_frames_def negotiation_verdict_def)
  obtain s2 where 2: "BeginCanonicalFraming T s1 = (Inr (), s2)"
    and v2: "view s2 True (EncodeCanonicalFrame (session_reply P accept_reply) # frames)
      [negotiation_bytes (0, DhtProtocolID)]"
    using switch [OF v1] by blast
  obtain s3 where 3: "PerformSessionHandshake P T s2 = (Inr 0, s3)"
    and v3: "view s3 True frames
      [negotiation_bytes (0, DhtProtocolID), EncodeCanonicalFrame (session_hello P)]"
    using handshake_client [OF v2] f by (auto simp: client_frames_def session_verdict_def accept_reply_def)
  have "fits (EncodeCanonicalFrame (request_bytes P req))" using f by (simp add: client_frames_def)
  from send [OF v3 this] obtain s4 where 4: "SendFrame T (EncodeCanonicalFrame (request_bytes P req)) s3 = (Inr (), s4)"
    and v4: "view s4 True frames (client_frames P req)"
    by (auto simp: client_frames_def)
  from get_peers_loop_verdict [OF v4 rs res, of 0] obtain s5 rest where
    5: "get_peers_loop P T 0 [] s4 = (res, s5)" and v5: "view s5 True rest (client_frames P req)"
    by auto
  have "GetPeers P False T req s = (res, s5)"
    using request_payload(1) [of req] request_bytes(1) [of req]
    by (simp add: GetPeers_def io_simps 1 2 3 4 5 wire_request_def get_peers_rpc_def
        defaultRequestID_def getPeersMethod_def defaultRPCDeadlineSeconds_def)
  with v5 show ?thesis by blast
qed

lemma send_peers_loop_frames:
  assumes "view s True ins outs" "list_all (sendable P) ps" "ps \<noteq> []" "i + length ps = count"
    and "list_all fits (response_frames P requestId ps)"
  shows "\<exists>s'. send_peers_loop P T requestId count i ps s = (Inr (), s') \<and>
    view s' True ins (outs @ response_frames P requestId ps)"
  using assms
proof (induction ps arbitrary: s i outs rule: induct_list012)
  case (2 p)
  let ?r = "response_for P requestId True (peer_payload P p)"
  note pay = sendable_payload [of p]
  have m: "Marshal_RpcResponse P ?r = Inr (response_bytes P ?r)"
    using 2 pay(2) by (intro response_bytes(1)) (simp add: response_for_def)
  have "fits (EncodeCanonicalFrame (response_bytes P ?r))" using 2 by (simp add: response_frames_def)
  from send [OF "2.prems"(1) this] obtain s1 where
    s1: "SendFrame T (EncodeCanonicalFrame (response_bytes P ?r)) s = (Inr (), s1)"
    and v1: "view s1 True ins (outs @ [EncodeCanonicalFrame (response_bytes P ?r)])" by blast
  have "i = count - 1" "Marshal_GetPeersResponse P \<lparr>Peer = p\<rparr> = Inr (peer_payload P p)"
    using "2.prems" pay(1) by simp_all
  with s1 m have "send_peers_loop P T requestId count i [p] s = (Inr (), s1)"
    by (simp add: io_simps rpcResponseFlagFIN_def response_for_def)
  moreover have "response_frames P requestId [p] = [EncodeCanonicalFrame (response_bytes P ?r)]"
    by (simp add: response_frames_def)
  ultimately show ?case using v1 by metis
next
  case (3 p q ps)
  let ?r = "response_for P requestId False (peer_payload P p)"
  note pay = sendable_payload [of p]
  have m: "Marshal_RpcResponse P ?r = Inr (response_bytes P ?r)"
    using 3 pay(2) by (intro response_bytes(1)) (simp add: response_for_def)
  have "fits (EncodeCanonicalFrame (response_bytes P ?r))" using 3 by (simp add: response_frames_def)
  from send [OF "3.prems"(1) this] obtain s1 where
    s1: "SendFrame T (EncodeCanonicalFrame (response_bytes P ?r)) s = (Inr (), s1)"
    and v1: "view s1 True ins (outs @ [EncodeCanonicalFrame (response_bytes P ?r)])" by blast
  from "3.IH"(2) [OF v1, of "Suc i"] "3.prems" obtain s2 where
    s2: "send_peers_loop P T requestId count (Suc i) (q # ps) s1 = (Inr (), s2)"
    "view s2 True ins (outs @ response_frames P requestId (p # q # ps))"
    by (auto simp: response_frames_def)
  from "3.prems"(4) have "i \<noteq> count - 1" by simp
  with s1 m pay(1) "3.prems"
  have "send_peers_loop P T requestId count i (p # q # ps) s = send_peers_loop P T requestId count (Suc i) (q # ps) s1"
    unfolding send_peers_loop.simps(2) [of P T requestId count i p]
    by (simp add: io_simps response_for_def del: send_peers_loop.simps)
  with s2 show ?case by metis
qed simp

lemma serve_get_peers:
  assumes v: "view s False (client_frames P req) []"
    and ok: "list_all (sendable P) (boundPeersForRequest peers (wire_request req))"
    and f: "list_all fits (server_frames P req peers)" "fits (negotiation_bytes (4, []))"
  shows "\<exists>s'. ServeGetPeers P T peers s = (Inr (), s') \<and> view s' True [] (server_frames P req peers)"
proof -
  let ?ps = "boundPeersForRequest peers (wire_request req)"
  obtain s1 where 1: "NegotiateProtocolInbound T [DhtProtocolID] s = (Inr DhtProtocolID, s1)"
    and v1: "view s1 False [EncodeCanonicalFrame (session_hello P), EncodeCanonicalFrame (request_bytes P req)]
      [negotiation_bytes (0, DhtProtocolID)]"
    using negotiate_inbound [of s 0 DhtProtocolID _ "[]" "[DhtProtocolID]"] v f dht_negotiable
    by (auto simp: client_frames_def server_frames_def)
  obtain s2 where 2: "BeginCanonicalFraming T s1 = (Inr (), s2)"
    and v2: "view s2 True [EncodeCanonicalFrame (session_hello P), EncodeCanonicalFrame (request_bytes P req)]
      [negotiation_bytes (0, DhtProtocolID)]"
    using switch [OF v1] by blast
  obtain s3 where 3: "PerformSessionHandshakeResponder P T s2 = (Inr (), s3)"
    and v3: "view s3 True [EncodeCanonicalFrame (request_bytes P req)]
      [negotiation_bytes (0, DhtProtocolID), EncodeCanonicalFrame (session_reply P accept_reply)]"
    using handshake_responder [OF v2] f by (auto simp: server_frames_def)
  obtain s4 where 4: "ReceiveFrame T s3 = (Inr (EncodeCanonicalFrame (request_bytes P req)), s4)"
    and v4: "view s4 True []
      [negotiation_bytes (0, DhtProtocolID), EncodeCanonicalFrame (session_reply P accept_reply)]"
    using receive_canonical [OF v3 request_bytes(3)] by blast
  have pay: "decode_request P (get_peers_rpc P req) s4 = (Inr (wire_request req), s4)"
    using request_payload(2,3) [of req] by (auto simp: decode_request_def get_peers_rpc_def)
  have id: "req_RequestId (get_peers_rpc P req) = 1" by (simp add: get_peers_rpc_def)
  note upto = ServeGetPeers_def io_simps 1 2 3 4 canonical_frame.dec_enc [OF request_bytes(3)]
    request_bytes(2) pay id
  show ?thesis
  proof (cases "?ps = []")
    case True
    let ?r = "response_for P 1 True []"
    have m: "Marshal_RpcResponse P ?r = Inr (response_bytes P ?r)"
      by (intro response_bytes(1)) (simp add: response_for_def)
    have "fits (EncodeCanonicalFrame (response_bytes P ?r))"
      using f True by (simp add: server_frames_def response_frames_def)
    from send [OF v4 this] obtain s5 where
      "SendFrame T (EncodeCanonicalFrame (response_bytes P ?r)) s4 = (Inr (), s5)"
      "view s5 True [] (server_frames P req peers)"
      using True by (auto simp: server_frames_def response_frames_def)
    with m True show ?thesis
      by (auto simp: upto Let_def rpcResponseFlagFIN_def response_for_def)
  next
    case False
    have "list_all fits (response_frames P 1 ?ps)" using f by (simp add: server_frames_def)
    from send_peers_loop_frames [OF v4 ok False _ this, of 0] obtain s5 where
      "send_peers_loop P T 1 (length ?ps) 0 ?ps s4 = (Inr (), s5)"
      "view s5 True [] (server_frames P req peers)"
      by (auto simp: server_frames_def)
    with False show ?thesis by (auto simp: upto Let_def)
  qed
qed

end

end
