(* ===== verification/Proto_Wire.thy ===== *)
theory Proto_Wire
  imports Proto_Messages
begin

text \<open>
  The published proto3 wire format, executable, for the messages of \<^verbatim>\<open>src/p2p/proto\<close> that the RPC
  layer exchanges, and the proof that it satisfies \<open>proto_codec\<close>. It stands for no file of the
  repository: it instantiates the library parameter where a concrete codec is needed. Fields of
  unknown number or another wire type are skipped; groups, which no current writer emits, are
  refused.
\<close>

section \<open>Varints\<close>

function varint :: "nat \<Rightarrow> bytes" where
  "varint n = (if n < 128 then [word_of_nat n] else word_of_nat (128 + n mod 128) # varint (n div 128))"
  by pat_completeness auto
termination by (relation "measure id") auto

declare varint.simps [simp del]

primrec read_varint :: "nat \<Rightarrow> bytes \<Rightarrow> (nat \<times> bytes) option" where
  "read_varint 0 bs = None"
| "read_varint (Suc k) bs =
     (case bs of
        [] \<Rightarrow> None
      | b # rest \<Rightarrow>
          if unat b < 128 then Some (unat b, rest)
          else map_option (\<lambda>(v, r). (unat b - 128 + 128 * v, r)) (read_varint k rest))"

lemma read_varint: "n < 128 ^ k \<Longrightarrow> 0 < k \<Longrightarrow> read_varint k (varint n @ r) = Some (n, r)"
proof (induction k arbitrary: n)
  case (Suc k)
  show ?case
  proof (cases "n < 128")
    case True
    then show ?thesis by (subst varint.simps) (simp add: unat_of_nat_u8)
  next
    case False
    then have "n div 128 < 128 ^ k" "0 < k"
      using Suc.prems by (auto simp: less_mult_imp_div_less mult.commute intro: gr0I)
    moreover have "unat (word_of_nat (128 + n mod 128) :: u8) = 128 + n mod 128"
      unfolding unat_of_nat_u8 by (intro mod_less) simp
    moreover have "n mod 128 + 128 * (n div 128) = n" by simp
    ultimately show ?thesis
      using Suc.IH [of "n div 128"] False by (subst varint.simps) (simp del: of_nat_add)
  qed
qed simp

lemma length_varint: "n < 128 ^ k \<Longrightarrow> 0 < k \<Longrightarrow> length (varint n) \<le> k"
proof (induction k arbitrary: n)
  case (Suc k)
  show ?case
  proof (cases "n < 128")
    case False
    then have "n div 128 < 128 ^ k" "0 < k"
      using Suc.prems by (auto simp: less_mult_imp_div_less mult.commute intro: gr0I)
    with Suc.IH [of "n div 128"] False show ?thesis by (subst varint.simps) simp
  qed (subst varint.simps, simp)
qed simp

lemma varint_pos: "0 < length (varint n)"
  by (subst varint.simps) simp

section \<open>Fields\<close>

datatype wire = Varint nat | Bytes bytes | Skipped

type_synonym field = "nat \<times> wire"

fun encode_field :: "field \<Rightarrow> bytes" where
  "encode_field (num, Varint v) = varint (num * 8) @ varint v"
| "encode_field (num, Bytes b) = varint (num * 8 + 2) @ varint (length b) @ b"
| "encode_field (num, Skipped) = []"

definition read_field :: "bytes \<Rightarrow> (field \<times> bytes) option" where
  "read_field bs =
     (case read_varint 10 bs of
        None \<Rightarrow> None
      | Some (tag, rest) \<Rightarrow>
          if tag div 8 = 0 then None
          else if tag mod 8 = 0 then
            (case read_varint 10 rest of
               None \<Rightarrow> None
             | Some (v, rest') \<Rightarrow> if v < 2 ^ 64 then Some ((tag div 8, Varint v), rest') else None)
          else if tag mod 8 = 2 then
            (case read_varint 10 rest of
               None \<Rightarrow> None
             | Some (n, rest') \<Rightarrow>
                 if n \<le> length rest' then Some ((tag div 8, Bytes (take n rest')), drop n rest') else None)
          else if tag mod 8 = 1 \<and> 8 \<le> length rest then Some ((tag div 8, Skipped), drop 8 rest)
          else if tag mod 8 = 5 \<and> 4 \<le> length rest then Some ((tag div 8, Skipped), drop 4 rest)
          else None)"

fun valid_field :: "field \<Rightarrow> bool" where
  "valid_field (num, Varint v) \<longleftrightarrow> 0 < num \<and> num < 16 \<and> v < 2 ^ 64"
| "valid_field (num, Bytes b) \<longleftrightarrow> 0 < num \<and> num < 16 \<and> length b < 2 ^ 31"
| "valid_field (num, Skipped) \<longleftrightarrow> False"

fun read_fields :: "nat \<Rightarrow> bytes \<Rightarrow> field list option" where
  "read_fields k [] = Some []"
| "read_fields 0 bs = None"
| "read_fields (Suc k) bs =
     (case read_field bs of
        None \<Rightarrow> None
      | Some (f, rest) \<Rightarrow> map_option (Cons f) (read_fields k rest))"

definition encode_fields :: "field list \<Rightarrow> bytes" where
  "encode_fields fs = concat (map encode_field fs)"

definition decode_fields :: "bytes \<Rightarrow> field list option" where
  "decode_fields bs = read_fields (length bs) bs"

lemma read_field: "valid_field f \<Longrightarrow> read_field (encode_field f @ r) = Some (f, r)"
proof (induction f rule: encode_field.induct)
  case (1 num v)
  then have "read_varint 10 (varint (num * 8) @ varint v @ r) = Some (num * 8, varint v @ r)"
    "read_varint 10 (varint v @ r) = Some (v, r)"
    by (auto intro: read_varint)
  with 1 show ?case by (simp add: read_field_def)
next
  case (2 num b)
  then have "read_varint 10 (varint (num * 8 + 2) @ varint (length b) @ b @ r) =
      Some (num * 8 + 2, varint (length b) @ b @ r)"
    "read_varint 10 (varint (length b) @ b @ r) = Some (length b, b @ r)"
    by (auto intro: read_varint simp del: add_2_eq_Suc')
  moreover have "(num * 8 + 2) div 8 = num" "(num * 8 + 2) mod 8 = 2" by presburger+
  ultimately show ?case using 2 by (simp add: read_field_def del: add_2_eq_Suc')
qed simp

lemma encode_field_nonempty: "valid_field f \<Longrightarrow> encode_field f \<noteq> []"
  using varint_pos by (induction f rule: encode_field.induct) auto

lemma read_fields:
  "list_all valid_field fs \<Longrightarrow> length fs \<le> k \<Longrightarrow> read_fields k (encode_fields fs) = Some fs"
proof (induction fs arbitrary: k)
  case (Cons f fs)
  then obtain k' b bs where k: "k = Suc k'" and b: "encode_field f = b # bs"
    using encode_field_nonempty [of f] by (cases k; cases "encode_field f") auto
  have "read_fields (Suc k') (encode_fields (f # fs)) =
      map_option (Cons f) (read_fields k' (encode_fields fs))"
    using read_field [of f "encode_fields fs"] Cons.prems b by (simp add: encode_fields_def)
  with Cons k show ?case by simp
qed (simp add: encode_fields_def)

lemma length_fields_le: "list_all valid_field fs \<Longrightarrow> length fs \<le> length (encode_fields fs)"
proof (induction fs)
  case (Cons f fs)
  then have "0 < length (encode_field f)" using encode_field_nonempty by simp
  moreover have "length (encode_fields (f # fs)) = length (encode_field f) + length (encode_fields fs)"
    by (simp add: encode_fields_def)
  moreover have "length fs \<le> length (encode_fields fs)" using Cons by simp
  ultimately show ?case by (simp only: list.size)
qed (simp add: encode_fields_def)

lemma decode_encode_fields: "list_all valid_field fs \<Longrightarrow> decode_fields (encode_fields fs) = Some fs"
  by (simp add: decode_fields_def read_fields length_fields_le)

lemma encode_fields_Nil [simp]: "encode_fields [] = []"
  by (simp add: encode_fields_def)

lemma encode_fields_eq_Nil: "list_all valid_field fs \<Longrightarrow> encode_fields fs = [] \<longleftrightarrow> fs = []"
  using length_fields_le [of fs] by auto

text \<open>A payload is never longer than the message that carries it.\<close>

lemma bytes_field_length: "(num, Bytes b) \<in> set fs \<Longrightarrow> length b \<le> length (encode_fields fs)"
  by (induction fs) (auto simp: encode_fields_def)

lemma encode_fields_length: "length (encode_fields fs) = sum_list (map (\<lambda>f. length (encode_field f)) fs)"
  by (simp add: encode_fields_def length_concat comp_def)

lemma length_varint_field: "num < 16 \<Longrightarrow> v < 2 ^ 64 \<Longrightarrow> length (encode_field (num, Varint v)) \<le> 11"
  using length_varint [of "num * 8" 1] length_varint [of v 10] by simp

lemma length_bytes_field: "num < 16 \<Longrightarrow> length b < 2 ^ 31 \<Longrightarrow> length (encode_field (num, Bytes b)) \<le> 6 + length b"
  using length_varint [of "num * 8 + 2" 1] length_varint [of "length b" 5] by simp

section \<open>Proto3 scalars: a zero or empty value is left out\<close>

definition opt_varint :: "nat \<Rightarrow> nat \<Rightarrow> field list" where
  "opt_varint num v = (if v = 0 then [] else [(num, Varint v)])"

definition opt_bytes :: "nat \<Rightarrow> bytes \<Rightarrow> field list" where
  "opt_bytes num b = (if b = [] then [] else [(num, Bytes b)])"

fun merge_fields :: "('m \<Rightarrow> field \<Rightarrow> 'm option) \<Rightarrow> 'm \<Rightarrow> field list \<Rightarrow> 'm option" where
  "merge_fields set_field m [] = Some m"
| "merge_fields set_field m (f # fs) = Option.bind (set_field m f) (\<lambda>m'. merge_fields set_field m' fs)"

definition unmarshal_onto :: "('m \<Rightarrow> field \<Rightarrow> 'm option) \<Rightarrow> 'm \<Rightarrow> bytes \<Rightarrow> 'm option" where
  "unmarshal_onto set_field m bs = Option.bind (decode_fields bs) (merge_fields set_field m)"

definition unmarshal :: "('m \<Rightarrow> field \<Rightarrow> 'm option) \<Rightarrow> 'm \<Rightarrow> bytes \<Rightarrow> go_error + 'm" where
  "unmarshal set_field m bs =
     (case unmarshal_onto set_field m bs of None \<Rightarrow> Inl ProtoError | Some m' \<Rightarrow> Inr m')"

lemma merge_fields_append:
  "merge_fields f m (xs @ ys) = Option.bind (merge_fields f m xs) (\<lambda>m'. merge_fields f m' ys)"
  by (induction xs arbitrary: m) (simp_all add: bind_assoc)

lemma merge_opt:
  "merge_fields f m (opt_varint num v) = (if v = 0 then Some m else f m (num, Varint v))"
  "merge_fields f m (opt_bytes num b) = (if b = [] then Some m else f m (num, Bytes b))"
  by (simp_all add: opt_varint_def opt_bytes_def)

lemma unmarshal_encode:
  "list_all valid_field fs \<Longrightarrow> unmarshal_onto f m (encode_fields fs) = merge_fields f m fs"
  by (simp add: unmarshal_onto_def decode_encode_fields)

lemma valid_opt:
  "0 < num \<Longrightarrow> num < 16 \<Longrightarrow> v < 2 ^ 64 \<Longrightarrow> list_all valid_field (opt_varint num v)"
  "0 < num \<Longrightarrow> num < 16 \<Longrightarrow> length b < 2 ^ 31 \<Longrightarrow> list_all valid_field (opt_bytes num b)"
  by (simp_all add: opt_varint_def opt_bytes_def)

lemma length_opt:
  "num < 16 \<Longrightarrow> v < 2 ^ 64 \<Longrightarrow> length (encode_fields (opt_varint num v)) \<le> 11"
  "num < 16 \<Longrightarrow> length b < 2 ^ 31 \<Longrightarrow> length (encode_fields (opt_bytes num b)) \<le> 6 + length b"
  using length_varint_field [of num v] length_bytes_field [of num b]
  by (simp_all add: opt_varint_def opt_bytes_def encode_fields_def)

lemma encode_fields_append: "encode_fields (xs @ ys) = encode_fields xs @ encode_fields ys"
  by (simp add: encode_fields_def)

lemma unat_lt_2_64: "unat (x::u32) < 2 ^ 64" "unat (y::u64) < 2 ^ 64"
proof -
  show "unat x < 2 ^ 64" using unat_less_exp [of x] by (rule less_trans) simp
  show "unat y < 2 ^ 64" using unat_less_exp [of y] by simp
qed

section \<open>The messages\<close>

fun set_RpcRequest :: "RpcRequest \<Rightarrow> field \<Rightarrow> RpcRequest option" where
  "set_RpcRequest m (num, Varint v) = Some (
     if num = 1 then m\<lparr>req_RequestId := word_of_nat v\<rparr>
     else if num = 2 then m\<lparr>req_Method := word_of_nat v\<rparr>
     else if num = 3 then m\<lparr>req_Flags := word_of_nat v\<rparr>
     else if num = 4 then m\<lparr>req_Deadline := word_of_nat v\<rparr> else m)"
| "set_RpcRequest m (num, Bytes b) = Some (if num = 10 then m\<lparr>req_Payload := b\<rparr> else m)"
| "set_RpcRequest m (num, Skipped) = Some m"

definition RpcRequest_fields :: "RpcRequest \<Rightarrow> field list" where
  "RpcRequest_fields m = opt_varint 1 (unat (req_RequestId m)) @ opt_varint 2 (unat (req_Method m))
     @ opt_varint 3 (unat (req_Flags m)) @ opt_varint 4 (unat (req_Deadline m))
     @ opt_bytes 10 (req_Payload m)"

definition empty_RpcRequest :: RpcRequest where
  "empty_RpcRequest = \<lparr>req_RequestId = 0, req_Method = 0, req_Flags = 0, req_Deadline = 0, req_Payload = []\<rparr>"

fun set_RpcResponse :: "RpcResponse \<Rightarrow> field \<Rightarrow> RpcResponse option" where
  "set_RpcResponse m (num, Varint v) = Some (
     if num = 1 then m\<lparr>resp_RequestId := word_of_nat v\<rparr>
     else if num = 2 then m\<lparr>resp_Status := word_of_nat v\<rparr>
     else if num = 3 then m\<lparr>resp_Flags := word_of_nat v\<rparr> else m)"
| "set_RpcResponse m (num, Bytes b) = Some (if num = 10 then m\<lparr>resp_Payload := b\<rparr> else m)"
| "set_RpcResponse m (num, Skipped) = Some m"

definition RpcResponse_fields :: "RpcResponse \<Rightarrow> field list" where
  "RpcResponse_fields m = opt_varint 1 (unat (resp_RequestId m)) @ opt_varint 2 (unat (resp_Status m))
     @ opt_varint 3 (unat (resp_Flags m)) @ opt_bytes 10 (resp_Payload m)"

definition empty_RpcResponse :: RpcResponse where
  "empty_RpcResponse = \<lparr>resp_RequestId = 0, resp_Status = 0, resp_Flags = 0, resp_Payload = []\<rparr>"

text \<open>Repeated numbers are packed into one field; the reader also takes them one by one.\<close>

fun unpack :: "nat \<Rightarrow> bytes \<Rightarrow> u32 list option" where
  "unpack k [] = Some []"
| "unpack 0 bs = None"
| "unpack (Suc k) bs =
     (case read_varint 10 bs of
        None \<Rightarrow> None
      | Some (v, rest) \<Rightarrow> map_option (Cons (word_of_nat v)) (unpack k rest))"

definition pack :: "u32 list \<Rightarrow> bytes" where
  "pack vs = concat (map (\<lambda>v. varint (unat v)) vs)"

fun set_RpcSession :: "RpcSession \<Rightarrow> field \<Rightarrow> RpcSession option" where
  "set_RpcSession m (num, Varint v) = Some (
     if num = 1 then m\<lparr>SupportedVersions := SupportedVersions m @ [word_of_nat v]\<rparr> else m)"
| "set_RpcSession m (num, Bytes b) =
     (if num = 1
      then map_option (\<lambda>vs. m\<lparr>SupportedVersions := SupportedVersions m @ vs\<rparr>) (unpack (length b) b)
      else Some m)"
| "set_RpcSession m (num, Skipped) = Some m"

definition RpcSession_fields :: "RpcSession \<Rightarrow> field list" where
  "RpcSession_fields m = opt_bytes 1 (pack (SupportedVersions m))"

fun set_RpcSessionReply :: "RpcSessionReply \<Rightarrow> field \<Rightarrow> RpcSessionReply option" where
  "set_RpcSessionReply m (num, Varint v) = Some (
     if num = 1 then m\<lparr>reply_SessionResult := Some (AcceptedVersion (word_of_nat v))\<rparr>
     else if num = 2 then m\<lparr>reply_SessionResult := Some (Rejected (v \<noteq> 0))\<rparr>
     else if num = 3 then m\<lparr>reply_RejectReason := word_of_nat v\<rparr> else m)"
| "set_RpcSessionReply m (num, _) = Some m"

definition RpcSessionReply_fields :: "RpcSessionReply \<Rightarrow> field list" where
  "RpcSessionReply_fields m =
     (case reply_SessionResult m of
        None \<Rightarrow> []
      | Some (AcceptedVersion v) \<Rightarrow> [(1, Varint (unat v))]
      | Some (Rejected r) \<Rightarrow> [(2, Varint (if r then 1 else 0))])
     @ opt_varint 3 (unat (reply_RejectReason m))"

fun set_GetPeersRequest :: "pb_GetPeersRequest \<Rightarrow> field \<Rightarrow> pb_GetPeersRequest option" where
  "set_GetPeersRequest m (num, Varint v) = Some (
     if num = 1 then m\<lparr>pb_N := word_of_nat v\<rparr>
     else if num = 2 then m\<lparr>pb_IncludeClients := (v \<noteq> 0)\<rparr>
     else if num = 3 then m\<lparr>pb_MaxClaims := word_of_nat v\<rparr>
     else if num = 4 then m\<lparr>pb_MaxAddressesPerClaim := word_of_nat v\<rparr> else m)"
| "set_GetPeersRequest m (num, _) = Some m"

definition GetPeersRequest_fields :: "pb_GetPeersRequest \<Rightarrow> field list" where
  "GetPeersRequest_fields m = opt_varint 1 (unat (pb_N m))
     @ opt_varint 2 (if pb_IncludeClients m then 1 else 0)
     @ opt_varint 3 (unat (pb_MaxClaims m)) @ opt_varint 4 (unat (pb_MaxAddressesPerClaim m))"

fun set_IdentitySignature :: "pb_IdentitySignature \<Rightarrow> field \<Rightarrow> pb_IdentitySignature option" where
  "set_IdentitySignature m (num, Varint v) = Some (
     if num = 1 then m\<lparr>sig_Version := word_of_nat v\<rparr>
     else if num = 4 then m\<lparr>sig_UpdatedAt := word_of_nat v\<rparr> else m)"
| "set_IdentitySignature m (num, Bytes b) = Some (
     if num = 2 then m\<lparr>sig_Signature := b\<rparr> else if num = 3 then m\<lparr>sig_PublicNonce := b\<rparr> else m)"
| "set_IdentitySignature m (num, Skipped) = Some m"

definition IdentitySignature_fields :: "pb_IdentitySignature \<Rightarrow> field list" where
  "IdentitySignature_fields m = opt_varint 1 (unat (sig_Version m)) @ opt_bytes 2 (sig_Signature m)
     @ opt_bytes 3 (sig_PublicNonce m) @ opt_varint 4 (unat (sig_UpdatedAt m))"

definition empty_IdentitySignature :: pb_IdentitySignature where
  "empty_IdentitySignature = \<lparr>sig_Version = 0, sig_Signature = [], sig_PublicNonce = [], sig_UpdatedAt = 0\<rparr>"

fun set_PeerIdentityClaim :: "PeerIdentityClaim \<Rightarrow> field \<Rightarrow> PeerIdentityClaim option" where
  "set_PeerIdentityClaim m (num, Varint v) = Some (if num = 2 then m\<lparr>claim_PeerFeatures := word_of_nat v\<rparr> else m)"
| "set_PeerIdentityClaim m (num, Bytes b) =
     (if num = 1 then Some (m\<lparr>claim_Addresses := claim_Addresses m @ [b]\<rparr>)
      else if num = 3 then
        map_option (\<lambda>s. m\<lparr>claim_IdentitySignature := Some s\<rparr>)
          (unmarshal_onto set_IdentitySignature
             (case claim_IdentitySignature m of None \<Rightarrow> empty_IdentitySignature | Some s \<Rightarrow> s) b)
      else Some m)"
| "set_PeerIdentityClaim m (num, Skipped) = Some m"

definition PeerIdentityClaim_fields :: "PeerIdentityClaim \<Rightarrow> field list" where
  "PeerIdentityClaim_fields m = map (\<lambda>a. (1, Bytes a)) (claim_Addresses m)
     @ opt_varint 2 (unat (claim_PeerFeatures m))
     @ (case claim_IdentitySignature m of
          None \<Rightarrow> []
        | Some s \<Rightarrow> [(3, Bytes (encode_fields (IdentitySignature_fields s)))])"

definition empty_PeerIdentityClaim :: PeerIdentityClaim where
  "empty_PeerIdentityClaim = \<lparr>claim_Addresses = [], claim_PeerFeatures = 0, claim_IdentitySignature = None\<rparr>"

fun set_PeerInfo :: "pb_PeerInfo \<Rightarrow> field \<Rightarrow> pb_PeerInfo option" where
  "set_PeerInfo m (num, Bytes b) =
     (if num = 1 then Some (m\<lparr>peer_PublicKey := b\<rparr>)
      else if num = 2 then
        map_option (\<lambda>c. m\<lparr>peer_Claims := peer_Claims m @ [Some c]\<rparr>)
          (unmarshal_onto set_PeerIdentityClaim empty_PeerIdentityClaim b)
      else Some m)"
| "set_PeerInfo m (num, _) = Some m"

definition claim_bytes :: "PeerIdentityClaim option \<Rightarrow> bytes" where
  "claim_bytes c = (case c of None \<Rightarrow> [] | Some c \<Rightarrow> encode_fields (PeerIdentityClaim_fields c))"

definition PeerInfo_fields :: "pb_PeerInfo \<Rightarrow> field list" where
  "PeerInfo_fields m = opt_bytes 1 (peer_PublicKey m) @ map (\<lambda>c. (2, Bytes (claim_bytes c))) (peer_Claims m)"

definition empty_PeerInfo :: pb_PeerInfo where
  "empty_PeerInfo = \<lparr>peer_PublicKey = [], peer_Claims = []\<rparr>"

fun set_GetPeersResponse :: "pb_GetPeersResponse \<Rightarrow> field \<Rightarrow> pb_GetPeersResponse option" where
  "set_GetPeersResponse m (num, Bytes b) =
     (if num = 1 then
        map_option (\<lambda>p. m\<lparr>Peer := Some p\<rparr>)
          (unmarshal_onto set_PeerInfo (case Peer m of None \<Rightarrow> empty_PeerInfo | Some p \<Rightarrow> p) b)
      else Some m)"
| "set_GetPeersResponse m (num, _) = Some m"

definition GetPeersResponse_fields :: "pb_GetPeersResponse \<Rightarrow> field list" where
  "GetPeersResponse_fields m =
     (case Peer m of None \<Rightarrow> [] | Some p \<Rightarrow> [(1, Bytes (encode_fields (PeerInfo_fields p)))])"

fun set_ChainMetadata :: "ChainMetadata \<Rightarrow> field \<Rightarrow> ChainMetadata option" where
  "set_ChainMetadata m (num, Varint v) = Some (
     if num = 1 then m\<lparr>BestBlockHeight := word_of_nat v\<rparr>
     else if num = 6 then m\<lparr>PrunedHeight := word_of_nat v\<rparr>
     else if num = 7 then m\<lparr>Timestamp := word_of_nat v\<rparr> else m)"
| "set_ChainMetadata m (num, Bytes b) = Some (
     if num = 2 then m\<lparr>BestBlockHash := b\<rparr>
     else if num = 5 then m\<lparr>AccumulatedDifficultyLow := b\<rparr>
     else if num = 8 then m\<lparr>AccumulatedDifficultyHigh := b\<rparr> else m)"
| "set_ChainMetadata m (num, Skipped) = Some m"

definition empty_ChainMetadata :: ChainMetadata where
  "empty_ChainMetadata = \<lparr>BestBlockHeight = 0, BestBlockHash = [], AccumulatedDifficultyLow = [],
     AccumulatedDifficultyHigh = [], PrunedHeight = 0, Timestamp = 0\<rparr>"

definition proto3 :: proto_lib where
  "proto3 = \<lparr>
     Marshal_RpcSession = Inr \<circ> encode_fields \<circ> RpcSession_fields,
     Unmarshal_RpcSession = unmarshal set_RpcSession \<lparr>SupportedVersions = []\<rparr>,
     Marshal_RpcSessionReply = Inr \<circ> encode_fields \<circ> RpcSessionReply_fields,
     Unmarshal_RpcSessionReply = unmarshal set_RpcSessionReply \<lparr>reply_SessionResult = None, reply_RejectReason = 0\<rparr>,
     Marshal_RpcRequest = Inr \<circ> encode_fields \<circ> RpcRequest_fields,
     Unmarshal_RpcRequest = unmarshal set_RpcRequest empty_RpcRequest,
     Marshal_RpcResponse = Inr \<circ> encode_fields \<circ> RpcResponse_fields,
     Unmarshal_RpcResponse = unmarshal set_RpcResponse empty_RpcResponse,
     Marshal_GetPeersRequest = Inr \<circ> encode_fields \<circ> GetPeersRequest_fields,
     Unmarshal_GetPeersRequest = unmarshal set_GetPeersRequest empty_GetPeersRequest,
     Marshal_GetPeersResponse = Inr \<circ> encode_fields \<circ> GetPeersResponse_fields,
     Unmarshal_GetPeersResponse = unmarshal set_GetPeersResponse \<lparr>Peer = None\<rparr>,
     Unmarshal_ChainMetadata = unmarshal set_ChainMetadata empty_ChainMetadata\<rparr>"

section \<open>Messages come back\<close>

lemma RpcRequest_merge: "merge_fields set_RpcRequest empty_RpcRequest (RpcRequest_fields m) = Some m"
  by (cases m) (simp add: RpcRequest_fields_def empty_RpcRequest_def merge_fields_append merge_opt unat_eq_0)

lemma RpcResponse_merge: "merge_fields set_RpcResponse empty_RpcResponse (RpcResponse_fields m) = Some m"
  by (cases m) (simp add: RpcResponse_fields_def empty_RpcResponse_def merge_fields_append merge_opt unat_eq_0)

lemma RpcSessionReply_merge:
  "merge_fields set_RpcSessionReply \<lparr>reply_SessionResult = None, reply_RejectReason = 0\<rparr>
     (RpcSessionReply_fields m) = Some m"
  by (cases m) (simp add: RpcSessionReply_fields_def merge_fields_append merge_opt unat_eq_0
      split: option.split SessionResult.split)

lemma GetPeersRequest_merge:
  "merge_fields set_GetPeersRequest empty_GetPeersRequest (GetPeersRequest_fields m) = Some m"
  by (cases m) (simp add: GetPeersRequest_fields_def empty_GetPeersRequest_def merge_fields_append merge_opt unat_eq_0)

lemma IdentitySignature_merge:
  "merge_fields set_IdentitySignature empty_IdentitySignature (IdentitySignature_fields m) = Some m"
  by (cases m) (simp add: IdentitySignature_fields_def empty_IdentitySignature_def merge_fields_append merge_opt unat_eq_0)

lemma valid_opt_words:
  "0 < num \<Longrightarrow> num < 16 \<Longrightarrow> list_all valid_field (opt_varint num (unat (x::u32)))"
  "0 < num \<Longrightarrow> num < 16 \<Longrightarrow> list_all valid_field (opt_varint num (unat (y::u64)))"
  using valid_opt(1) unat_lt_2_64 by blast+

lemma unpack_pack: "length vs \<le> k \<Longrightarrow> unpack k (pack vs) = Some vs"
proof (induction vs arbitrary: k)
  case (Cons v vs)
  then obtain k' where k: "k = Suc k'" by (cases k) auto
  obtain b bs where b: "varint (unat v) = b # bs" using varint_pos [of "unat v"] by (cases "varint (unat v)") auto
  have "unat v < 128 ^ 10" using unat_u32_lt [of v] by (rule less_trans) simp
  then have "read_varint 10 (varint (unat v) @ pack vs) = Some (unat v, pack vs)" by (intro read_varint) simp_all
  with Cons k b show ?case by (simp add: pack_def)
qed (simp add: pack_def)

lemma length_pack: "length vs \<le> length (pack vs)" "length (pack vs) \<le> 5 * length vs"
proof -
  have "1 \<le> length (varint (unat v))" for v :: u32 using varint_pos [of "unat v"] by linarith
  then show "length vs \<le> length (pack vs)"
  proof (induction vs)
    case (Cons v vs)
    from add_mono [OF Cons.prems [of v] Cons.IH [OF Cons.prems]] show ?case by (simp add: pack_def)
  qed simp
  have "length (varint (unat v)) \<le> 5" for v :: u32
  proof (rule length_varint)
    show "unat v < 128 ^ 5" using unat_u32_lt [of v] by (rule less_trans) simp
  qed simp
  then show "length (pack vs) \<le> 5 * length vs"
    by (induction vs) (auto simp: pack_def add_mono)
qed

lemma RpcSession_merge: "merge_fields set_RpcSession \<lparr>SupportedVersions = []\<rparr> (RpcSession_fields m) = Some m"
proof (cases "SupportedVersions m = []")
  case True
  then show ?thesis by (cases m) (simp add: RpcSession_fields_def merge_opt pack_def)
next
  case False
  then have "pack (SupportedVersions m) \<noteq> []" using length_pack(1) [of "SupportedVersions m"] by auto
  then show ?thesis
    by (cases m) (simp add: RpcSession_fields_def merge_opt unpack_pack length_pack(1))
qed

lemma addresses_merge:
  "merge_fields set_PeerIdentityClaim m (map (\<lambda>a. (Suc 0, Bytes a)) as) =
     Some (m\<lparr>claim_Addresses := claim_Addresses m @ as\<rparr>)"
  by (induction as arbitrary: m) simp_all

lemma opt_bytes_length: "set (opt_bytes num b) \<subseteq> set fs \<Longrightarrow> length b \<le> length (encode_fields fs)"
  using bytes_field_length [of num b fs] by (cases "b = []") (simp_all add: opt_bytes_def)

lemma IdentitySignature_valid:
  assumes "length (encode_fields (IdentitySignature_fields s)) < 2 ^ 31"
  shows "list_all valid_field (IdentitySignature_fields s)"
proof -
  have "set (opt_bytes 2 (sig_Signature s)) \<subseteq> set (IdentitySignature_fields s)"
    "set (opt_bytes 3 (sig_PublicNonce s)) \<subseteq> set (IdentitySignature_fields s)"
    by (auto simp: IdentitySignature_fields_def)
  from this [THEN opt_bytes_length]
  have "length (sig_Signature s) < 2 ^ 31" "length (sig_PublicNonce s) < 2 ^ 31"
    using assms by simp_all
  then show ?thesis by (simp add: IdentitySignature_fields_def valid_opt valid_opt_words unat_lt_2_64)
qed

lemma PeerIdentityClaim_merge:
  assumes "length (encode_fields (PeerIdentityClaim_fields m)) < 2 ^ 31"
  shows "list_all valid_field (PeerIdentityClaim_fields m)"
    and "merge_fields set_PeerIdentityClaim empty_PeerIdentityClaim (PeerIdentityClaim_fields m) = Some m"
proof -
  have lt: "length b < 2 ^ 31" if "(num, Bytes b) \<in> set (PeerIdentityClaim_fields m)" for num b
    using bytes_field_length [OF that] assms by linarith
  have sig: "list_all valid_field (IdentitySignature_fields s)"
    "length (encode_fields (IdentitySignature_fields s)) < 2 ^ 31" if "claim_IdentitySignature m = Some s" for s
    using that lt [of 3 "encode_fields (IdentitySignature_fields s)"] IdentitySignature_valid [of s]
    by (simp_all add: PeerIdentityClaim_fields_def)
  show "list_all valid_field (PeerIdentityClaim_fields m)"
    using lt [of 1] sig(2)
    by (auto simp: PeerIdentityClaim_fields_def list_all_iff opt_varint_def unat_lt_2_64 [simplified]
        split: option.split if_splits)
  show "merge_fields set_PeerIdentityClaim empty_PeerIdentityClaim (PeerIdentityClaim_fields m) = Some m"
    using sig(1)
    by (cases m) (auto simp: PeerIdentityClaim_fields_def addresses_merge merge_fields_append merge_opt
        empty_PeerIdentityClaim_def unmarshal_encode IdentitySignature_merge unat_eq_0 split: option.split)
qed

lemma claims_merge:
  assumes "list_all (\<lambda>c. c \<noteq> None \<and> length (claim_bytes c) < 2 ^ 31) cs"
  shows "merge_fields set_PeerInfo m (map (\<lambda>c. (2, Bytes (claim_bytes c))) cs) =
    Some (m\<lparr>peer_Claims := peer_Claims m @ cs\<rparr>)"
  using assms
proof (induction cs arbitrary: m)
  case (Cons c cs)
  then obtain d where d: "c = Some d" by auto
  then have "unmarshal_onto set_PeerIdentityClaim empty_PeerIdentityClaim (claim_bytes c) = Some d"
    using Cons.prems PeerIdentityClaim_merge [of d] by (simp add: claim_bytes_def unmarshal_encode)
  with Cons d show ?case by simp
qed simp

lemma PeerInfo_merge:
  assumes "length (encode_fields (PeerInfo_fields m)) < 2 ^ 31" "None \<notin> set (peer_Claims m)"
  shows "list_all valid_field (PeerInfo_fields m)"
    and "merge_fields set_PeerInfo empty_PeerInfo (PeerInfo_fields m) = Some m"
proof -
  have lt: "length b < 2 ^ 31" if "(num, Bytes b) \<in> set (PeerInfo_fields m)" for num b
    using bytes_field_length [OF that] assms(1) by linarith
  have "c \<noteq> None \<and> length (claim_bytes c) < 2 ^ 31" if "c \<in> set (peer_Claims m)" for c
  proof (rule conjI)
    show "c \<noteq> None" using that assms(2) by metis
    show "length (claim_bytes c) < 2 ^ 31"
      using that lt [of 2 "claim_bytes c"] by (simp add: PeerInfo_fields_def)
  qed
  then have cs: "list_all (\<lambda>c. c \<noteq> None \<and> length (claim_bytes c) < 2 ^ 31) (peer_Claims m)"
    unfolding list_all_iff by blast
  show "list_all valid_field (PeerInfo_fields m)"
    using cs lt [of 1 "peer_PublicKey m"] by (auto simp: PeerInfo_fields_def opt_bytes_def list_all_iff)
  show "merge_fields set_PeerInfo empty_PeerInfo (PeerInfo_fields m) = Some m"
    using claims_merge [OF cs]
    by (cases m) (simp add: PeerInfo_fields_def merge_fields_append merge_opt empty_PeerInfo_def)
qed

section \<open>The format satisfies the interface\<close>

lemma unmarshal_ok:
  "list_all valid_field fs \<Longrightarrow> merge_fields f m fs = Some m' \<Longrightarrow> unmarshal f m (encode_fields fs) = Inr m'"
  by (simp add: unmarshal_def unmarshal_encode)

lemma RpcRequest_wire:
  assumes "length (req_Payload m) < 2 ^ 31"
  shows "list_all valid_field (RpcRequest_fields m)"
    and "length (encode_fields (RpcRequest_fields m)) \<le> 64 + length (req_Payload m)"
proof -
  show "list_all valid_field (RpcRequest_fields m)"
    using assms by (simp add: RpcRequest_fields_def valid_opt valid_opt_words unat_lt_2_64)
  show "length (encode_fields (RpcRequest_fields m)) \<le> 64 + length (req_Payload m)"
    using length_opt(1) [of 1 "unat (req_RequestId m)"] length_opt(1) [of 2 "unat (req_Method m)"]
      length_opt(1) [of 3 "unat (req_Flags m)"] length_opt(1) [of 4 "unat (req_Deadline m)"]
      length_opt(2) [of 10 "req_Payload m"] assms unat_lt_2_64
    unfolding RpcRequest_fields_def encode_fields_append length_append by simp
qed

lemma RpcResponse_wire:
  assumes "length (resp_Payload m) < 2 ^ 31"
  shows "list_all valid_field (RpcResponse_fields m)"
    and "length (encode_fields (RpcResponse_fields m)) \<le> 64 + length (resp_Payload m)"
proof -
  show "list_all valid_field (RpcResponse_fields m)"
    using assms by (simp add: RpcResponse_fields_def valid_opt valid_opt_words unat_lt_2_64)
  show "length (encode_fields (RpcResponse_fields m)) \<le> 64 + length (resp_Payload m)"
    using length_opt(1) [of 1 "unat (resp_RequestId m)"] length_opt(1) [of 2 "unat (resp_Status m)"]
      length_opt(1) [of 3 "unat (resp_Flags m)"] length_opt(2) [of 10 "resp_Payload m"] assms unat_lt_2_64
    unfolding RpcResponse_fields_def encode_fields_append length_append by simp
qed

lemma RpcSession_wire:
  assumes "length (SupportedVersions m) < 2 ^ 24"
  shows "list_all valid_field (RpcSession_fields m)"
    and "length (encode_fields (RpcSession_fields m)) \<le> 64 + 5 * length (SupportedVersions m)"
proof -
  have "length (pack (SupportedVersions m)) < 2 ^ 31"
    using length_pack(2) [of "SupportedVersions m"] assms by simp
  then show "list_all valid_field (RpcSession_fields m)"
    and "length (encode_fields (RpcSession_fields m)) \<le> 64 + 5 * length (SupportedVersions m)"
    using length_opt(2) [of 1 "pack (SupportedVersions m)"] length_pack(2) [of "SupportedVersions m"]
    by (simp_all add: RpcSession_fields_def valid_opt)
qed

lemma RpcSessionReply_wire:
  "list_all valid_field (RpcSessionReply_fields m)"
  "length (encode_fields (RpcSessionReply_fields m)) \<le> 64"
proof -
  show "list_all valid_field (RpcSessionReply_fields m)"
    by (auto simp: RpcSessionReply_fields_def valid_opt valid_opt_words unat_lt_2_64 [simplified] split: option.split SessionResult.split)
  have le: "length (encode_fields [(num, Varint v)]) \<le> 11" if "num < 16" "v < 2 ^ 64" for num v
    using length_varint_field [OF that] by (simp add: encode_fields_def)
  have "length (encode_fields (case reply_SessionResult m of
        None \<Rightarrow> [] | Some (AcceptedVersion v) \<Rightarrow> [(1, Varint (unat v))]
      | Some (Rejected r) \<Rightarrow> [(2, Varint (if r then 1 else 0))])) \<le> 11"
    using le [of 1] le [of 2] unat_lt_2_64(1) by (simp split: option.split SessionResult.split)
  then show "length (encode_fields (RpcSessionReply_fields m)) \<le> 64"
    using length_opt(1) [of 3 "unat (reply_RejectReason m)"] unat_lt_2_64
    unfolding RpcSessionReply_fields_def encode_fields_append length_append by simp
qed

lemma GetPeersRequest_wire:
  "list_all valid_field (GetPeersRequest_fields m)"
  "length (encode_fields (GetPeersRequest_fields m)) \<le> 64"
  "GetPeersRequest_fields m = [] \<longleftrightarrow> m = empty_GetPeersRequest"
proof -
  show "list_all valid_field (GetPeersRequest_fields m)"
    by (simp add: GetPeersRequest_fields_def valid_opt valid_opt_words unat_lt_2_64)
  show "length (encode_fields (GetPeersRequest_fields m)) \<le> 64"
    using length_opt(1) [of 1 "unat (pb_N m)"] length_opt(1) [of 2 0] length_opt(1) [of 2 1]
      length_opt(1) [of 3 "unat (pb_MaxClaims m)"] length_opt(1) [of 4 "unat (pb_MaxAddressesPerClaim m)"]
      unat_lt_2_64
    unfolding GetPeersRequest_fields_def encode_fields_append length_append by simp
  show "GetPeersRequest_fields m = [] \<longleftrightarrow> m = empty_GetPeersRequest"
    by (cases m) (auto simp: GetPeersRequest_fields_def opt_varint_def empty_GetPeersRequest_def unat_eq_0)
qed

lemma GetPeersResponse_wire:
  assumes "no_nil_claims (Peer m)" "length (encode_fields (GetPeersResponse_fields m)) < 2 ^ 31"
  shows "list_all valid_field (GetPeersResponse_fields m)"
    and "merge_fields set_GetPeersResponse \<lparr>Peer = None\<rparr> (GetPeersResponse_fields m) = Some m"
proof -
  have "length (encode_fields (PeerInfo_fields p)) < 2 ^ 31 \<and> None \<notin> set (peer_Claims p)" if "Peer m = Some p" for p
    using that assms bytes_field_length [of 1 "encode_fields (PeerInfo_fields p)" "GetPeersResponse_fields m"]
    by (simp add: GetPeersResponse_fields_def no_nil_claims_def)
  then show "list_all valid_field (GetPeersResponse_fields m)"
    and "merge_fields set_GetPeersResponse \<lparr>Peer = None\<rparr> (GetPeersResponse_fields m) = Some m"
    using PeerInfo_merge
    by (cases m; auto simp: GetPeersResponse_fields_def unmarshal_encode split: option.split)+
qed

interpretation proto3: proto_codec proto3
proof
  fix m1 m2 m3 m4 m5 m6 b
  show "\<exists>b. Marshal_RpcSession proto3 m1 = Inr b \<and> Unmarshal_RpcSession proto3 b = Inr m1 \<and>
      length b \<le> 64 + 5 * length (SupportedVersions m1)" if "length (SupportedVersions m1) < 2 ^ 24"
    using RpcSession_wire [OF that] by (simp add: proto3_def unmarshal_ok RpcSession_merge)
  show "\<exists>b. Marshal_RpcSessionReply proto3 m2 = Inr b \<and> Unmarshal_RpcSessionReply proto3 b = Inr m2 \<and> length b \<le> 64"
    using RpcSessionReply_wire by (simp add: proto3_def unmarshal_ok RpcSessionReply_merge)
  show "\<exists>b. Marshal_RpcRequest proto3 m3 = Inr b \<and> Unmarshal_RpcRequest proto3 b = Inr m3 \<and>
      length b \<le> 64 + length (req_Payload m3)" if "length (req_Payload m3) < 2 ^ 31"
    using RpcRequest_wire [OF that] by (simp add: proto3_def unmarshal_ok RpcRequest_merge)
  show "\<exists>b. Marshal_RpcResponse proto3 m4 = Inr b \<and> Unmarshal_RpcResponse proto3 b = Inr m4 \<and>
      length b \<le> 64 + length (resp_Payload m4)" if "length (resp_Payload m4) < 2 ^ 31"
    using RpcResponse_wire [OF that] by (simp add: proto3_def unmarshal_ok RpcResponse_merge)
  show "\<exists>b. Marshal_GetPeersRequest proto3 m5 = Inr b \<and> Unmarshal_GetPeersRequest proto3 b = Inr m5 \<and>
      length b \<le> 64 \<and> (b = [] \<longleftrightarrow> m5 = empty_GetPeersRequest)"
    using GetPeersRequest_wire [of m5]
    by (simp add: proto3_def unmarshal_ok GetPeersRequest_merge encode_fields_eq_Nil)
  show "Unmarshal_GetPeersResponse proto3 b = Inr m6 \<and> (b = [] \<longleftrightarrow> Peer m6 = None)"
    if "no_nil_claims (Peer m6)" "Marshal_GetPeersResponse proto3 m6 = Inr b" "length b < 2 ^ 31"
  proof -
    from that(2) have b: "b = encode_fields (GetPeersResponse_fields m6)" by (simp add: proto3_def)
    note w = GetPeersResponse_wire [OF that(1) that(3) [unfolded b]]
    from w(1) have "b = [] \<longleftrightarrow> Peer m6 = None"
      unfolding b by (simp add: encode_fields_eq_Nil) (simp add: GetPeersResponse_fields_def split: option.split)
    with w show ?thesis by (simp add: b proto3_def unmarshal_ok)
  qed
qed

end
