(* ===== verification/Rpc_Properties.thy ===== *)
theory Rpc_Properties
  imports Rpc_Get_Peers Proto_Wire
begin

text \<open>
  The properties of the RPC layer over the stream transport, drawn from the endpoint locale, with
  the protobuf library as a parameter that satisfies \<open>proto_codec\<close>. Witnesses use the proto3 format.
\<close>

section \<open>Endpoints over a byte stream\<close>

interpretation stream_proto3: rpc_endpoint stream_transport stream_view "\<lambda>_. True" proto3
  by unfold_locales

lemma stream_endpoint: "proto_codec P \<Longrightarrow> rpc_endpoint stream_transport stream_view (\<lambda>_. True) P"
  by (simp add: rpc_endpoint_def stream_rpc.rpc_transport_axioms)

text \<open>A fresh stream transport whose other end will send the given bytes.\<close>

definition peer_sends :: "bytes \<Rightarrow> streamTransport" where
  "peer_sends bs = NewStreamTransport \<lparr>inb = bs, outb = [], room = None\<rparr>"

lemma stream_view_fresh: "stream_view (peer_sends (concat ins)) False ins []"
  by (simp add: stream_view_def peer_sends_def NewStreamTransport_def)

lemma stream_view_out: "stream_view t c ins outs \<Longrightarrow> outb (stream t) = concat outs \<and> inb (stream t) = concat ins"
  by (simp add: stream_view_def)

lemma all_fit: "list_all (\<lambda>_. True) xs"
  by (simp add: list_all_iff)

section \<open>get_peers\<close>

lemma get_peers_stream_result:
  assumes "proto_codec P" "list_all2 (carries P) rs frames" "stream_verdict P 100000 [] rs = Some res"
  shows "fst (GetPeers P False stream_transport req (peer_sends (concat
      ([negotiation_bytes (0, DhtProtocolID), EncodeCanonicalFrame (session_reply P accept_reply)] @ frames))))
    = res"
proof -
  from rpc_endpoint.get_peers_client [OF stream_endpoint [OF assms(1)] stream_view_fresh all_fit assms(2)
      assms(3) [folded maxGetPeersStreamIterations_def], where req = req]
  show ?thesis by auto
qed

lemma get_peers_meets_server:
  assumes "proto_codec P"
    and "list_all (sendable P) (boundPeersForRequest peers (wire_request req))"
    and "length (boundPeersForRequest peers (wire_request req)) \<le> 100000"
  shows "\<exists>asked answered c s.
    GetPeers P False stream_transport req (peer_sends answered)
      = (Inr (List.map_filter id (boundPeersForRequest peers (wire_request req))), c) \<and>
    outb (stream c) = asked \<and>
    ServeGetPeers P stream_transport peers (peer_sends asked) = (Inr (), s) \<and>
    outb (stream s) = answered \<and> inb (stream s) = []"
proof -
  let ?ps = "boundPeersForRequest peers (wire_request req)"
  note end_point = stream_endpoint [OF assms(1)]
  have verdict: "stream_verdict P maxGetPeersStreamIterations [] (responses_for P 1 ?ps)
      = Some (Inr (List.map_filter id ?ps))"
    using proto_codec.responses_verdict [OF assms(1,2), of maxGetPeersStreamIterations "[]" 1] assms(3)
    by (simp add: maxGetPeersStreamIterations_def)
  have fresh: "stream_view (peer_sends (concat (server_frames P req peers))) False
      ([negotiation_bytes (0, DhtProtocolID), EncodeCanonicalFrame (session_reply P accept_reply)]
       @ response_frames P 1 ?ps) []"
    using stream_view_fresh [of "server_frames P req peers"] by (simp only: server_frames_def)
  obtain c rest where c: "GetPeers P False stream_transport req (peer_sends (concat (server_frames P req peers)))
      = (Inr (List.map_filter id ?ps), c)" "stream_view c True rest (client_frames P req)"
    using rpc_endpoint.get_peers_client [OF end_point fresh all_fit
        proto_codec.carries_responses [OF assms(1,2)] verdict] by blast
  obtain s where s: "ServeGetPeers P stream_transport peers (peer_sends (concat (client_frames P req))) = (Inr (), s)"
      "stream_view s True [] (server_frames P req peers)"
    using rpc_endpoint.serve_get_peers [OF end_point stream_view_fresh assms(2)] by (auto simp: all_fit)
  show ?thesis
    using c s stream_view_out by fastforce
qed

text \<open>
  C2. End to end: when the client of get_peers and the server run against each other, each reading
  what the other writes, both succeed and the client ends up with exactly the peers the server
  bounded for its request, in order. The peers must be encodable (less than 2 GiB, no nil claim)
  and at most 100000.
\<close>

theorem get_peers_end_to_end:
  assumes "proto_codec P"
    and "list_all (sendable P) (boundPeersForRequest peers (wire_request req))"
    and "length (boundPeersForRequest peers (wire_request req)) \<le> 100000"
  shows "\<exists>asked answered c s.
    GetPeers P False stream_transport req (peer_sends answered)
      = (Inr (List.map_filter id (boundPeersForRequest peers (wire_request req))), c) \<and>
    outb (stream c) = asked \<and>
    ServeGetPeers P stream_transport peers (peer_sends asked) = (Inr (), s) \<and>
    outb (stream s) = answered \<and> inb (stream s) = []"
  by (rule get_peers_meets_server [OF assms])

text \<open>The witness serves two peers to a client that asks for one.\<close>

definition sample_peer :: "pb_PeerInfo option" where
  "sample_peer = Some \<lparr>peer_PublicKey = [1, 2], peer_Claims = [Some \<lparr>claim_Addresses = [[3], [4]],
     claim_PeerFeatures = 1, claim_IdentitySignature = None\<rparr>]\<rparr>"

definition sample_request :: GetPeersRequest where
  "sample_request = \<lparr>gp_N = 1, gp_IncludeClients = True, gp_MaxClaims = 0, gp_MaxAddressesPerClaim = 1\<rparr>"

lemma sample_bounded:
  "boundPeersForRequest [sample_peer, None] (wire_request sample_request) =
     [Some \<lparr>peer_PublicKey = [1, 2], peer_Claims = [Some \<lparr>claim_Addresses = [[3]],
        claim_PeerFeatures = 1, claim_IdentitySignature = None\<rparr>]\<rparr>]"
  by code_simp

lemma sample_sendable:
  "list_all (sendable proto3) (boundPeersForRequest [sample_peer, None] (wire_request sample_request))"
  unfolding sample_bounded
  by (simp add: sendable_def no_nil_claims_def proto3_def GetPeersResponse_fields_def encode_fields_def
      PeerInfo_fields_def claim_bytes_def PeerIdentityClaim_fields_def opt_bytes_def opt_varint_def
      varint.simps)

theorem get_peers_end_to_end_witness:
  "\<exists>asked answered c s.
    GetPeers proto3 False stream_transport sample_request (peer_sends answered)
      = (Inr [\<lparr>peer_PublicKey = [1, 2], peer_Claims = [Some \<lparr>claim_Addresses = [[3]],
          claim_PeerFeatures = 1, claim_IdentitySignature = None\<rparr>]\<rparr>], c) \<and>
    outb (stream c) = asked \<and>
    ServeGetPeers proto3 stream_transport [sample_peer, None] (peer_sends asked) = (Inr (), s) \<and>
    outb (stream s) = answered \<and> inb (stream s) = []"
  using get_peers_end_to_end [OF proto3.proto_codec_axioms sample_sendable]
  by (simp add: sample_bounded map_filter_simps)

text \<open>
  C29. What \<open>GetPeers\<close> returns is the verdict on the stream of responses the peer sends: the first
  non-zero status or undecodable payload is the error, a FIN ends the stream and gives the peers
  collected so far, its own included, and 100000 responses without a FIN are an error.
\<close>

theorem get_peers_refines_verdict:
  assumes "proto_codec P" and "list_all2 (carries P) rs frames"
    and "stream_verdict P 100000 [] rs = Some res"
  shows "fst (GetPeers P False stream_transport req (peer_sends (concat
      ([negotiation_bytes (0, DhtProtocolID), EncodeCanonicalFrame (session_reply P accept_reply)] @ frames))))
    = res"
  using assms by (rule get_peers_stream_result)

lemma proto3_carries:
  "length (resp_Payload r) < 2 ^ 31 \<Longrightarrow> carries proto3 r (EncodeCanonicalFrame (response_bytes proto3 r))"
  using proto_codec.response_bytes [OF proto3.proto_codec_axioms] by (auto simp: carries_def)

theorem get_peers_refines_verdict_witness:
  "fst (GetPeers proto3 False stream_transport sample_request (peer_sends (concat
      ([negotiation_bytes (0, DhtProtocolID), EncodeCanonicalFrame (session_reply proto3 accept_reply)]
       @ [EncodeCanonicalFrame (response_bytes proto3
            \<lparr>resp_RequestId = 1, resp_Status = 7, resp_Flags = 1, resp_Payload = []\<rparr>)]))))
    = Inl (RPCStatusError 7)"
proof (rule get_peers_refines_verdict [OF proto3.proto_codec_axioms])
  let ?r = "\<lparr>resp_RequestId = 1, resp_Status = 7, resp_Flags = 1, resp_Payload = []\<rparr>"
  show "list_all2 (carries proto3) [?r] [EncodeCanonicalFrame (response_bytes proto3 ?r)]"
    by (simp add: proto3_carries)
  have "stream_verdict proto3 (Suc k) [] [?r] = Some (Inl (RPCStatusError 7))" for k by simp
  from this [of 99999] show "stream_verdict proto3 100000 [] [?r] = Some (Inl (RPCStatusError 7))" by simp
qed

lemma flood_verdict:
  assumes "list_all (\<lambda>r. resp_Status r = 0 \<and> \<not> bit (resp_Flags r) 0 \<and> (\<exists>ps. response_peers P r = Inr ps)) rs"
  shows "stream_verdict P (length rs) acc (rs @ later)
    = Some (Inl (Errorf ''rpc: get_peers stream exceeded max iterations without FIN''))"
  using assms by (induction rs arbitrary: acc) auto

text \<open>
  C30. A peer that never ends its stream cannot hold the client: 100000 responses without FIN, each
  acceptable by itself, end the call with the iteration error, whatever follows them.
\<close>

theorem get_peers_flood:
  assumes "proto_codec P" and "list_all2 (carries P) (rs @ later) frames" and "length rs = 100000"
    and "list_all (\<lambda>r. resp_Status r = 0 \<and> \<not> bit (resp_Flags r) 0 \<and> (\<exists>ps. response_peers P r = Inr ps)) rs"
  shows "fst (GetPeers P False stream_transport req (peer_sends (concat
      ([negotiation_bytes (0, DhtProtocolID), EncodeCanonicalFrame (session_reply P accept_reply)] @ frames))))
    = Inl (Errorf ''rpc: get_peers stream exceeded max iterations without FIN'')"
  using get_peers_stream_result [OF assms(1,2) flood_verdict [OF assms(4), of "[]" later, unfolded assms(3)]] .

theorem get_peers_flood_witness:
  "fst (GetPeers proto3 False stream_transport sample_request (peer_sends (concat
      ([negotiation_bytes (0, DhtProtocolID), EncodeCanonicalFrame (session_reply proto3 accept_reply)]
       @ replicate 100000 (EncodeCanonicalFrame (response_bytes proto3 empty_RpcResponse))))))
    = Inl (Errorf ''rpc: get_peers stream exceeded max iterations without FIN'')"
proof (rule get_peers_flood [OF proto3.proto_codec_axioms])
  show "list_all2 (carries proto3) (replicate 100000 empty_RpcResponse @ [])
      (replicate 100000 (EncodeCanonicalFrame (response_bytes proto3 empty_RpcResponse)))"
    using proto3_carries [of empty_RpcResponse]
    by (simp add: list_all2_conv_all_nth empty_RpcResponse_def)
  show "length (replicate 100000 empty_RpcResponse) = 100000" by simp
  show "list_all (\<lambda>r. resp_Status r = 0 \<and> \<not> bit (resp_Flags r) 0 \<and> (\<exists>ps. response_peers proto3 r = Inr ps))
      (replicate 100000 empty_RpcResponse)"
    by (simp add: list_all_iff empty_RpcResponse_def response_peers_def)
qed

section \<open>Negotiation and session handshake\<close>

text \<open>
  Against any well-formed reply, \<open>NegotiateProtocol\<close> succeeds exactly when the peer set neither
  the TERMINATE nor the NOT_SUPPORTED flag and echoed the protocol id; every refusal is an error
  that \<^verbatim>\<open>errors.Is\<close> recognises as \<open>ErrProtocolNotSupported\<close>, and TERMINATE as \<open>ErrProtocolTerminated\<close>.
\<close>

theorem negotiate_outcomes:
  assumes "length protocolID \<le> 255" and "length echoed \<le> 255"
  shows "case fst (NegotiateProtocol stream_transport protocolID
        (peer_sends (negotiation_bytes (flags, echoed)))) of
      Inr _ \<Rightarrow> \<not> bit flags 1 \<and> \<not> bit flags 2 \<and> echoed = protocolID
    | Inl e \<Rightarrow> (bit flags 1 \<or> bit flags 2 \<or> echoed \<noteq> protocolID) \<and>
        errors_Is e ErrProtocolNotSupported \<and> (errors_Is e ErrProtocolTerminated \<longleftrightarrow> bit flags 1)"
proof -
  have "negotiable (flags, echoed)" using assms(2) by (simp add: negotiable_def)
  from stream_rpc.negotiate_reply [OF stream_view_fresh this assms(1) TrueI, of "[]"]
  show ?thesis by (auto simp: negotiation_verdict_def ErrProtocolTerminated_def)
qed

theorem negotiate_outcomes_witness:
  "case fst (NegotiateProtocol stream_transport [7] (peer_sends (negotiation_bytes (4, [])))) of
      Inr _ \<Rightarrow> \<not> bit (4::u8) 1 \<and> \<not> bit (4::u8) 2 \<and> [] = [7::u8]
    | Inl e \<Rightarrow> (bit (4::u8) 1 \<or> bit (4::u8) 2 \<or> [] \<noteq> [7::u8]) \<and>
        errors_Is e ErrProtocolNotSupported \<and> (errors_Is e ErrProtocolTerminated \<longleftrightarrow> bit (4::u8) 1)"
  by (rule negotiate_outcomes) simp_all

text \<open>
  C31. The two sides of the negotiation agree: run against each other, the client succeeds and the
  server returns the protocol when it supports it, and otherwise both fail with an error that is
  \<open>ErrProtocolNotSupported\<close>.
\<close>

theorem negotiation_agreement:
  assumes "length protocolID \<le> 255"
  shows "\<exists>asked answered c s r1 r2.
    NegotiateProtocol stream_transport protocolID (peer_sends answered) = (r1, c) \<and>
    outb (stream c) = asked \<and>
    NegotiateProtocolInbound stream_transport supported (peer_sends asked) = (r2, s) \<and>
    outb (stream s) = answered \<and>
    (if protocolID \<in> set supported then r1 = Inr () \<and> r2 = Inr protocolID
     else (\<exists>e1 e2. r1 = Inl e1 \<and> r2 = Inl e2 \<and> errors_Is e1 ErrProtocolNotSupported \<and>
       errors_Is e2 ErrProtocolNotSupported))"
proof -
  let ?ask = "negotiation_bytes (0, protocolID)"
  let ?fp = "if protocolID \<in> set supported then (0::u8, protocolID) else (4, [])"
  have n: "negotiable ?fp" "negotiable (0, protocolID)" using assms by (simp_all add: negotiable_def)
  obtain flags echoed where fp: "?fp = (flags, echoed)" by fastforce
  from stream_rpc.negotiate_reply [OF stream_view_fresh n(1) [unfolded fp] assms TrueI, of "[]"] obtain c where
    c: "NegotiateProtocol stream_transport protocolID (peer_sends (negotiation_bytes ?fp)) =
        (negotiation_verdict protocolID flags echoed, c)" "outb (stream c) = ?ask"
    unfolding fp by (auto dest: stream_view_out)
  from stream_rpc.negotiate_inbound [OF stream_view_fresh n(2) TrueI TrueI, where ins = "[]" and supported = supported] obtain s where
    s: "NegotiateProtocolInbound stream_transport supported (peer_sends ?ask) =
      (if protocolID \<in> set supported then Inr protocolID
       else Inl (Wrap ''rpc: peer requested unsupported protocol %q'' ErrProtocolNotSupported), s)"
      "outb (stream s) = negotiation_bytes ?fp"
    by (auto dest: stream_view_out)
  have bits: "bit (4::u8) 2" "\<not> bit (4::u8) 1" "\<not> bit (0::u8) 1" by code_simp+
  show ?thesis
  proof (intro exI conjI)
    show "if protocolID \<in> set supported
      then negotiation_verdict protocolID flags echoed = Inr () \<and>
        (if protocolID \<in> set supported then Inr protocolID
         else Inl (Wrap ''rpc: peer requested unsupported protocol %q'' ErrProtocolNotSupported)) = Inr protocolID
      else \<exists>e1 e2. negotiation_verdict protocolID flags echoed = Inl e1 \<and>
        (if protocolID \<in> set supported then Inr protocolID
         else Inl (Wrap ''rpc: peer requested unsupported protocol %q'' ErrProtocolNotSupported)) = Inl e2 \<and>
        errors_Is e1 ErrProtocolNotSupported \<and> errors_Is e2 ErrProtocolNotSupported"
      using fp bits by (cases "protocolID \<in> set supported") (auto simp: negotiation_verdict_def)
  qed (rule c(1), rule c(2), rule s(1), rule s(2))
qed

theorem negotiation_agreement_witness:
  "\<exists>asked answered c s r1 r2.
    NegotiateProtocol stream_transport [1, 2] (peer_sends answered) = (r1, c) \<and>
    outb (stream c) = asked \<and>
    NegotiateProtocolInbound stream_transport [[9], [1, 2]] (peer_sends asked) = (r2, s) \<and>
    outb (stream s) = answered \<and> r1 = Inr () \<and> r2 = Inr [1, 2]"
  using negotiation_agreement [of "[1, 2]" "[[9], [1, 2]]"] by simp

text \<open>
  C32. The session handshake turns every reply of the peer into the result the protocol gives it: an
  accepted version is returned, a rejection is a \<open>HandshakeRejectedError\<close> with the peer's reason, and
  a reply that is neither is an error of its own.
\<close>

theorem session_handshake_outcomes:
  assumes "proto_codec P"
  shows "fst (PerformSessionHandshake P stream_transport
      \<lparr>stream = \<lparr>inb = EncodeCanonicalFrame (session_reply P reply), outb = [], room = None\<rparr>, canonical = True\<rparr>)
    = (case reply_SessionResult reply of
         Some (AcceptedVersion v) \<Rightarrow> Inr v
       | Some (Rejected True) \<Rightarrow> Inl (HandshakeRejectedError (reply_RejectReason reply))
       | Some (Rejected False) \<Rightarrow> Inl (Errorf ''rpc: RpcSessionReply.session_result was Rejected(false), which is not a valid handshake outcome'')
       | None \<Rightarrow> Inl (Errorf ''rpc: RpcSessionReply had neither accepted_version nor rejected set''))"
proof -
  have "stream_view \<lparr>stream = \<lparr>inb = EncodeCanonicalFrame (session_reply P reply), outb = [], room = None\<rparr>,
      canonical = True\<rparr> True [EncodeCanonicalFrame (session_reply P reply)] []"
    by (simp add: stream_view_def)
  from rpc_endpoint.handshake_client [OF stream_endpoint [OF assms] this TrueI]
  show ?thesis by (auto simp: session_verdict_def)
qed

theorem session_handshake_outcomes_witness:
  "fst (PerformSessionHandshake proto3 stream_transport
      \<lparr>stream = \<lparr>inb = EncodeCanonicalFrame (session_reply proto3 (reject_reply 2)), outb = [], room = None\<rparr>,
       canonical = True\<rparr>)
    = Inl (HandshakeRejectedError 2)"
  using session_handshake_outcomes [OF proto3.proto_codec_axioms, of "reject_reply 2"]
  by (simp add: reject_reply_def)

section \<open>What the server gives away\<close>

lemma bounded_count_spec:
  assumes "n < 2 ^ 32"
  shows "bounded_count n m = (if m = 0 then n else min n (unat m))"
proof -
  have "unat (word_of_nat n :: u32) = n" using assms by (simp add: unat_of_nat_u32)
  then show ?thesis
    by (auto simp: bounded_count_def word_less_nat_alt unat_eq_0 unat_gt_0 min_def)
qed

definition limit :: "u32 \<Rightarrow> 'a list \<Rightarrow> 'a list" where
  "limit m xs = (if m = 0 then xs else take (unat m) xs)"

lemma take_bounded_count: "length xs < 2 ^ 32 \<Longrightarrow> take (bounded_count (length xs) m) xs = limit m xs"
  by (simp add: bounded_count_spec limit_def min_def)

text \<open>
  C5. The server never gives more than was asked for: with limits that are not zero, and lists shorter
  than 4 Gi entries, at most \<open>N\<close> peers are returned, each with at most \<open>MaxClaims\<close> claims, each with at
  most \<open>MaxAddressesPerClaim\<close> addresses. A limit of zero leaves the list alone, what is kept is a
  prefix, and keys, features and signatures are unchanged.
\<close>

theorem served_within_limits:
  assumes "length peers < 2 ^ 32"
    and "\<forall>p c. Some p \<in> set peers \<longrightarrow> length (peer_Claims p) < 2 ^ 32 \<and>
      (Some c \<in> set (peer_Claims p) \<longrightarrow> length (claim_Addresses c) < 2 ^ 32)"
  shows "boundPeersForRequest peers req =
    map (map_option (\<lambda>p. p\<lparr>peer_Claims := map (map_option (\<lambda>c.
            c\<lparr>claim_Addresses := limit (pb_MaxAddressesPerClaim req) (claim_Addresses c)\<rparr>))
          (limit (pb_MaxClaims req) (peer_Claims p))\<rparr>))
      (limit (pb_N req) peers)"
proof -
  have addr: "boundClaimAddresses c m = map_option (\<lambda>c. c\<lparr>claim_Addresses := limit m (claim_Addresses c)\<rparr>) c"
    if "\<And>d. c = Some d \<Longrightarrow> length (claim_Addresses d) < 2 ^ 32" for c m
    using that by (auto simp: boundClaimAddresses_def take_bounded_count split: option.split)
  have sub: "x \<in> set (limit m xs) \<Longrightarrow> x \<in> set xs" for x m and xs :: "'b list"
    by (auto simp: limit_def dest: in_set_takeD split: if_splits)
  have "boundPeerClaims q (pb_MaxClaims req) (pb_MaxAddressesPerClaim req) =
      map_option (\<lambda>p. p\<lparr>peer_Claims := map (map_option (\<lambda>c.
            c\<lparr>claim_Addresses := limit (pb_MaxAddressesPerClaim req) (claim_Addresses c)\<rparr>))
          (limit (pb_MaxClaims req) (peer_Claims p))\<rparr>) q" if q: "q \<in> set peers" for q
  proof (cases q)
    case (Some p)
    have "map (\<lambda>c. boundClaimAddresses c m) (limit (pb_MaxClaims req) (peer_Claims p)) =
        map (map_option (\<lambda>c. c\<lparr>claim_Addresses := limit m (claim_Addresses c)\<rparr>))
          (limit (pb_MaxClaims req) (peer_Claims p))" for m
      using assms(2) q Some by (intro map_cong refl addr) (auto dest: sub)
    then show ?thesis
      using assms(2) q Some by (auto simp: boundPeerClaims_def take_bounded_count intro: pb_PeerInfo.equality)
  qed (simp add: boundPeerClaims_def)
  then show ?thesis
    using assms(1) by (auto simp: boundPeersForRequest_def take_bounded_count dest: sub)
qed

theorem served_within_limits_witness:
  "boundPeersForRequest [sample_peer, sample_peer]
     \<lparr>pb_N = 1, pb_IncludeClients = False, pb_MaxClaims = 1, pb_MaxAddressesPerClaim = 0\<rparr> = [sample_peer]"
  by (subst served_within_limits) (auto simp: sample_peer_def limit_def)

section \<open>get_chain_metadata\<close>

text \<open>
  C33. \<open>GetChainMetadata\<close> returns what the peer's response says: a non-zero status is reported as a
  \<open>RPCStatusError\<close> and its payload is not looked at; with status zero the result is the decoded
  payload or its decoding error.
\<close>

definition chain_metadata_request :: RpcRequest where
  "chain_metadata_request = \<lparr>req_RequestId = 1, req_Method = 5, req_Flags = 0, req_Deadline = 20, req_Payload = []\<rparr>"

theorem chain_metadata_outcomes:
  assumes "proto_codec P" and "carries P resp frame"
  shows "fst (GetChainMetadata P False stream_transport (peer_sends (concat
      [negotiation_bytes (0, BlockSyncProtocolID), EncodeCanonicalFrame (session_reply P accept_reply), frame])))
    = (if resp_Status resp \<noteq> 0 then Inl (RPCStatusError (resp_Status resp))
       else case Unmarshal_ChainMetadata P (resp_Payload resp) of
         Inl e \<Rightarrow> Inl (Wrap ''rpc: unmarshalling ChainMetadata payload'' e)
       | Inr m \<Rightarrow> Inr m)"
proof -
  note end_point = stream_endpoint [OF assms(1)]
  let ?reply = "EncodeCanonicalFrame (session_reply P accept_reply)"
  define s0 where "s0 = peer_sends (concat [negotiation_bytes (0, BlockSyncProtocolID), ?reply, frame])"
  have v0: "stream_view s0 False [negotiation_bytes (0, BlockSyncProtocolID), ?reply, frame] []"
    unfolding s0_def by (rule stream_view_fresh)
  have id: "negotiable (0, BlockSyncProtocolID)" "length BlockSyncProtocolID \<le> 255"
    by (simp_all add: negotiable_def BlockSyncProtocolID_def string_bytes_def)
  obtain s1 o1 where 1: "NegotiateProtocol stream_transport BlockSyncProtocolID s0 = (Inr (), s1)"
      "stream_view s1 False [?reply, frame] o1"
    using stream_rpc.negotiate_reply [OF v0 id TrueI] by (auto simp: negotiation_verdict_def)
  obtain s2 where 2: "BeginCanonicalFraming stream_transport s1 = (Inr (), s2)" "stream_view s2 True [?reply, frame] o1"
    using stream_rpc.switch [OF 1(2)] by blast
  obtain s3 o3 where 3: "PerformSessionHandshake P stream_transport s2 = (Inr 0, s3)" "stream_view s3 True [frame] o3"
    using rpc_endpoint.handshake_client [OF end_point 2(2) TrueI] by (auto simp: session_verdict_def accept_reply_def)
  obtain b where b: "Marshal_RpcRequest P chain_metadata_request = Inr b"
    using proto_codec.RpcRequest_codec [OF assms(1), of chain_metadata_request]
    by (auto simp: chain_metadata_request_def)
  obtain s4 o4 where 4: "SendFrame stream_transport (EncodeCanonicalFrame b) s3 = (Inr (), s4)" "stream_view s4 True [frame] o4"
    using stream_rpc.send [OF 3(2) TrueI] by blast
  obtain rb where rb: "frame = EncodeCanonicalFrame rb" "canonical_payload rb" "Unmarshal_RpcResponse P rb = Inr resp"
    using assms(2) by (auto simp: carries_def)
  obtain s5 where 5: "ReceiveFrame stream_transport s4 = (Inr (EncodeCanonicalFrame rb), s5)"
    using stream_rpc.receive_canonical [OF 4(2) [unfolded rb(1)] rb(2)] by blast
  show ?thesis
    unfolding s0_def [symmetric] using b [unfolded chain_metadata_request_def]
    by (simp add: GetChainMetadata_def io_simps 1(1) 2(1) 3(1) 4(1) 5 canonical_frame.dec_enc [OF rb(2)] rb(3)
        defaultRequestID_def getChainMetadataMethod_def defaultRPCDeadlineSeconds_def wrap_result_def
        split: sum.split)
qed

theorem chain_metadata_outcomes_witness:
  "fst (GetChainMetadata proto3 False stream_transport (peer_sends (concat
      [negotiation_bytes (0, BlockSyncProtocolID), EncodeCanonicalFrame (session_reply proto3 accept_reply),
       EncodeCanonicalFrame (response_bytes proto3 empty_RpcResponse)])))
    = Inr empty_ChainMetadata"
proof -
  have "carries proto3 empty_RpcResponse (EncodeCanonicalFrame (response_bytes proto3 empty_RpcResponse))"
    by (rule proto3_carries) (simp add: empty_RpcResponse_def)
  moreover have "Unmarshal_ChainMetadata proto3 [] = Inr empty_ChainMetadata"
    by (simp add: proto3_def unmarshal_def unmarshal_onto_def decode_fields_def)
  ultimately show ?thesis
    using chain_metadata_outcomes [OF proto3.proto_codec_axioms, of empty_RpcResponse]
    by (simp add: empty_RpcResponse_def)
qed

end
