(* ===== verification/Hashing.thy ===== *)
theory Hashing
  imports Go_IO
begin

text \<open>
  \<^verbatim>\<open>src/p2p/hashing.go\<close>: domain-separated hashing. The state of a \<^verbatim>\<open>hash.Hash\<close> is the
  bytes written to it so far, and the Blake2b functions, \<open>blake2b_256\<close> and \<open>blake2b_512\<close>, are
  parameters of \<open>Finalize\<close> and \<open>Finalize512\<close>.
\<close>

section \<open>Operations\<close>

type_synonym digest_state = bytes

definition writeLengthPrefixedTo :: "digest_state \<Rightarrow> bytes \<Rightarrow> digest_state" where
  "writeLengthPrefixedTo digest data = (digest @ put_le64 (word_of_nat (length data))) @ data"

text \<open>The verb \<^verbatim>\<open>%d\<close> of \<^verbatim>\<open>fmt.Sprintf\<close> on an unsigned number.\<close>

fun decimal :: "nat \<Rightarrow> string" where
  "decimal n = (if n < 10 then [char_of (48 + n)] else decimal (n div 10) @ [char_of (48 + n mod 10)])"

declare decimal.simps [simp del]

definition domainSeparationTag :: "string \<Rightarrow> u64 \<Rightarrow> string \<Rightarrow> string" where
  "domainSeparationTag domain version label =
     (if label = [] then domain @ ''.v'' @ decimal (unat version)
      else domain @ ''.v'' @ decimal (unat version) @ ''.'' @ label)"

record DomainSeparatedHasher =
  digest :: digest_state

definition NewDomainSeparatedHasher :: "string \<Rightarrow> u64 \<Rightarrow> string \<Rightarrow> DomainSeparatedHasher" where
  "NewDomainSeparatedHasher domain version label =
     \<lparr>digest = writeLengthPrefixedTo [] (string_bytes (domainSeparationTag domain version label))\<rparr>"

definition Chain :: "DomainSeparatedHasher \<Rightarrow> bytes \<Rightarrow> DomainSeparatedHasher" where
  "Chain h data = h\<lparr>digest := writeLengthPrefixedTo (digest h) data\<rparr>"

definition Finalize :: "(bytes \<Rightarrow> bytes) \<Rightarrow> DomainSeparatedHasher \<Rightarrow> bytes" where
  "Finalize blake2b_256 h = blake2b_256 (digest h)"

record DomainSeparatedHasher512 =
  digest512 :: digest_state

definition NewDomainSeparatedHasher512 :: "string \<Rightarrow> u64 \<Rightarrow> string \<Rightarrow> DomainSeparatedHasher512" where
  "NewDomainSeparatedHasher512 domain version label =
     \<lparr>digest512 = writeLengthPrefixedTo [] (string_bytes (domainSeparationTag domain version label))\<rparr>"

definition Chain512 :: "DomainSeparatedHasher512 \<Rightarrow> bytes \<Rightarrow> DomainSeparatedHasher512" where
  "Chain512 h data = h\<lparr>digest512 := writeLengthPrefixedTo (digest512 h) data\<rparr>"

definition Finalize512 :: "(bytes \<Rightarrow> bytes) \<Rightarrow> DomainSeparatedHasher512 \<Rightarrow> bytes" where
  "Finalize512 blake2b_512 h = blake2b_512 (digest512 h)"

definition CommsCoreHashDomainName :: string where "CommsCoreHashDomainName = ''com.tari.comms.core''"
definition CommsCoreHashDomainVersion :: u64 where "CommsCoreHashDomainVersion = 0"
definition noiseDHKDFLabel :: string where "noiseDHKDFLabel = ''noise.dh''"

definition newCommsCoreHasher :: "string \<Rightarrow> DomainSeparatedHasher" where
  "newCommsCoreHasher label =
     NewDomainSeparatedHasher CommsCoreHashDomainName CommsCoreHashDomainVersion label"

definition CommsCorePeerManagerDomainName :: string where
  "CommsCorePeerManagerDomainName = ''com.tari.comms.core.peer_manager''"
definition CommsCorePeerManagerDomainVersion :: u64 where "CommsCorePeerManagerDomainVersion = 1"
definition identitySignatureLabel :: string where "identitySignatureLabel = ''identity_signature''"

definition newCommsCorePeerManagerHasher512 :: "string \<Rightarrow> DomainSeparatedHasher512" where
  "newCommsCorePeerManagerHasher512 label =
     NewDomainSeparatedHasher512 CommsCorePeerManagerDomainName CommsCorePeerManagerDomainVersion label"

definition noiseDHKDF :: "(bytes \<Rightarrow> bytes) \<Rightarrow> bytes \<Rightarrow> bytes" where
  "noiseDHKDF blake2b_256 sharedSecret =
     Finalize blake2b_256 (Chain (newCommsCoreHasher noiseDHKDFLabel) sharedSecret)"

section \<open>Transcripts\<close>

definition chunk :: "bytes \<Rightarrow> bytes" where
  "chunk data = put_le64 (word_of_nat (length data)) @ data"

definition hashable :: "bytes \<Rightarrow> bool" where
  "hashable data \<longleftrightarrow> length data < 2 ^ 64"

lemma writeLengthPrefixedTo_chunk: "writeLengthPrefixedTo h data = h @ chunk data"
  by (simp add: writeLengthPrefixedTo_def chunk_def)

lemma foldl_Chain: "digest (foldl Chain h chunks) = digest h @ concat (map chunk chunks)"
  by (induction chunks arbitrary: h) (simp_all add: Chain_def writeLengthPrefixedTo_chunk)

lemma foldl_Chain512: "digest512 (foldl Chain512 h chunks) = digest512 h @ concat (map chunk chunks)"
  by (induction chunks arbitrary: h) (simp_all add: Chain512_def writeLengthPrefixedTo_chunk)

lemma new_hashers_digest:
  "digest (NewDomainSeparatedHasher d v l) = chunk (string_bytes (domainSeparationTag d v l))"
  "digest512 (NewDomainSeparatedHasher512 d v l) = chunk (string_bytes (domainSeparationTag d v l))"
  by (simp_all add: NewDomainSeparatedHasher_def NewDomainSeparatedHasher512_def writeLengthPrefixedTo_chunk)

interpretation transcript: prefix_code chunk hashable
proof
  fix a b r s
  assume h: "hashable a" "hashable b" and eq: "chunk a @ r = chunk b @ s"
  have len: "put_le64 (word_of_nat (length a)) = put_le64 (word_of_nat (length b))" and rest: "a @ r = b @ s"
    using eq by (auto simp: chunk_def)
  have "(word_of_nat (length a) :: u64) = word_of_nat (length b)" using len by simp
  then have "unat (word_of_nat (length a) :: u64) = unat (word_of_nat (length b) :: u64)" by simp
  then have "length a = length b" using h by (simp add: hashable_def unat_of_nat_u64)
  with rest show "a = b \<and> r = s" by simp
next
  fix a
  have "length (chunk a) = 8 + length a" by (simp add: chunk_def)
  then show "chunk a \<noteq> []" by auto
qed

text \<open>The whole input of a digest determines the tag and the list of chunks.\<close>

lemma transcript_inject:
  assumes "list_all hashable (tag # chunks)" "list_all hashable (tag' # chunks')"
    and "chunk tag @ concat (map chunk chunks) = chunk tag' @ concat (map chunk chunks')"
  shows "tag = tag' \<and> chunks = chunks'"
  using transcript.concat_inj [OF assms(1,2)] assms(3) by simp

section \<open>Properties\<close>

text \<open>
  Domain-separated hashing is unambiguous: if two hashers, whatever their domains, versions,
  labels and chained chunks, finish with the same digest, then either their tags and their lists
  of chunks are the same, or two different inputs of Blake2b with the same digest are known. No
  shifting of bytes between chunks or between the tag and a chunk goes unnoticed.
\<close>

theorem hasher_binding:
  assumes "list_all hashable (string_bytes (domainSeparationTag d v l) # chunks)"
    and "list_all hashable (string_bytes (domainSeparationTag d' v' l') # chunks')"
    and "Finalize blake2b (foldl Chain (NewDomainSeparatedHasher d v l) chunks) =
         Finalize blake2b (foldl Chain (NewDomainSeparatedHasher d' v' l') chunks')"
  shows "(domainSeparationTag d v l = domainSeparationTag d' v' l' \<and> chunks = chunks') \<or>
    (\<exists>x y. x \<noteq> y \<and> blake2b x = blake2b y)"
proof (cases "digest (foldl Chain (NewDomainSeparatedHasher d v l) chunks) =
    digest (foldl Chain (NewDomainSeparatedHasher d' v' l') chunks')")
  case True
  from transcript_inject [OF assms(1,2) True [unfolded foldl_Chain new_hashers_digest]]
  show ?thesis by (simp add: string_bytes_inject)
next
  case False
  with assms(3) show ?thesis by (auto simp: Finalize_def)
qed

theorem hasher_binding_witness:
  "(domainSeparationTag ''a'' 1 [] = domainSeparationTag ''a'' 1 [] \<and> [[1], [2, 3]] = [[1], [2, 3 :: u8]]) \<or>
    (\<exists>x y. x \<noteq> y \<and> rev x = rev (y :: bytes))"
proof (rule hasher_binding)
  show "list_all hashable (string_bytes (domainSeparationTag ''a'' 1 []) # [[1], [2, 3]])"
    by (simp add: hashable_def string_bytes_def domainSeparationTag_def decimal.simps)
  then show "list_all hashable (string_bytes (domainSeparationTag ''a'' 1 []) # [[1], [2, 3]])" .
qed simp

end
