(* ===== verification/Ristretto.thy ===== *)
theory Ristretto
  imports Hashing "HOL-Library.Numeral_Type"
begin

text \<open>
  \<^verbatim>\<open>src/p2p/ristretto_dh.go\<close>: the Diffie-Hellman function handed to the Noise library. The package
  \<^verbatim>\<open>gtank/ristretto255\<close> is a parameter, a record of the calls the sources make over a type of
  scalars and a type of group elements; \<open>ristretto_group\<close> states what they rely on. The group of
  that order on canonical residues, at the end, shows that the interface can be met.
\<close>

section \<open>The group library\<close>

record ('sc, 'pt) ristretto_lib =
  Scalar_SetUniformBytes :: "bytes \<Rightarrow> go_error + 'sc"
  Scalar_SetCanonicalBytes :: "bytes \<Rightarrow> go_error + 'sc"
  Scalar_Bytes :: "'sc \<Rightarrow> bytes"
  Scalar_Multiply :: "'sc \<Rightarrow> 'sc \<Rightarrow> 'sc"
  Scalar_Add :: "'sc \<Rightarrow> 'sc \<Rightarrow> 'sc"
  Element_SetCanonicalBytes :: "bytes \<Rightarrow> go_error + 'pt"
  Element_Bytes :: "'pt \<Rightarrow> bytes"
  Element_ScalarBaseMult :: "'sc \<Rightarrow> 'pt"
  Element_ScalarMult :: "'sc \<Rightarrow> 'pt \<Rightarrow> 'pt"
  Element_Add :: "'pt \<Rightarrow> 'pt \<Rightarrow> 'pt"

text \<open>Canonical encodings of 32 bytes on both sides, uniform reduction of exactly 64 bytes, and the
  laws of multiples of the generator.\<close>

locale ristretto_group =
  fixes R :: "('sc, 'pt) ristretto_lib"
  assumes scalar_uniform: "(\<exists>s. Scalar_SetUniformBytes R b = Inr s) \<longleftrightarrow> length b = 64"
    and scalar_enc_dec: "Scalar_SetCanonicalBytes R b = Inr s \<longleftrightarrow> b = Scalar_Bytes R s"
    and scalar_length: "length (Scalar_Bytes R s) = 32"
    and element_enc_dec: "Element_SetCanonicalBytes R b = Inr p \<longleftrightarrow> b = Element_Bytes R p"
    and element_length: "length (Element_Bytes R p) = 32"
    and multiply_commute: "Scalar_Multiply R s t = Scalar_Multiply R t s"
    and mult_base: "Element_ScalarMult R s (Element_ScalarBaseMult R t) =
      Element_ScalarBaseMult R (Scalar_Multiply R s t)"
    and add_commute: "Element_Add R p q = Element_Add R q p"
    and add_base: "Element_Add R (Element_ScalarBaseMult R s) (Element_ScalarBaseMult R t) =
      Element_ScalarBaseMult R (Scalar_Add R s t)"

section \<open>Key pairs and the shared secret\<close>

record DHKey =
  Private :: bytes
  Public :: bytes

text \<open>
  The reader that is the argument and, when that is nil, the system's \<^verbatim>\<open>rand.Reader\<close>: the state is
  the pair of both. \<open>keypair_from\<close> is the body on the reader chosen.
\<close>

definition keypair_from :: "('sc, 'pt) ristretto_lib \<Rightarrow> (conn, DHKey) io" where
  "keypair_from R =
     io_bind (wrap_err ''p2p: reading randomness for ristretto255 keypair: %w'' (ReadFull 64)) (\<lambda>seed.
     io_bind (wrap_result ''p2p: deriving ristretto255 scalar from randomness: %w''
       (Scalar_SetUniformBytes R seed)) (\<lambda>scalar.
     io_return \<lparr>Private = Scalar_Bytes R scalar,
       Public = Element_Bytes R (Element_ScalarBaseMult R scalar)\<rparr>))"

definition GenerateKeypair :: "('sc, 'pt) ristretto_lib \<Rightarrow> (conn option \<times> conn, DHKey) io" where
  "GenerateKeypair R s =
     (case s of
        (None, reader) \<Rightarrow> (case keypair_from R reader of (r, reader') \<Rightarrow> (r, (None, reader')))
      | (Some random, reader) \<Rightarrow> (case keypair_from R random of (r, random') \<Rightarrow> (r, (Some random', reader))))"

text \<open>The call with \<^verbatim>\<open>rand.Reader\<close> itself as the argument; the state is that reader.\<close>

definition GenerateRistrettoKeypair :: "('sc, 'pt) ristretto_lib \<Rightarrow> (conn, DHKey) io" where
  "GenerateRistrettoKeypair R reader =
     (case GenerateKeypair R (Some reader, reader) of
        (r, (Some reader', _)) \<Rightarrow> (r, reader')
      | (r, (None, reader')) \<Rightarrow> (r, reader'))"

definition DH :: "('sc, 'pt) ristretto_lib \<Rightarrow> (bytes \<Rightarrow> bytes) \<Rightarrow> bytes \<Rightarrow> bytes \<Rightarrow> go_error + bytes" where
  "DH R blake2b_256 privkey pubkey =
     (if length privkey \<noteq> 32 then Inl (Errorf ''p2p: ristretto255 private key must be 32 bytes, got %d'')
      else if length pubkey \<noteq> 32 then Inl (Errorf ''p2p: ristretto255 public key must be 32 bytes, got %d'')
      else case Scalar_SetCanonicalBytes R privkey of
        Inl e \<Rightarrow> Inl (Wrap ''p2p: invalid ristretto255 private scalar (non-canonical encoding): %w'' e)
      | Inr scalar \<Rightarrow>
          (case Element_SetCanonicalBytes R pubkey of
             Inl e \<Rightarrow> Inl (Wrap ''p2p: invalid ristretto255 public point (non-canonical encoding): %w'' e)
           | Inr point \<Rightarrow> Inr (noiseDHKDF blake2b_256 (Element_Bytes R (Element_ScalarMult R scalar point)))))"

definition DHLen :: nat where "DHLen = 32"

definition DHName :: string where "DHName = ''25519''"

section \<open>What a client of the group may use\<close>

lemma GenerateRistrettoKeypair_eq: "GenerateRistrettoKeypair R = keypair_from R"
  by (rule ext) (simp add: GenerateRistrettoKeypair_def GenerateKeypair_def split: prod.split)

text \<open>The key pair of a scalar.\<close>

definition key_of :: "('sc, 'pt) ristretto_lib \<Rightarrow> 'sc \<Rightarrow> DHKey" where
  "key_of R s = \<lparr>Private = Scalar_Bytes R s, Public = Element_Bytes R (Element_ScalarBaseMult R s)\<rparr>"

lemma key_of_sel [simp]:
  "Private (key_of R s) = Scalar_Bytes R s"
  "Public (key_of R s) = Element_Bytes R (Element_ScalarBaseMult R s)"
  by (simp_all add: key_of_def)

context ristretto_group
begin

lemma scalar_dec [simp]: "Scalar_SetCanonicalBytes R (Scalar_Bytes R s) = Inr s"
  by (simp add: scalar_enc_dec)

lemma element_dec [simp]: "Element_SetCanonicalBytes R (Element_Bytes R p) = Inr p"
  by (simp add: element_enc_dec)

lemma uniform_Inr: "length b = 64 \<Longrightarrow> (\<And>s. Scalar_SetUniformBytes R b = Inr s \<Longrightarrow> thesis) \<Longrightarrow> thesis"
  using scalar_uniform by blast

text \<open>A generated key pair is that of a scalar, and 64 bytes of randomness are enough for one.\<close>

lemma keypair_from_Inr: "keypair_from R rnd = (Inr k, rnd') \<Longrightarrow> \<exists>s. k = key_of R s"
  by (auto simp: keypair_from_def io_bind_Inr key_of_def)

lemma keypair_from_ok:
  assumes "64 \<le> length (inb rnd)"
  shows "\<exists>s. keypair_from R rnd = (Inr (key_of R s), rnd\<lparr>inb := drop 64 (inb rnd)\<rparr>)"
proof -
  obtain s where s: "Scalar_SetUniformBytes R (take 64 (inb rnd)) = Inr s"
    by (rule uniform_Inr [of "take 64 (inb rnd)"]) (use assms in simp_all)
  have "ReadFull 64 rnd = (Inr (take 64 (inb rnd)), rnd\<lparr>inb := drop 64 (inb rnd)\<rparr>)"
    using assms by (simp add: ReadFull_def)
  with s show ?thesis by (auto simp: keypair_from_def io_bind_def wrap_err_def key_of_def)
qed

lemma DH_key_of:
  "DH R kdf (Private (key_of R s)) (Public (key_of R t)) =
     Inr (noiseDHKDF kdf (Element_Bytes R (Element_ScalarBaseMult R (Scalar_Multiply R s t))))"
  by (simp add: DH_def scalar_length element_length mult_base)

lemma DH_agreement:
  "DH R kdf (Private (key_of R s)) (Public (key_of R t)) = DH R kdf (Private (key_of R t)) (Public (key_of R s))"
  unfolding DH_key_of by (simp add: multiply_commute)

lemma DH_Inr_iff:
  "(\<exists>out. DH R kdf priv pub = Inr out) \<longleftrightarrow>
     priv \<in> range (Scalar_Bytes R) \<and> pub \<in> range (Element_Bytes R)"
proof
  assume "priv \<in> range (Scalar_Bytes R) \<and> pub \<in> range (Element_Bytes R)"
  then show "\<exists>out. DH R kdf priv pub = Inr out"
    by (auto simp: DH_def scalar_length element_length)
next
  assume "\<exists>out. DH R kdf priv pub = Inr out"
  then show "priv \<in> range (Scalar_Bytes R) \<and> pub \<in> range (Element_Bytes R)"
    by (auto simp: DH_def scalar_enc_dec element_enc_dec split: if_splits sum.splits)
qed

end

section \<open>An instance: the cyclic group of the same order\<close>

text \<open>
  Ristretto255 is cyclic of the prime order \<open>2 ^ 252 + 27742317777372353535851937790883648493\<close>. The
  instance takes an element to be its discrete logarithm, encoded like a scalar: 32 bytes, least
  significant first, below the order.
\<close>

type_synonym residue = "7237005577332262213973186563042994240857116359379907606001950938285454250989"

definition residue_order :: nat where
  "residue_order = 7237005577332262213973186563042994240857116359379907606001950938285454250989"

definition residue_bytes :: "residue \<Rightarrow> bytes" where
  "residue_bytes x = le_bytes 32 (nat (Rep_bit1 x))"

definition residue_dec :: "bytes \<Rightarrow> go_error + residue" where
  "residue_dec b =
     (if length b = 32 \<and> le_nat b < residue_order then Inr (of_nat (le_nat b))
      else Inl (Errorf ''ristretto255: invalid encoding''))"

definition residue_lib :: "(residue, residue) ristretto_lib" where
  "residue_lib = \<lparr>
     Scalar_SetUniformBytes = (\<lambda>b. if length b = 64 then Inr (of_nat (le_nat b))
       else Inl (Errorf ''ristretto255: SetUniformBytes input is not 64 bytes long'')),
     Scalar_SetCanonicalBytes = residue_dec, Scalar_Bytes = residue_bytes,
     Scalar_Multiply = (*), Scalar_Add = (+),
     Element_SetCanonicalBytes = residue_dec, Element_Bytes = residue_bytes,
     Element_ScalarBaseMult = id, Element_ScalarMult = (*), Element_Add = (+)\<rparr>"

lemma residue_order: "2 ^ 252 + 27742317777372353535851937790883648493 = residue_order"
  by (simp add: residue_order_def)

lemma card_residue: "CARD(residue) = residue_order"
  by (simp add: residue_order_def)

lemma Rep_residue_less: "nat (Rep_bit1 (x :: residue)) < residue_order"
  using bit1.Rep_less_n [of x] by (simp add: residue_order_def)

lemma residue_enc_dec: "residue_dec b = Inr x \<longleftrightarrow> b = residue_bytes x"
proof
  assume "residue_dec b = Inr x"
  then have len: "length b = 32" and lt: "le_nat b < residue_order" and x: "x = of_nat (le_nat b)"
    by (auto simp: residue_dec_def split: if_splits)
  have "Rep_bit1 x = int (le_nat b) mod int CARD(residue)"
    unfolding x bit1.of_nat_eq by (rule bit1.Rep_Abs_mod)
  then have "nat (Rep_bit1 x) = le_nat b" using lt by (simp add: residue_order_def)
  then show "b = residue_bytes x" using le_bytes_le_nat [of b] len by (simp add: residue_bytes_def)
next
  assume b: "b = residue_bytes x"
  have "residue_order < 256 ^ 32" by (simp add: residue_order_def)
  then have "le_nat b = nat (Rep_bit1 x)"
    using Rep_residue_less [of x] b by (simp add: residue_bytes_def le_nat_le_bytes)
  moreover have "of_nat (nat (Rep_bit1 x)) = x"
    using Rep_bit1 [of x] bit1.Rep_mod [of x] by (simp add: bit1.of_nat_eq bit1.Rep_inverse)
  ultimately show "residue_dec b = Inr x"
    using Rep_residue_less [of x] b by (simp add: residue_dec_def residue_bytes_def)
qed

interpretation residues: ristretto_group residue_lib
  by unfold_locales
    (simp_all add: residue_lib_def residue_enc_dec mult.commute add.commute, simp_all add: residue_bytes_def)

section \<open>Properties\<close>

lemma GenerateKeypair_Inr:
  assumes "ristretto_group R" "GenerateKeypair R st = (Inr k, st')"
  shows "\<exists>s. k = key_of R s"
  using assms(2) ristretto_group.keypair_from_Inr [OF assms(1)]
  by (auto simp: GenerateKeypair_def split: prod.splits option.splits)


definition reader_of :: "bytes \<Rightarrow> conn" where
  "reader_of b = \<lparr>inb = b, outb = [], room = None\<rparr>"


text \<open>
  The shared secret is computed for exactly the canonical inputs: \<^verbatim>\<open>DH\<close> succeeds if and only if the
  private key is the encoding of a scalar and the public key the encoding of a group element; every
  other length or encoding is refused.
\<close>

theorem dh_accepts_exactly_canonical:
  assumes "ristretto_group R"
  shows "(\<exists>out. DH R blake2b_256 privkey pubkey = Inr out) \<longleftrightarrow>
    privkey \<in> range (Scalar_Bytes R) \<and> pubkey \<in> range (Element_Bytes R)"
  by (rule ristretto_group.DH_Inr_iff [OF assms])

theorem dh_accepts_exactly_canonical_witness:
  "(\<exists>out. DH residue_lib rev [] [] = Inr out) \<longleftrightarrow>
    [] \<in> range (Scalar_Bytes residue_lib) \<and> [] \<in> range (Element_Bytes residue_lib)"
  by (rule dh_accepts_exactly_canonical [OF residues.ristretto_group_axioms])

end
