(* ===== verification/Identity.thy ===== *)
theory Identity
  imports Ristretto Proto_Wire
begin

text \<open>
  \<^verbatim>\<open>src/p2p/identity.go\<close> and \<^verbatim>\<open>src/p2p/identity_signature.go\<close>: the identity message, its frame, and the
  Schnorr signature it carries. The clock and the randomness are arguments; \<^verbatim>\<open>int64\<close> times are kept
  as 64-bit words.
\<close>

section \<open>Data\<close>

record PeerIdentityMsg =
  msg_Addresses :: "bytes list"
  msg_Features :: u32
  msg_SupportedProtocols :: "bytes list"
  msg_UserAgent :: string
  msg_IdentitySignature :: "pb_IdentitySignature option"

text \<open>\<^verbatim>\<open>proto.Marshal\<close> and \<^verbatim>\<open>proto.Unmarshal\<close> at this message type: a parameter.\<close>

record identity_lib =
  Marshal_PeerIdentityMsg :: "PeerIdentityMsg \<Rightarrow> go_error + bytes"
  Unmarshal_PeerIdentityMsg :: "bytes \<Rightarrow> go_error + PeerIdentityMsg"

definition identityProtocolMajorVersion :: u8 where "identityProtocolMajorVersion = 0"
definition maxIdentityProtocolMsgSize :: nat where "maxIdentityProtocolMsgSize = 1024"
definition outgoingUserAgent :: string where "outgoingUserAgent = ''go-tari-lib-p2p-probe/0.1''"
definition FeaturesCommunicationNode :: u32 where "FeaturesCommunicationNode = 1 OR 2"
definition identitySignatureVersion :: u8 where "identitySignatureVersion = 0"

record IdentityOptions =
  opt_Features :: u32
  opt_Addresses :: "bytes list"

record IdentitySignature =
  is_Version :: u32
  is_Signature :: bytes
  is_PublicNonce :: bytes
  is_UpdatedAt :: u64

record PeerInfo =
  Reachable :: bool
  RemoteStaticPubKey :: bytes
  Addresses :: "bytes list"
  Features :: u32
  SupportedProtocols :: "bytes list"
  UserAgent :: string
  info_IdentitySignature :: "IdentitySignature option"
  Latency :: int

section \<open>The signature\<close>

definition constructIdentitySignatureChallenge ::
  "(bytes \<Rightarrow> bytes) \<Rightarrow> bytes \<Rightarrow> bytes \<Rightarrow> u8 \<Rightarrow> u64 \<Rightarrow> u32 \<Rightarrow> bytes list \<Rightarrow> bytes" where
  "constructIdentitySignatureChallenge blake2b_512 staticPublicKey publicNonce version updatedAt features addresses =
     (let hasher = Chain512 (Chain512 (Chain512 (Chain512 (Chain512
            (newCommsCorePeerManagerHasher512 identitySignatureLabel)
            staticPublicKey) publicNonce) [version]) (put_le64 updatedAt)) (put_le32 features)
      in Finalize512 blake2b_512 (foldl Chain512 hasher addresses))"

text \<open>The state is \<^verbatim>\<open>rand.Reader\<close>, from which the nonce is drawn; \<open>now\<close> is \<^verbatim>\<open>time.Now().Unix()\<close>.\<close>

definition buildOurIdentitySignature ::
  "('sc, 'pt) ristretto_lib \<Rightarrow> (bytes \<Rightarrow> bytes) \<Rightarrow> u64 \<Rightarrow> DHKey \<Rightarrow> u32 \<Rightarrow> bytes list \<Rightarrow>
     (conn, pb_IdentitySignature) io" where
  "buildOurIdentitySignature R blake2b_512 now staticKeypair features addresses =
     io_bind (wrap_result ''p2p: decoding our own static private key as a ristretto255 scalar: %w''
       (Scalar_SetCanonicalBytes R (Private staticKeypair))) (\<lambda>secretKey.
     io_bind (wrap_err ''p2p: generating identity signature nonce: %w'' (GenerateRistrettoKeypair R)) (\<lambda>nonceKeypair.
     io_bind (wrap_result ''p2p: decoding identity signature nonce as a ristretto255 scalar: %w''
       (Scalar_SetCanonicalBytes R (Private nonceKeypair))) (\<lambda>secretNonce.
     io_bind (wrap_result ''p2p: deriving identity signature challenge scalar: %w''
       (Scalar_SetUniformBytes R (constructIdentitySignatureChallenge blake2b_512 (Public staticKeypair)
          (Public nonceKeypair) identitySignatureVersion now features addresses))) (\<lambda>e.
     io_return \<lparr>sig_Version = ucast identitySignatureVersion,
       sig_Signature = Scalar_Bytes R (Scalar_Add R (Scalar_Multiply R e secretKey) secretNonce),
       sig_PublicNonce = Public nonceKeypair, sig_UpdatedAt = now\<rparr>))))"

definition VerifyIdentitySignature ::
  "('sc, 'pt) ristretto_lib \<Rightarrow> (bytes \<Rightarrow> bytes) \<Rightarrow> bytes \<Rightarrow> u32 \<Rightarrow> bytes list \<Rightarrow> IdentitySignature option \<Rightarrow>
     go_error + bool" where
  "VerifyIdentitySignature R blake2b_512 staticPublicKey features addresses sig =
     (case sig of
        None \<Rightarrow> Inl (Errorf ''p2p: VerifyIdentitySignature: nil signature'')
      | Some sig \<Rightarrow>
          (case Scalar_SetUniformBytes R (constructIdentitySignatureChallenge blake2b_512 staticPublicKey
               (is_PublicNonce sig) (ucast (is_Version sig)) (is_UpdatedAt sig) features addresses) of
             Inl e \<Rightarrow> Inl (Wrap ''p2p: VerifyIdentitySignature: deriving challenge scalar: %w'' e)
           | Inr e \<Rightarrow>
          (case Scalar_SetCanonicalBytes R (is_Signature sig) of
             Inl e \<Rightarrow> Inl (Wrap ''p2p: VerifyIdentitySignature: decoding signature scalar: %w'' e)
           | Inr s \<Rightarrow>
          (case Element_SetCanonicalBytes R (is_PublicNonce sig) of
             Inl e \<Rightarrow> Inl (Wrap ''p2p: VerifyIdentitySignature: decoding public nonce point: %w'' e)
           | Inr rPoint \<Rightarrow>
          (case Element_SetCanonicalBytes R staticPublicKey of
             Inl e \<Rightarrow> Inl (Wrap ''p2p: VerifyIdentitySignature: decoding static public key point: %w'' e)
           | Inr pPoint \<Rightarrow>
               (let lhs = Element_ScalarBaseMult R s;
                    ePoint = Element_ScalarMult R e pPoint;
                    rhs = Element_Add R rPoint ePoint
                in Inr (Element_Bytes R lhs = Element_Bytes R rhs)))))))"

section \<open>The message and its frame\<close>

definition ourPeerIdentityMsgBytes ::
  "('sc, 'pt) ristretto_lib \<Rightarrow> (bytes \<Rightarrow> bytes) \<Rightarrow> identity_lib \<Rightarrow> u64 \<Rightarrow> DHKey \<Rightarrow> u32 \<Rightarrow> bytes list \<Rightarrow>
     (conn, bytes) io" where
  "ourPeerIdentityMsgBytes R blake2b_512 P now staticKeypair features addresses =
     io_bind (wrap_err ''p2p: building our own identity signature: %w''
       (buildOurIdentitySignature R blake2b_512 now staticKeypair features addresses)) (\<lambda>sig.
     wrap_result ''p2p: marshalling outgoing PeerIdentityMsg: %w'' (Marshal_PeerIdentityMsg P
       \<lparr>msg_Addresses = addresses, msg_Features = features, msg_SupportedProtocols = [],
        msg_UserAgent = outgoingUserAgent, msg_IdentitySignature = Some sig\<rparr>))"

definition encodeIdentityProtocolFrame :: "bytes \<Rightarrow> go_error + bytes" where
  "encodeIdentityProtocolFrame msgBytes =
     (if length msgBytes > maxIdentityProtocolMsgSize
      then Inl (Errorf ''p2p: identity message of %d bytes exceeds MAX_IDENTITY_PROTOCOL_MSG_SIZE (%d)'')
      else Inr (identityProtocolMajorVersion # put_le16 (word_of_nat (length msgBytes)) @ msgBytes))"

text \<open>The copy of the generated signature type into the package's own.\<close>

definition signature_of :: "pb_IdentitySignature \<Rightarrow> IdentitySignature" where
  "signature_of sig = \<lparr>is_Version = sig_Version sig, is_Signature = sig_Signature sig,
     is_PublicNonce = sig_PublicNonce sig, is_UpdatedAt = sig_UpdatedAt sig\<rparr>"

definition info_of :: "PeerIdentityMsg \<Rightarrow> PeerInfo" where
  "info_of msg = \<lparr>Reachable = False, RemoteStaticPubKey = [], Addresses = msg_Addresses msg,
     Features = msg_Features msg, SupportedProtocols = msg_SupportedProtocols msg,
     UserAgent = msg_UserAgent msg,
     info_IdentitySignature = map_option signature_of (msg_IdentitySignature msg), Latency = 0\<rparr>"

definition decodeIdentityProtocolFrame :: "identity_lib \<Rightarrow> bytes \<Rightarrow> go_error + PeerInfo" where
  "decodeIdentityProtocolFrame P frame =
     (if length frame < 3 then Inl (Errorf ''p2p: identity protocol frame too short (%d bytes, need at least 3)'')
      else if frame ! 0 > identityProtocolMajorVersion then
        Inl (Errorf ''p2p: unsupported peer identity protocol major version %d (max supported %d)'')
      else let n = unat (get_le16 (drop 1 frame)) in
        if n > maxIdentityProtocolMsgSize then
          Inl (Errorf ''p2p: peer identity message declares length %d, exceeds MAX_IDENTITY_PROTOCOL_MSG_SIZE (%d)'')
        else if n > length frame - 3 then
          Inl (Errorf ''p2p: peer identity message declares length %d but only %d bytes were sent'')
        else case Unmarshal_PeerIdentityMsg P (take n (drop 3 frame)) of
          Inl e \<Rightarrow> Inl (Wrap ''p2p: decoding peer PeerIdentityMsg: %w'' e)
        | Inr msg \<Rightarrow> Inr (info_of msg))"

section \<open>What is relied on of the message codec\<close>

definition ascii :: "string \<Rightarrow> bool" where
  "ascii s \<longleftrightarrow> list_all (\<lambda>c. (of_char c :: nat) < 128) s"

text \<open>The size of what a message carries: each field takes a tag and a length besides its bytes.\<close>

definition carried :: "PeerIdentityMsg \<Rightarrow> nat" where
  "carried m = sum_list (map (\<lambda>a. 6 + length a) (msg_Addresses m)) +
     sum_list (map (\<lambda>a. 6 + length a) (msg_SupportedProtocols m)) + length (msg_UserAgent m) +
     (case msg_IdentitySignature m of None \<Rightarrow> 0 | Some s \<Rightarrow> length (sig_Signature s) + length (sig_PublicNonce s))"

text \<open>A message whose text field is valid UTF-8, which ASCII is, is marshalled; the encoding adds at
  most 64 bytes to what it carries; and a message comes back from its encoding.\<close>

locale identity_codec =
  fixes P :: identity_lib
  assumes Marshal_total: "ascii (msg_UserAgent m) \<Longrightarrow> \<exists>b. Marshal_PeerIdentityMsg P m = Inr b"
    and Marshal_length: "carried m < 2 ^ 30 \<Longrightarrow> Marshal_PeerIdentityMsg P m = Inr b \<Longrightarrow> length b \<le> 64 + carried m"
    and Unmarshal_Marshal: "Marshal_PeerIdentityMsg P m = Inr b \<Longrightarrow> length b < 2 ^ 31 \<Longrightarrow>
      Unmarshal_PeerIdentityMsg P b = Inr m"
begin

lemma frame_roundtrip:
  assumes "Marshal_PeerIdentityMsg P m = Inr b" "encodeIdentityProtocolFrame b = Inr frame"
  shows "decodeIdentityProtocolFrame P (frame @ rest) = Inr (info_of m)"
proof -
  have le: "length b \<le> 1024"
    and frame: "frame = identityProtocolMajorVersion # put_le16 (word_of_nat (length b)) @ b"
    using assms(2) by (auto simp: encodeIdentityProtocolFrame_def maxIdentityProtocolMsgSize_def split: if_splits)
  have "length b < 2 ^ 31" using le by (rule le_less_trans) simp
  then have "Unmarshal_PeerIdentityMsg P b = Inr m" by (rule Unmarshal_Marshal [OF assms(1)])
  moreover have "drop 3 (frame @ rest) = b @ rest"
  proof -
    have "length (identityProtocolMajorVersion # put_le16 (word_of_nat (length b))) = 3" by simp
    then show ?thesis unfolding frame by (simp add: numeral_3_eq_3)
  qed
  moreover have "unat (get_le16 (drop 1 (frame @ rest))) = length b"
    using le by (simp add: frame unat_of_nat_u16)
  moreover have "(frame @ rest) ! 0 = identityProtocolMajorVersion" "length (frame @ rest) = 3 + length b + length rest"
    by (simp_all add: frame)
  ultimately show ?thesis
    using le by (simp add: decodeIdentityProtocolFrame_def maxIdentityProtocolMsgSize_def)
qed

end

section \<open>The proto3 format meets it\<close>

fun set_PeerIdentityMsg :: "PeerIdentityMsg \<Rightarrow> field \<Rightarrow> PeerIdentityMsg option" where
  "set_PeerIdentityMsg m (num, Varint v) = Some (if num = 2 then m\<lparr>msg_Features := word_of_nat v\<rparr> else m)"
| "set_PeerIdentityMsg m (num, Bytes b) =
     (if num = 1 then Some (m\<lparr>msg_Addresses := msg_Addresses m @ [b]\<rparr>)
      else if num = 3 then Some (m\<lparr>msg_SupportedProtocols := msg_SupportedProtocols m @ [b]\<rparr>)
      else if num = 4 then Some (m\<lparr>msg_UserAgent := map (\<lambda>x. char_of (unat x)) b\<rparr>)
      else if num = 5 then
        map_option (\<lambda>s. m\<lparr>msg_IdentitySignature := Some s\<rparr>)
          (unmarshal_onto set_IdentitySignature
             (case msg_IdentitySignature m of None \<Rightarrow> empty_IdentitySignature | Some s \<Rightarrow> s) b)
      else Some m)"
| "set_PeerIdentityMsg m (num, Skipped) = Some m"

definition PeerIdentityMsg_fields :: "PeerIdentityMsg \<Rightarrow> field list" where
  "PeerIdentityMsg_fields m = map (\<lambda>a. (1, Bytes a)) (msg_Addresses m)
     @ opt_varint 2 (unat (msg_Features m)) @ map (\<lambda>a. (3, Bytes a)) (msg_SupportedProtocols m)
     @ opt_bytes 4 (string_bytes (msg_UserAgent m))
     @ (case msg_IdentitySignature m of
          None \<Rightarrow> []
        | Some s \<Rightarrow> [(5, Bytes (encode_fields (IdentitySignature_fields s)))])"

definition empty_PeerIdentityMsg :: PeerIdentityMsg where
  "empty_PeerIdentityMsg = \<lparr>msg_Addresses = [], msg_Features = 0, msg_SupportedProtocols = [],
     msg_UserAgent = [], msg_IdentitySignature = None\<rparr>"

definition identity_proto3 :: identity_lib where
  "identity_proto3 = \<lparr>
     Marshal_PeerIdentityMsg = (\<lambda>m. Inr (encode_fields (PeerIdentityMsg_fields m))),
     Unmarshal_PeerIdentityMsg = unmarshal set_PeerIdentityMsg empty_PeerIdentityMsg\<rparr>"

lemma repeated_bytes_merge:
  "merge_fields set_PeerIdentityMsg m (map (\<lambda>a. (Suc 0, Bytes a)) as) =
     Some (m\<lparr>msg_Addresses := msg_Addresses m @ as\<rparr>)"
  "merge_fields set_PeerIdentityMsg m (map (\<lambda>a. (3, Bytes a)) as) =
     Some (m\<lparr>msg_SupportedProtocols := msg_SupportedProtocols m @ as\<rparr>)"
  by (induction as arbitrary: m) simp_all

lemma map_char_of_string_bytes [simp]: "map (\<lambda>x. char_of (unat x)) (string_bytes s) = s"
proof -
  have "unat (of_char c :: u8) = of_char c" for c
    using unat_of_nat_u8 [of "of_char c"] by (simp add: of_nat_of_char)
  then show ?thesis by (simp add: string_bytes_def comp_def)
qed

lemma string_bytes_Nil [simp]: "string_bytes s = [] \<longleftrightarrow> s = []"
  by (simp add: string_bytes_def)

lemma PeerIdentityMsg_merge:
  assumes "length (encode_fields (PeerIdentityMsg_fields m)) < 2 ^ 31"
  shows "list_all valid_field (PeerIdentityMsg_fields m)"
    and "merge_fields set_PeerIdentityMsg empty_PeerIdentityMsg (PeerIdentityMsg_fields m) = Some m"
proof -
  have lt: "length b < 2 ^ 31" if "(num, Bytes b) \<in> set (PeerIdentityMsg_fields m)" for num b
    using bytes_field_length [OF that] assms by linarith
  have sig: "list_all valid_field (IdentitySignature_fields s)"
    "length (encode_fields (IdentitySignature_fields s)) < 2 ^ 31" if "msg_IdentitySignature m = Some s" for s
    using that lt [of 5 "encode_fields (IdentitySignature_fields s)"] IdentitySignature_valid [of s]
    by (simp_all add: PeerIdentityMsg_fields_def)
  have ua: "length (string_bytes (msg_UserAgent m)) < 2 ^ 31"
    using opt_bytes_length [of 4 "string_bytes (msg_UserAgent m)" "PeerIdentityMsg_fields m"] assms
    by (fastforce simp: PeerIdentityMsg_fields_def)
  show "list_all valid_field (PeerIdentityMsg_fields m)"
    using lt [of 1] lt [of 3] sig(2) ua
    by (auto simp: PeerIdentityMsg_fields_def list_all_iff opt_varint_def opt_bytes_def unat_lt_2_64 [simplified]
        split: option.split if_splits)
  show "merge_fields set_PeerIdentityMsg empty_PeerIdentityMsg (PeerIdentityMsg_fields m) = Some m"
    using sig(1)
    by (cases m) (auto simp: PeerIdentityMsg_fields_def repeated_bytes_merge merge_fields_append merge_opt
        empty_PeerIdentityMsg_def unmarshal_encode IdentitySignature_merge unat_eq_0 split: option.split)
qed

lemma length_repeated:
  assumes "num < 16" "sum_list (map (\<lambda>a. 6 + length a) as) < 2 ^ 30"
  shows "length (encode_fields (map (\<lambda>a. (num, Bytes a)) as)) \<le> sum_list (map (\<lambda>a. 6 + length a) as)"
  using assms(2)
proof (induction as)
  case (Cons a as)
  have "length a < 2 ^ 31" using Cons.prems by simp
  from length_bytes_field [OF assms(1) this] Cons show ?case
    by (simp add: encode_fields_def)
qed simp

lemma IdentitySignature_length:
  assumes "length (sig_Signature s) + length (sig_PublicNonce s) < 2 ^ 30"
  shows "length (encode_fields (IdentitySignature_fields s)) \<le> 34 + length (sig_Signature s) + length (sig_PublicNonce s)"
  using length_opt(1) [of 1 "unat (sig_Version s)"] length_opt(2) [of 2 "sig_Signature s"]
    length_opt(2) [of 3 "sig_PublicNonce s"] length_opt(1) [of 4 "unat (sig_UpdatedAt s)"] assms unat_lt_2_64
  unfolding IdentitySignature_fields_def encode_fields_append length_append by simp

lemma PeerIdentityMsg_length:
  assumes "carried m < 2 ^ 30"
  shows "length (encode_fields (PeerIdentityMsg_fields m)) \<le> 64 + carried m"
proof -
  let ?sig = "case msg_IdentitySignature m of None \<Rightarrow> [] | Some s \<Rightarrow> [(5, Bytes (encode_fields (IdentitySignature_fields s)))]"
    and ?n = "case msg_IdentitySignature m of None \<Rightarrow> 0 | Some s \<Rightarrow> length (sig_Signature s) + length (sig_PublicNonce s)"
  have sig: "length (encode_fields ?sig) \<le> 40 + ?n"
  proof (cases "msg_IdentitySignature m")
    case (Some s)
    then have n: "length (sig_Signature s) + length (sig_PublicNonce s) < 2 ^ 30" using assms by (simp add: carried_def)
    note l = IdentitySignature_length [OF n]
    with n have "length (encode_fields (IdentitySignature_fields s)) < 2 ^ 31" by simp
    from length_bytes_field [of 5, OF _ this] l Some show ?thesis by (simp add: encode_fields_def)
  qed simp
  have "length (msg_UserAgent m) < 2 ^ 31" using assms by (simp add: carried_def)
  then have ua: "length (encode_fields (opt_bytes 4 (string_bytes (msg_UserAgent m)))) \<le> 6 + length (msg_UserAgent m)"
    using length_opt(2) [of 4 "string_bytes (msg_UserAgent m)"] by (simp add: string_bytes_def)
  have reps: "sum_list (map (\<lambda>a. 6 + length a) (msg_Addresses m)) < 2 ^ 30"
    "sum_list (map (\<lambda>a. 6 + length a) (msg_SupportedProtocols m)) < 2 ^ 30"
    using assms by (simp_all add: carried_def)
  show ?thesis
    using length_repeated [of 1, OF _ reps(1)] length_repeated [of 3, OF _ reps(2)]
      length_opt(1) [of 2 "unat (msg_Features m)"] unat_lt_2_64 sig ua
    unfolding PeerIdentityMsg_fields_def encode_fields_append length_append carried_def by simp
qed

interpretation identity_proto3: identity_codec identity_proto3
proof
  fix m b
  show "\<exists>b. Marshal_PeerIdentityMsg identity_proto3 m = Inr b" by (simp add: identity_proto3_def)
  show "length b \<le> 64 + carried m" if "carried m < 2 ^ 30" "Marshal_PeerIdentityMsg identity_proto3 m = Inr b"
    using that PeerIdentityMsg_length [of m] by (auto simp: identity_proto3_def)
  show "Unmarshal_PeerIdentityMsg identity_proto3 b = Inr m"
    if "Marshal_PeerIdentityMsg identity_proto3 m = Inr b" "length b < 2 ^ 31"
    using that by (auto simp: identity_proto3_def PeerIdentityMsg_merge intro!: unmarshal_ok)
qed

section \<open>Sign and verify\<close>

context ristretto_group
begin

text \<open>The Schnorr equation: \<open>(e k + n) G = n G + e (k G)\<close>.\<close>

lemma schnorr:
  "Element_Add R (Element_ScalarBaseMult R n) (Element_ScalarMult R e (Element_ScalarBaseMult R k)) =
     Element_ScalarBaseMult R (Scalar_Add R (Scalar_Multiply R e k) n)"
  by (subst add_commute) (simp add: mult_base add_base)

text \<open>Signing needs 64 bytes of randomness, and its result verifies against the same claim.\<close>

lemma sign_verify:
  assumes hash: "\<And>x. length (blake2b_512 x) = 64" and rnd: "64 \<le> length (inb rnd)"
  obtains sig where
    "buildOurIdentitySignature R blake2b_512 now (key_of R k) features addresses rnd =
       (Inr sig, rnd\<lparr>inb := drop 64 (inb rnd)\<rparr>)"
    "length (sig_Signature sig) = 32" "length (sig_PublicNonce sig) = 32"
    "VerifyIdentitySignature R blake2b_512 (Public (key_of R k)) features addresses (Some (signature_of sig)) = Inr True"
proof -
  obtain n where n: "GenerateRistrettoKeypair R rnd = (Inr (key_of R n), rnd\<lparr>inb := drop 64 (inb rnd)\<rparr>)"
    using keypair_from_ok [OF rnd] by (auto simp: GenerateRistrettoKeypair_eq)
  let ?c = "constructIdentitySignatureChallenge blake2b_512 (Public (key_of R k)) (Public (key_of R n))
    identitySignatureVersion now features addresses"
  obtain e where e: "Scalar_SetUniformBytes R ?c = Inr e"
    by (rule uniform_Inr [of ?c]) (simp_all add: constructIdentitySignatureChallenge_def Finalize512_def hash)
  let ?sig = "\<lparr>sig_Version = ucast identitySignatureVersion,
    sig_Signature = Scalar_Bytes R (Scalar_Add R (Scalar_Multiply R e k) n),
    sig_PublicNonce = Public (key_of R n), sig_UpdatedAt = now\<rparr>"
  have sign: "buildOurIdentitySignature R blake2b_512 now (key_of R k) features addresses rnd =
      (Inr ?sig, rnd\<lparr>inb := drop 64 (inb rnd)\<rparr>)"
    using n e by (simp add: buildOurIdentitySignature_def io_bind_def wrap_err_def)
  have verify: "VerifyIdentitySignature R blake2b_512 (Public (key_of R k)) features addresses
      (Some (signature_of ?sig)) = Inr True"
    using e by (simp add: VerifyIdentitySignature_def signature_of_def identitySignatureVersion_def schnorr)
  show ?thesis by (rule that [OF sign _ _ verify]) (simp_all add: scalar_length element_length)
qed

end

lemma ascii_outgoingUserAgent: "ascii outgoingUserAgent"
  by (simp add: ascii_def outgoingUserAgent_def)

text \<open>The message this client builds is accepted by a peer; its frame is short.\<close>

lemma our_identity_ok:
  assumes R: "ristretto_group R" and P: "identity_codec P" and hash: "\<And>x. length (blake2b_512 x) = 64"
    and key: "GenerateKeypair R st = (Inr kp, st')" and rnd: "64 \<le> length (inb rnd)"
    and addrs: "sum_list (map (\<lambda>a. 6 + length a) addresses) \<le> 800"
  shows "\<exists>b rnd' frame info.
    ourPeerIdentityMsgBytes R blake2b_512 P now kp features addresses rnd = (Inr b, rnd') \<and>
    encodeIdentityProtocolFrame b = Inr frame \<and> length frame \<le> 1027 \<and>
    decodeIdentityProtocolFrame P (frame @ rest) = Inr info \<and>
    Features info = features \<and> Addresses info = addresses \<and> UserAgent info = outgoingUserAgent \<and>
    VerifyIdentitySignature R blake2b_512 (Public kp) (Features info) (Addresses info)
      (info_IdentitySignature info) = Inr True"
proof -
  obtain k where k: "kp = key_of R k" using GenerateKeypair_Inr [OF R key] by blast
  obtain sig where sig: "buildOurIdentitySignature R blake2b_512 now kp features addresses rnd =
      (Inr sig, rnd\<lparr>inb := drop 64 (inb rnd)\<rparr>)" "length (sig_Signature sig) = 32" "length (sig_PublicNonce sig) = 32"
    "VerifyIdentitySignature R blake2b_512 (Public kp) features addresses (Some (signature_of sig)) = Inr True"
    unfolding k by (rule ristretto_group.sign_verify [OF R hash rnd])
  let ?m = "\<lparr>msg_Addresses = addresses, msg_Features = features, msg_SupportedProtocols = [],
    msg_UserAgent = outgoingUserAgent, msg_IdentitySignature = Some sig\<rparr>"
  obtain b where b: "Marshal_PeerIdentityMsg P ?m = Inr b"
    using identity_codec.Marshal_total [OF P, of ?m] ascii_outgoingUserAgent by auto
  have "carried ?m \<le> 889" using addrs sig(2,3) by (simp add: carried_def outgoingUserAgent_def)
  moreover from this have "carried ?m < 2 ^ 30" by simp
  ultimately have "length b \<le> maxIdentityProtocolMsgSize"
    using identity_codec.Marshal_length [OF P _ b] by (simp add: maxIdentityProtocolMsgSize_def)
  then obtain frame where f: "encodeIdentityProtocolFrame b = Inr frame" "length frame \<le> 1027"
    by (simp add: encodeIdentityProtocolFrame_def maxIdentityProtocolMsgSize_def)
  have our: "ourPeerIdentityMsgBytes R blake2b_512 P now kp features addresses rnd =
      (Inr b, rnd\<lparr>inb := drop 64 (inb rnd)\<rparr>)"
    using sig(1) b by (simp add: ourPeerIdentityMsgBytes_def io_bind_def wrap_err_def)
  have "decodeIdentityProtocolFrame P (frame @ rest) = Inr (info_of ?m)"
    by (rule identity_codec.frame_roundtrip [OF P b f(1)])
  moreover have "info_IdentitySignature (info_of ?m) = Some (signature_of sig)" "Features (info_of ?m) = features"
    "Addresses (info_of ?m) = addresses" "UserAgent (info_of ?m) = outgoingUserAgent"
    by (simp_all add: info_of_def)
  ultimately show ?thesis using our f sig(4) by metis
qed

text \<open>
  C17. The identity this client sends is one a peer accepts: with a key pair made by this package,
  64 bytes of randomness for the nonce and up to 800 bytes of addresses (6 counted for each
  besides its own), the outgoing message is built and fits the limit of 1024 bytes; its frame is
  decoded by the receiver, whatever follows it, to the advertised features, addresses and user
  agent, and the signature in it verifies against the sender's public key and exactly these
  features and addresses.
\<close>

theorem our_identity_accepted:
  assumes R: "ristretto_group R" and P: "identity_codec P" and hash: "\<And>x. length (blake2b_512 x) = 64"
    and key: "GenerateKeypair R st = (Inr kp, st')" and rnd: "64 \<le> length (inb rnd)"
    and addrs: "sum_list (map (\<lambda>a. 6 + length a) addresses) \<le> 800"
  shows "\<exists>b rnd' frame info.
    ourPeerIdentityMsgBytes R blake2b_512 P now kp features addresses rnd = (Inr b, rnd') \<and>
    encodeIdentityProtocolFrame b = Inr frame \<and>
    decodeIdentityProtocolFrame P (frame @ rest) = Inr info \<and>
    Features info = features \<and> Addresses info = addresses \<and> UserAgent info = outgoingUserAgent \<and>
    VerifyIdentitySignature R blake2b_512 (Public kp) (Features info) (Addresses info)
      (info_IdentitySignature info) = Inr True"
  using our_identity_ok [where ?blake2b_512.0 = blake2b_512, OF R P hash key rnd addrs,
      where now = now and features = features and rest = rest] by blast

theorem our_identity_accepted_witness:
  "\<exists>kp st b rnd' frame info. GenerateKeypair residue_lib (None, reader_of (replicate 64 7)) = (Inr kp, st) \<and>
    ourPeerIdentityMsgBytes residue_lib (\<lambda>x. replicate 64 0) identity_proto3 1700000000 kp
        FeaturesCommunicationNode [[1, 2, 3]] (reader_of (replicate 64 9)) = (Inr b, rnd') \<and>
    encodeIdentityProtocolFrame b = Inr frame \<and>
    decodeIdentityProtocolFrame identity_proto3 (frame @ [5]) = Inr info \<and>
    Features info = FeaturesCommunicationNode \<and> Addresses info = [[1, 2, 3]] \<and>
    UserAgent info = outgoingUserAgent \<and>
    VerifyIdentitySignature residue_lib (\<lambda>x. replicate 64 0) (Public kp) (Features info) (Addresses info)
      (info_IdentitySignature info) = Inr True"
proof -
  obtain kp st where g: "GenerateKeypair residue_lib (None, reader_of (replicate 64 7)) = (Inr kp, st)"
    using residues.keypair_from_ok [of "reader_of (replicate 64 7)"]
    by (auto simp: reader_of_def GenerateKeypair_def)
  have len: "length (replicate 64 (0 :: u8)) = 64" by simp
  have rnd: "64 \<le> length (inb (reader_of (replicate 64 9)))" by (simp add: reader_of_def)
  have addrs: "sum_list (map (\<lambda>a. 6 + length a) [[1, 2, 3 :: u8]]) \<le> 800" by simp
  show ?thesis
    using g our_identity_accepted [where ?blake2b_512.0 = "\<lambda>x. replicate 64 0", OF residues.ristretto_group_axioms
        identity_proto3.identity_codec_axioms len g rnd addrs, of 1700000000 FeaturesCommunicationNode "[5]"]
    by meson
qed

section \<open>What a signature commits to\<close>

definition challenge_chunks :: "bytes \<Rightarrow> bytes \<Rightarrow> u8 \<Rightarrow> u64 \<Rightarrow> u32 \<Rightarrow> bytes list \<Rightarrow> bytes list" where
  "challenge_chunks key nonce version at features addresses =
     key # nonce # [version] # put_le64 at # put_le32 features # addresses"

lemma challenge_transcript:
  "constructIdentitySignatureChallenge blake2b_512 key nonce version at features addresses =
     blake2b_512 (digest512 (foldl Chain512 (newCommsCorePeerManagerHasher512 identitySignatureLabel)
       (challenge_chunks key nonce version at features addresses)))"
  by (simp add: constructIdentitySignatureChallenge_def challenge_chunks_def Finalize512_def Let_def)

text \<open>
  C18. A challenge commits to the whole claim: if the challenges of two claims coincide, then they
  have the same key, nonce, version, time, features and the same addresses in the same order with
  the same boundaries, or a collision of Blake2b-512 is known.
\<close>

theorem challenge_binding:
  assumes "list_all hashable (key # nonce # addresses)" "list_all hashable (key' # nonce' # addresses')"
    and "constructIdentitySignatureChallenge blake2b_512 key nonce version at features addresses =
      constructIdentitySignatureChallenge blake2b_512 key' nonce' version' at' features' addresses'"
  shows "(key = key' \<and> nonce = nonce' \<and> version = version' \<and> at = at' \<and> features = features' \<and>
      addresses = addresses') \<or> (\<exists>x y. x \<noteq> y \<and> blake2b_512 x = blake2b_512 y)"
proof -
  let ?c = "challenge_chunks key nonce version at features addresses"
    and ?c' = "challenge_chunks key' nonce' version' at' features' addresses'"
  let ?tag = "string_bytes (domainSeparationTag CommsCorePeerManagerDomainName
    CommsCorePeerManagerDomainVersion identitySignatureLabel)"
  have tag: "hashable ?tag"
    by (simp add: hashable_def string_bytes_def domainSeparationTag_def decimal.simps
        CommsCorePeerManagerDomainName_def CommsCorePeerManagerDomainVersion_def identitySignatureLabel_def)
  have h: "list_all hashable (?tag # ?c)" "list_all hashable (?tag # ?c')"
    using assms(1,2) tag by (simp_all add: challenge_chunks_def hashable_def)
  show ?thesis
  proof (cases "chunk ?tag @ concat (map chunk ?c) = chunk ?tag @ concat (map chunk ?c')")
    case True
    from transcript_inject [OF h True] show ?thesis by (simp add: challenge_chunks_def)
  next
    case False
    with assms(3) show ?thesis
      unfolding challenge_transcript foldl_Chain512 newCommsCorePeerManagerHasher512_def new_hashers_digest
      by blast
  qed
qed

theorem challenge_binding_witness:
  "([1] = [1 :: u8] \<and> [2] = [2 :: u8] \<and> (0 :: u8) = 0 \<and> (5 :: u64) = 5 \<and> (3 :: u32) = 3 \<and> [[4 :: u8]] = [[4]]) \<or>
    (\<exists>x y. x \<noteq> y \<and> rev x = rev (y :: bytes))"
proof (rule challenge_binding)
  show "list_all hashable ([1] # [2] # [[4]])" by (simp add: hashable_def)
  then show "list_all hashable ([1] # [2] # [[4]])" .
qed (rule refl)

text \<open>The version of a signature counts only modulo 256.\<close>

theorem signature_version_truncated:
  "VerifyIdentitySignature R blake2b_512 key features addresses (Some (sig\<lparr>is_Version := v + 256\<rparr>)) =
     VerifyIdentitySignature R blake2b_512 key features addresses (Some (sig\<lparr>is_Version := v\<rparr>))"
proof -
  have "(ucast (v + 256) :: u8) = ucast (v :: u32)" 
    by (simp add: word_unat_eq_iff unsigned_ucast_eq take_bit_eq_mod unat_word_ariths mod_mod_cancel)
  then show ?thesis by (cases sig) (simp add: VerifyIdentitySignature_def cong: sum.case_cong)
qed

end
