(* ===== verification/Proto_Accessors.thy ===== *)
theory Proto_Accessors
  imports Identity
begin

text \<open>
  The generated methods of the messages of \<^verbatim>\<open>src/p2p/proto\<close>: \<^verbatim>\<open>Reset\<close> and the getters, which may be called on
  a nil pointer, and the names of the reasons for which a session is rejected. A pointer to a message is
  an option.
\<close>

section \<open>Reasons of a rejection\<close>

definition HANDSHAKE_REJECT_REASON_UNKNOWN :: u32 where "HANDSHAKE_REJECT_REASON_UNKNOWN = 0"

definition HandshakeRejectReason_name :: "(int \<times> string) list" where
  "HandshakeRejectReason_name =
     [(0, ''HANDSHAKE_REJECT_REASON_UNKNOWN''),
      (1, ''HANDSHAKE_REJECT_REASON_UNSUPPORTED_VERSION''),
      (2, ''HANDSHAKE_REJECT_REASON_NO_SERVER_SESSIONS_AVAILABLE''),
      (3, ''HANDSHAKE_REJECT_REASON_NO_CLIENT_SESSIONS_AVAILABLE''),
      (4, ''HANDSHAKE_REJECT_REASON_PROTOCOL_NOT_SUPPORTED'')]"

definition HandshakeRejectReason_value :: "(string \<times> int) list" where
  "HandshakeRejectReason_value =
     [(''HANDSHAKE_REJECT_REASON_UNKNOWN'', 0),
      (''HANDSHAKE_REJECT_REASON_UNSUPPORTED_VERSION'', 1),
      (''HANDSHAKE_REJECT_REASON_NO_SERVER_SESSIONS_AVAILABLE'', 2),
      (''HANDSHAKE_REJECT_REASON_NO_CLIENT_SESSIONS_AVAILABLE'', 3),
      (''HANDSHAKE_REJECT_REASON_PROTOCOL_NOT_SUPPORTED'', 4)]"

text \<open>The two tables are inverse to each other.\<close>

lemma reject_reason_tables:
  "map_of HandshakeRejectReason_name n = Some s \<longleftrightarrow> map_of HandshakeRejectReason_value s = Some n"
  by (auto simp: HandshakeRejectReason_name_def HandshakeRejectReason_value_def split: if_splits)

section \<open>Reset and the getters\<close>

text \<open>\<^verbatim>\<open>*x = T{}\<close>, a panic when \<^verbatim>\<open>x\<close> is nil.\<close>

definition store_at :: "'m \<Rightarrow> 'm option \<Rightarrow> go_error + 'm" where
  "store_at v x = (case x of None \<Rightarrow> Inl NilPanic | Some _ \<Rightarrow> Inr v)"

text \<open>\<^verbatim>\<open>RpcRequest\<close> of \<^verbatim>\<open>src/p2p/proto/rpc.pb.go\<close>.\<close>

definition RpcRequest_Reset :: "RpcRequest option \<Rightarrow> go_error + RpcRequest" where
  "RpcRequest_Reset = store_at empty_RpcRequest"

definition RpcRequest_GetRequestId :: "RpcRequest option \<Rightarrow> u32" where
  "RpcRequest_GetRequestId x = (case x of Some m \<Rightarrow> req_RequestId m | None \<Rightarrow> 0)"

definition RpcRequest_GetMethod :: "RpcRequest option \<Rightarrow> u32" where
  "RpcRequest_GetMethod x = (case x of Some m \<Rightarrow> req_Method m | None \<Rightarrow> 0)"

definition RpcRequest_GetFlags :: "RpcRequest option \<Rightarrow> u32" where
  "RpcRequest_GetFlags x = (case x of Some m \<Rightarrow> req_Flags m | None \<Rightarrow> 0)"

definition RpcRequest_GetDeadline :: "RpcRequest option \<Rightarrow> u64" where
  "RpcRequest_GetDeadline x = (case x of Some m \<Rightarrow> req_Deadline m | None \<Rightarrow> 0)"

definition RpcRequest_GetPayload :: "RpcRequest option \<Rightarrow> bytes" where
  "RpcRequest_GetPayload x = (case x of Some m \<Rightarrow> req_Payload m | None \<Rightarrow> [])"

text \<open>\<^verbatim>\<open>RpcResponse\<close> of \<^verbatim>\<open>src/p2p/proto/rpc.pb.go\<close>.\<close>

definition RpcResponse_Reset :: "RpcResponse option \<Rightarrow> go_error + RpcResponse" where
  "RpcResponse_Reset = store_at empty_RpcResponse"

definition RpcResponse_GetRequestId :: "RpcResponse option \<Rightarrow> u32" where
  "RpcResponse_GetRequestId x = (case x of Some m \<Rightarrow> resp_RequestId m | None \<Rightarrow> 0)"

definition RpcResponse_GetStatus :: "RpcResponse option \<Rightarrow> u32" where
  "RpcResponse_GetStatus x = (case x of Some m \<Rightarrow> resp_Status m | None \<Rightarrow> 0)"

definition RpcResponse_GetFlags :: "RpcResponse option \<Rightarrow> u32" where
  "RpcResponse_GetFlags x = (case x of Some m \<Rightarrow> resp_Flags m | None \<Rightarrow> 0)"

definition RpcResponse_GetPayload :: "RpcResponse option \<Rightarrow> bytes" where
  "RpcResponse_GetPayload x = (case x of Some m \<Rightarrow> resp_Payload m | None \<Rightarrow> [])"

text \<open>\<^verbatim>\<open>RpcSession\<close> of \<^verbatim>\<open>src/p2p/proto/rpc.pb.go\<close>.\<close>

definition RpcSession_Reset :: "RpcSession option \<Rightarrow> go_error + RpcSession" where
  "RpcSession_Reset = store_at \<lparr>SupportedVersions = []\<rparr>"

definition RpcSession_GetSupportedVersions :: "RpcSession option \<Rightarrow> u32 list" where
  "RpcSession_GetSupportedVersions x = (case x of Some m \<Rightarrow> SupportedVersions m | None \<Rightarrow> [])"

text \<open>\<^verbatim>\<open>RpcSessionReply\<close> of \<^verbatim>\<open>src/p2p/proto/rpc.pb.go\<close>.\<close>

definition RpcSessionReply_Reset :: "RpcSessionReply option \<Rightarrow> go_error + RpcSessionReply" where
  "RpcSessionReply_Reset = store_at \<lparr>reply_SessionResult = None, reply_RejectReason = 0\<rparr>"

definition RpcSessionReply_GetSessionResult :: "RpcSessionReply option \<Rightarrow> SessionResult option" where
  "RpcSessionReply_GetSessionResult x = (case x of Some m \<Rightarrow> reply_SessionResult m | None \<Rightarrow> None)"

definition RpcSessionReply_GetRejectReason :: "RpcSessionReply option \<Rightarrow> u32" where
  "RpcSessionReply_GetRejectReason x = (case x of Some m \<Rightarrow> reply_RejectReason m | None \<Rightarrow> HANDSHAKE_REJECT_REASON_UNKNOWN)"

definition RpcSessionReply_GetAcceptedVersion :: "RpcSessionReply option \<Rightarrow> u32" where
  "RpcSessionReply_GetAcceptedVersion x =
     (case x of
        Some m \<Rightarrow> (case reply_SessionResult m of Some (AcceptedVersion v) \<Rightarrow> v | _ \<Rightarrow> 0)
      | None \<Rightarrow> 0)"

definition RpcSessionReply_GetRejected :: "RpcSessionReply option \<Rightarrow> bool" where
  "RpcSessionReply_GetRejected x =
     (case x of
        Some m \<Rightarrow> (case reply_SessionResult m of Some (Rejected b) \<Rightarrow> b | _ \<Rightarrow> False)
      | None \<Rightarrow> False)"

text \<open>\<^verbatim>\<open>ChainMetadata\<close> of \<^verbatim>\<open>src/p2p/proto/chain_metadata.pb.go\<close>.\<close>

definition ChainMetadata_Reset :: "ChainMetadata option \<Rightarrow> go_error + ChainMetadata" where
  "ChainMetadata_Reset = store_at empty_ChainMetadata"

definition ChainMetadata_GetBestBlockHeight :: "ChainMetadata option \<Rightarrow> u64" where
  "ChainMetadata_GetBestBlockHeight x = (case x of Some m \<Rightarrow> BestBlockHeight m | None \<Rightarrow> 0)"

definition ChainMetadata_GetBestBlockHash :: "ChainMetadata option \<Rightarrow> bytes" where
  "ChainMetadata_GetBestBlockHash x = (case x of Some m \<Rightarrow> BestBlockHash m | None \<Rightarrow> [])"

definition ChainMetadata_GetAccumulatedDifficultyLow :: "ChainMetadata option \<Rightarrow> bytes" where
  "ChainMetadata_GetAccumulatedDifficultyLow x = (case x of Some m \<Rightarrow> AccumulatedDifficultyLow m | None \<Rightarrow> [])"

definition ChainMetadata_GetAccumulatedDifficultyHigh :: "ChainMetadata option \<Rightarrow> bytes" where
  "ChainMetadata_GetAccumulatedDifficultyHigh x = (case x of Some m \<Rightarrow> AccumulatedDifficultyHigh m | None \<Rightarrow> [])"

definition ChainMetadata_GetPrunedHeight :: "ChainMetadata option \<Rightarrow> u64" where
  "ChainMetadata_GetPrunedHeight x = (case x of Some m \<Rightarrow> PrunedHeight m | None \<Rightarrow> 0)"

definition ChainMetadata_GetTimestamp :: "ChainMetadata option \<Rightarrow> u64" where
  "ChainMetadata_GetTimestamp x = (case x of Some m \<Rightarrow> Timestamp m | None \<Rightarrow> 0)"

text \<open>\<^verbatim>\<open>GetPeersRequest\<close> of \<^verbatim>\<open>src/p2p/proto/dht_rpc.pb.go\<close>.\<close>

definition GetPeersRequest_Reset :: "pb_GetPeersRequest option \<Rightarrow> go_error + pb_GetPeersRequest" where
  "GetPeersRequest_Reset = store_at empty_GetPeersRequest"

definition GetPeersRequest_GetN :: "pb_GetPeersRequest option \<Rightarrow> u32" where
  "GetPeersRequest_GetN x = (case x of Some m \<Rightarrow> pb_N m | None \<Rightarrow> 0)"

definition GetPeersRequest_GetIncludeClients :: "pb_GetPeersRequest option \<Rightarrow> bool" where
  "GetPeersRequest_GetIncludeClients x = (case x of Some m \<Rightarrow> pb_IncludeClients m | None \<Rightarrow> False)"

definition GetPeersRequest_GetMaxClaims :: "pb_GetPeersRequest option \<Rightarrow> u32" where
  "GetPeersRequest_GetMaxClaims x = (case x of Some m \<Rightarrow> pb_MaxClaims m | None \<Rightarrow> 0)"

definition GetPeersRequest_GetMaxAddressesPerClaim :: "pb_GetPeersRequest option \<Rightarrow> u32" where
  "GetPeersRequest_GetMaxAddressesPerClaim x = (case x of Some m \<Rightarrow> pb_MaxAddressesPerClaim m | None \<Rightarrow> 0)"

text \<open>\<^verbatim>\<open>GetPeersResponse\<close> of \<^verbatim>\<open>src/p2p/proto/dht_rpc.pb.go\<close>.\<close>

definition GetPeersResponse_Reset :: "pb_GetPeersResponse option \<Rightarrow> go_error + pb_GetPeersResponse" where
  "GetPeersResponse_Reset = store_at \<lparr>Peer = None\<rparr>"

definition GetPeersResponse_GetPeer :: "pb_GetPeersResponse option \<Rightarrow> pb_PeerInfo option" where
  "GetPeersResponse_GetPeer x = (case x of Some m \<Rightarrow> Peer m | None \<Rightarrow> None)"

text \<open>\<^verbatim>\<open>PeerInfo\<close> of \<^verbatim>\<open>src/p2p/proto/dht_rpc.pb.go\<close>.\<close>

definition PeerInfo_Reset :: "pb_PeerInfo option \<Rightarrow> go_error + pb_PeerInfo" where
  "PeerInfo_Reset = store_at empty_PeerInfo"

definition PeerInfo_GetPublicKey :: "pb_PeerInfo option \<Rightarrow> bytes" where
  "PeerInfo_GetPublicKey x = (case x of Some m \<Rightarrow> peer_PublicKey m | None \<Rightarrow> [])"

definition PeerInfo_GetClaims :: "pb_PeerInfo option \<Rightarrow> PeerIdentityClaim option list" where
  "PeerInfo_GetClaims x = (case x of Some m \<Rightarrow> peer_Claims m | None \<Rightarrow> [])"

text \<open>\<^verbatim>\<open>PeerIdentityClaim\<close> of \<^verbatim>\<open>src/p2p/proto/dht_rpc.pb.go\<close>.\<close>

definition PeerIdentityClaim_Reset :: "PeerIdentityClaim option \<Rightarrow> go_error + PeerIdentityClaim" where
  "PeerIdentityClaim_Reset = store_at empty_PeerIdentityClaim"

definition PeerIdentityClaim_GetAddresses :: "PeerIdentityClaim option \<Rightarrow> bytes list" where
  "PeerIdentityClaim_GetAddresses x = (case x of Some m \<Rightarrow> claim_Addresses m | None \<Rightarrow> [])"

definition PeerIdentityClaim_GetPeerFeatures :: "PeerIdentityClaim option \<Rightarrow> u32" where
  "PeerIdentityClaim_GetPeerFeatures x = (case x of Some m \<Rightarrow> claim_PeerFeatures m | None \<Rightarrow> 0)"

definition PeerIdentityClaim_GetIdentitySignature :: "PeerIdentityClaim option \<Rightarrow> pb_IdentitySignature option" where
  "PeerIdentityClaim_GetIdentitySignature x = (case x of Some m \<Rightarrow> claim_IdentitySignature m | None \<Rightarrow> None)"

text \<open>\<^verbatim>\<open>PeerIdentityMsg\<close> of \<^verbatim>\<open>src/p2p/proto/identity.pb.go\<close>.\<close>

definition PeerIdentityMsg_Reset :: "PeerIdentityMsg option \<Rightarrow> go_error + PeerIdentityMsg" where
  "PeerIdentityMsg_Reset = store_at empty_PeerIdentityMsg"

definition PeerIdentityMsg_GetAddresses :: "PeerIdentityMsg option \<Rightarrow> bytes list" where
  "PeerIdentityMsg_GetAddresses x = (case x of Some m \<Rightarrow> msg_Addresses m | None \<Rightarrow> [])"

definition PeerIdentityMsg_GetFeatures :: "PeerIdentityMsg option \<Rightarrow> u32" where
  "PeerIdentityMsg_GetFeatures x = (case x of Some m \<Rightarrow> msg_Features m | None \<Rightarrow> 0)"

definition PeerIdentityMsg_GetSupportedProtocols :: "PeerIdentityMsg option \<Rightarrow> bytes list" where
  "PeerIdentityMsg_GetSupportedProtocols x = (case x of Some m \<Rightarrow> msg_SupportedProtocols m | None \<Rightarrow> [])"

definition PeerIdentityMsg_GetUserAgent :: "PeerIdentityMsg option \<Rightarrow> string" where
  "PeerIdentityMsg_GetUserAgent x = (case x of Some m \<Rightarrow> msg_UserAgent m | None \<Rightarrow> [])"

definition PeerIdentityMsg_GetIdentitySignature :: "PeerIdentityMsg option \<Rightarrow> pb_IdentitySignature option" where
  "PeerIdentityMsg_GetIdentitySignature x = (case x of Some m \<Rightarrow> msg_IdentitySignature m | None \<Rightarrow> None)"

text \<open>\<^verbatim>\<open>IdentitySignature\<close> of \<^verbatim>\<open>src/p2p/proto/identity.pb.go\<close>.\<close>

definition IdentitySignature_Reset :: "pb_IdentitySignature option \<Rightarrow> go_error + pb_IdentitySignature" where
  "IdentitySignature_Reset = store_at empty_IdentitySignature"

definition IdentitySignature_GetVersion :: "pb_IdentitySignature option \<Rightarrow> u32" where
  "IdentitySignature_GetVersion x = (case x of Some m \<Rightarrow> sig_Version m | None \<Rightarrow> 0)"

definition IdentitySignature_GetSignature :: "pb_IdentitySignature option \<Rightarrow> bytes" where
  "IdentitySignature_GetSignature x = (case x of Some m \<Rightarrow> sig_Signature m | None \<Rightarrow> [])"

definition IdentitySignature_GetPublicNonce :: "pb_IdentitySignature option \<Rightarrow> bytes" where
  "IdentitySignature_GetPublicNonce x = (case x of Some m \<Rightarrow> sig_PublicNonce m | None \<Rightarrow> [])"

definition IdentitySignature_GetUpdatedAt :: "pb_IdentitySignature option \<Rightarrow> u64" where
  "IdentitySignature_GetUpdatedAt x = (case x of Some m \<Rightarrow> sig_UpdatedAt m | None \<Rightarrow> 0)"

text \<open>Of the two alternatives of the oneof at most one reads as set.\<close>

lemma session_result_getters:
  "RpcSessionReply_GetRejected x \<Longrightarrow> RpcSessionReply_GetAcceptedVersion x = 0"
  "RpcSessionReply_GetAcceptedVersion x \<noteq> 0 \<Longrightarrow> RpcSessionReply_GetSessionResult x = Some (AcceptedVersion (RpcSessionReply_GetAcceptedVersion x))"
  by (auto simp: RpcSessionReply_GetRejected_def RpcSessionReply_GetAcceptedVersion_def RpcSessionReply_GetSessionResult_def
      split: option.splits SessionResult.splits)

lemma unmarshal_nil: "unmarshal put z [] = Inr z"
  by (simp add: unmarshal_def unmarshal_onto_def decode_fields_def)

section \<open>What they promise\<close>

text \<open>
  A message after \<^verbatim>\<open>Reset\<close> is the one that the empty encoding stands for; a nil pointer reads like it; and
  the getters together tell all of a message.
\<close>

locale generated_message =
  fixes Reset :: "'m option \<Rightarrow> go_error + 'm"
    and Unmarshal :: "bytes \<Rightarrow> go_error + 'm"
    and getters :: "'m option \<Rightarrow> 'g"
  assumes Reset_empty: "Reset x = (case x of None \<Rightarrow> Inl NilPanic | Some _ \<Rightarrow> Unmarshal [])"
    and getters_nil: "Reset x = Inr m \<Longrightarrow> getters None = getters (Some m)"
    and getters_inject: "getters (Some m) = getters (Some m') \<Longrightarrow> m = m'"
begin

text \<open>So a message that reads like nil is the reset one, and it is what an absent message decodes to.\<close>

lemma reads_like_nil: "Reset (Some m0) = Inr z \<Longrightarrow> getters (Some m) = getters None \<longleftrightarrow> Unmarshal [] = Inr m"
  using getters_nil [of "Some m0" z] getters_inject [of m z] Reset_empty [of "Some m0"] by auto

end

lemmas proto_defs = store_at_def proto3_def identity_proto3_def unmarshal_nil
  empty_RpcRequest_def empty_RpcResponse_def empty_ChainMetadata_def empty_GetPeersRequest_def empty_PeerInfo_def
  empty_PeerIdentityClaim_def empty_PeerIdentityMsg_def empty_IdentitySignature_def HANDSHAKE_REJECT_REASON_UNKNOWN_def

lemmas accessor_defs =
  RpcRequest_Reset_def RpcRequest_GetRequestId_def RpcRequest_GetMethod_def RpcRequest_GetFlags_def RpcRequest_GetDeadline_def RpcRequest_GetPayload_def
  RpcResponse_Reset_def RpcResponse_GetRequestId_def RpcResponse_GetStatus_def RpcResponse_GetFlags_def RpcResponse_GetPayload_def
  RpcSession_Reset_def RpcSession_GetSupportedVersions_def
  RpcSessionReply_Reset_def RpcSessionReply_GetSessionResult_def RpcSessionReply_GetRejectReason_def
  ChainMetadata_Reset_def ChainMetadata_GetBestBlockHeight_def ChainMetadata_GetBestBlockHash_def ChainMetadata_GetAccumulatedDifficultyLow_def ChainMetadata_GetAccumulatedDifficultyHigh_def ChainMetadata_GetPrunedHeight_def ChainMetadata_GetTimestamp_def
  GetPeersRequest_Reset_def GetPeersRequest_GetN_def GetPeersRequest_GetIncludeClients_def GetPeersRequest_GetMaxClaims_def GetPeersRequest_GetMaxAddressesPerClaim_def
  GetPeersResponse_Reset_def GetPeersResponse_GetPeer_def
  PeerInfo_Reset_def PeerInfo_GetPublicKey_def PeerInfo_GetClaims_def
  PeerIdentityClaim_Reset_def PeerIdentityClaim_GetAddresses_def PeerIdentityClaim_GetPeerFeatures_def PeerIdentityClaim_GetIdentitySignature_def
  PeerIdentityMsg_Reset_def PeerIdentityMsg_GetAddresses_def PeerIdentityMsg_GetFeatures_def PeerIdentityMsg_GetSupportedProtocols_def PeerIdentityMsg_GetUserAgent_def PeerIdentityMsg_GetIdentitySignature_def
  IdentitySignature_Reset_def IdentitySignature_GetVersion_def IdentitySignature_GetSignature_def IdentitySignature_GetPublicNonce_def IdentitySignature_GetUpdatedAt_def

interpretation RpcRequest_pb: generated_message RpcRequest_Reset "Unmarshal_RpcRequest proto3"
  "\<lambda>x. (RpcRequest_GetRequestId x, RpcRequest_GetMethod x, RpcRequest_GetFlags x, RpcRequest_GetDeadline x, RpcRequest_GetPayload x)"
  by unfold_locales (auto simp: proto_defs accessor_defs split: option.splits)

interpretation RpcResponse_pb: generated_message RpcResponse_Reset "Unmarshal_RpcResponse proto3"
  "\<lambda>x. (RpcResponse_GetRequestId x, RpcResponse_GetStatus x, RpcResponse_GetFlags x, RpcResponse_GetPayload x)"
  by unfold_locales (auto simp: proto_defs accessor_defs split: option.splits)

interpretation RpcSession_pb: generated_message RpcSession_Reset "Unmarshal_RpcSession proto3"
  "\<lambda>x. RpcSession_GetSupportedVersions x"
  by unfold_locales (auto simp: proto_defs accessor_defs split: option.splits)

interpretation RpcSessionReply_pb: generated_message RpcSessionReply_Reset "Unmarshal_RpcSessionReply proto3"
  "\<lambda>x. (RpcSessionReply_GetSessionResult x, RpcSessionReply_GetRejectReason x)"
  by unfold_locales (auto simp: proto_defs accessor_defs split: option.splits)

interpretation ChainMetadata_pb: generated_message ChainMetadata_Reset "Unmarshal_ChainMetadata proto3"
  "\<lambda>x. (ChainMetadata_GetBestBlockHeight x, ChainMetadata_GetBestBlockHash x, ChainMetadata_GetAccumulatedDifficultyLow x, ChainMetadata_GetAccumulatedDifficultyHigh x, ChainMetadata_GetPrunedHeight x, ChainMetadata_GetTimestamp x)"
  by unfold_locales (auto simp: proto_defs accessor_defs split: option.splits)

interpretation GetPeersRequest_pb: generated_message GetPeersRequest_Reset "Unmarshal_GetPeersRequest proto3"
  "\<lambda>x. (GetPeersRequest_GetN x, GetPeersRequest_GetIncludeClients x, GetPeersRequest_GetMaxClaims x, GetPeersRequest_GetMaxAddressesPerClaim x)"
  by unfold_locales (auto simp: proto_defs accessor_defs split: option.splits)

interpretation GetPeersResponse_pb: generated_message GetPeersResponse_Reset "Unmarshal_GetPeersResponse proto3"
  "\<lambda>x. GetPeersResponse_GetPeer x"
  by unfold_locales (auto simp: proto_defs accessor_defs split: option.splits)

interpretation PeerInfo_pb: generated_message PeerInfo_Reset "unmarshal set_PeerInfo empty_PeerInfo"
  "\<lambda>x. (PeerInfo_GetPublicKey x, PeerInfo_GetClaims x)"
  by unfold_locales (auto simp: proto_defs accessor_defs split: option.splits)

interpretation PeerIdentityClaim_pb: generated_message PeerIdentityClaim_Reset "unmarshal set_PeerIdentityClaim empty_PeerIdentityClaim"
  "\<lambda>x. (PeerIdentityClaim_GetAddresses x, PeerIdentityClaim_GetPeerFeatures x, PeerIdentityClaim_GetIdentitySignature x)"
  by unfold_locales (auto simp: proto_defs accessor_defs split: option.splits)

interpretation PeerIdentityMsg_pb: generated_message PeerIdentityMsg_Reset "Unmarshal_PeerIdentityMsg identity_proto3"
  "\<lambda>x. (PeerIdentityMsg_GetAddresses x, PeerIdentityMsg_GetFeatures x, PeerIdentityMsg_GetSupportedProtocols x, PeerIdentityMsg_GetUserAgent x, PeerIdentityMsg_GetIdentitySignature x)"
  by unfold_locales (auto simp: proto_defs accessor_defs split: option.splits)

interpretation IdentitySignature_pb: generated_message IdentitySignature_Reset "unmarshal set_IdentitySignature empty_IdentitySignature"
  "\<lambda>x. (IdentitySignature_GetVersion x, IdentitySignature_GetSignature x, IdentitySignature_GetPublicNonce x, IdentitySignature_GetUpdatedAt x)"
  by unfold_locales (auto simp: proto_defs accessor_defs split: option.splits)

end
