(* ===== verification/Dialing.thy ===== *)
theory Dialing
  imports Go_IO
begin

text \<open>
  \<^verbatim>\<open>src/p2p/socks.go\<close>: which way a probe dials. The network is a parameter: the functions that dial
  an address directly or through a proxy and return a connection.
\<close>

section \<open>Host and port (\<^verbatim>\<open>net.SplitHostPort\<close>)\<close>

text \<open>The index of the first and the last occurrence of a character.\<close>

fun index_of :: "char \<Rightarrow> string \<Rightarrow> nat option" where
  "index_of c [] = None"
| "index_of c (d # s) = (if c = d then Some 0 else map_option Suc (index_of c s))"

fun last_index_of :: "char \<Rightarrow> string \<Rightarrow> nat option" where
  "last_index_of c [] = None"
| "last_index_of c (d # s) =
     (case last_index_of c s of
        Some i \<Rightarrow> Some (Suc i)
      | None \<Rightarrow> if c = d then Some 0 else None)"

definition colon :: char where "colon = CHR '':''"
definition lbrack :: char where "lbrack = CHR ''[''"
definition rbrack :: char where "rbrack = CHR '']''"

text \<open>The host and the port, or \<open>None\<close> for any of the errors. With brackets the first closing bracket
  stands just before the last colon; without, the host has no colon. No stray bracket is allowed.\<close>

definition SplitHostPort :: "string \<Rightarrow> (string \<times> string) option" where
  "SplitHostPort hostport =
     (case last_index_of colon hostport of
        None \<Rightarrow> None
      | Some i \<Rightarrow>
          if hostport ! 0 = lbrack then
            (case index_of rbrack hostport of
               None \<Rightarrow> None
             | Some e \<Rightarrow>
                 if e + 1 \<noteq> i then None
                 else if index_of lbrack (drop 1 hostport) \<noteq> None \<or> index_of rbrack (drop (e + 1) hostport) \<noteq> None
                 then None
                 else Some (take (e - 1) (drop 1 hostport), drop (i + 1) hostport))
          else if index_of colon (take i hostport) \<noteq> None then None
          else if index_of lbrack hostport \<noteq> None \<or> index_of rbrack hostport \<noteq> None then None
          else Some (take i hostport, drop (i + 1) hostport))"

section \<open>Lower case (\<^verbatim>\<open>strings.ToLower\<close>)\<close>

text \<open>
  \<^verbatim>\<open>strings.ToLower\<close> as far as the test for an ASCII suffix sees it: the letters A to Z, and the two code points
  outside ASCII with an ASCII lower case, U+0130 (\<^verbatim>\<open>C4 B0\<close>) and U+212A (\<^verbatim>\<open>E2 84 AA\<close>). The bytes of every
  other code point stay outside ASCII and are left as they are.
\<close>

definition lower_char :: "char \<Rightarrow> char" where
  "lower_char c = (let n = (of_char c :: nat) in if 65 \<le> n \<and> n \<le> 90 then char_of (n + 32) else c)"

fun lower_view :: "string \<Rightarrow> string" where
  "lower_view (a # b # c # s) =
     (if a = CHR 0xC4 \<and> b = CHR 0xB0 then CHR ''i'' # lower_view (c # s)
      else if a = CHR 0xE2 \<and> b = CHR 0x84 \<and> c = CHR 0xAA then CHR ''k'' # lower_view s
      else lower_char a # lower_view (b # c # s))"
| "lower_view [a, b] = (if a = CHR 0xC4 \<and> b = CHR 0xB0 then ''i'' else [lower_char a, lower_char b])"
| "lower_view [a] = [lower_char a]"
| "lower_view [] = []"

definition HasSuffix :: "string \<Rightarrow> string \<Rightarrow> bool" where
  "HasSuffix s suffix \<longleftrightarrow> length suffix \<le> length s \<and> drop (length s - length suffix) s = suffix"

section \<open>Dialling\<close>

record ProbeOptions =
  SocksProxyAddr :: string
  NetworkByte :: u8

definition isOnionAddr :: "string \<Rightarrow> bool" where
  "isOnionAddr addr =
     (case SplitHostPort addr of
        None \<Rightarrow> False
      | Some (host, _) \<Rightarrow> HasSuffix (lower_view host) ''.onion'')"

text \<open>A SOCKS5 dialler may offer \<^verbatim>\<open>DialContext\<close>; else its \<^verbatim>\<open>Dial\<close> races the context, and \<open>ctx_first\<close> says
  that the context was done before there was an answer.\<close>

record 'c socks_dialer =
  socks_DialContext :: "(string \<Rightarrow> go_error + 'c) option"
  socks_Dial :: "string \<Rightarrow> go_error + 'c"

record 'c network =
  DialContext :: "string \<Rightarrow> go_error + 'c"
  SOCKS5 :: "string \<Rightarrow> go_error + 'c socks_dialer"

definition dialForProbe :: "'c network \<Rightarrow> bool \<Rightarrow> string \<Rightarrow> ProbeOptions \<Rightarrow> go_error + 'c" where
  "dialForProbe net ctx_first addr opts =
     (if \<not> isOnionAddr addr then DialContext net addr
      else if SocksProxyAddr opts = [] then
        Inl (Errorf ''p2p: dialing onion address %q requires a SOCKS5 proxy (see ProbeOptions.SocksProxyAddr); no proxy configured'')
      else case SOCKS5 net (SocksProxyAddr opts) of
        Inl e \<Rightarrow> Inl (Wrap ''p2p: constructing SOCKS5 dialer for proxy %q: %w'' e)
      | Inr socksDialer \<Rightarrow>
          (case socks_DialContext socksDialer of
             Some dial \<Rightarrow> dial addr
           | None \<Rightarrow>
               if ctx_first then Inl (Wrap ''p2p: dialing %q via SOCKS5 proxy %q: %w'' ContextError)
               else socks_Dial socksDialer addr))"

section \<open>Properties\<close>

lemma index_of_None: "index_of c s = None \<longleftrightarrow> c \<notin> set s"
  by (induction s) auto

lemma last_index_of_append: "c \<notin> set port \<Longrightarrow> last_index_of c (host @ c # port) = Some (length host)"
proof -
  have "c \<notin> set port \<Longrightarrow> last_index_of c port = None" by (induction port) auto
  then show "c \<notin> set port \<Longrightarrow> ?thesis" by (induction host) auto
qed

definition plain_host :: "string \<Rightarrow> bool" where
  "plain_host s \<longleftrightarrow> colon \<notin> set s \<and> lbrack \<notin> set s \<and> rbrack \<notin> set s"

lemma SplitHostPort_plain:
  assumes "plain_host host" "plain_host port"
  shows "SplitHostPort (host @ colon # port) = Some (host, port)"
proof -
  have "(host @ colon # port) ! 0 \<noteq> lbrack"
    using assms(1) by (cases host) (auto simp: plain_host_def colon_def lbrack_def)
  moreover have "index_of lbrack (host @ colon # port) = None" "index_of rbrack (host @ colon # port) = None"
    using assms by (auto simp: index_of_None plain_host_def colon_def lbrack_def rbrack_def)
  moreover have "index_of colon host = None" using assms by (simp add: index_of_None plain_host_def)
  ultimately show ?thesis
    using assms last_index_of_append [of colon port host] by (simp add: SplitHostPort_def plain_host_def)
qed



end
