(* ===== verification/Multiaddr.thy ===== *)
theory Multiaddr
  imports Dialing Hashing
begin

text \<open>
  \<^verbatim>\<open>src/p2p/multiaddr.go\<close>: the binary encoding of the two forms of multiaddr that a responder
  advertises, with what it uses of \<^verbatim>\<open>strings\<close>, \<^verbatim>\<open>strconv\<close>, \<^verbatim>\<open>net\<close> and \<^verbatim>\<open>encoding/base32\<close>.
\<close>

section \<open>Strings and numbers\<close>

definition HasPrefix :: "string \<Rightarrow> string \<Rightarrow> bool" where
  "HasPrefix s prefix \<longleftrightarrow> take (length prefix) s = prefix"

definition TrimPrefix :: "string \<Rightarrow> string \<Rightarrow> string" where
  "TrimPrefix s prefix = (if HasPrefix s prefix then drop (length prefix) s else s)"

text \<open>\<^verbatim>\<open>strings.Split\<close> on a one-character separator.\<close>

fun split_on :: "char \<Rightarrow> string \<Rightarrow> string list" where
  "split_on c [] = [[]]"
| "split_on c (d # s) =
     (if c = d then [] # split_on c s
      else case split_on c s of [] \<Rightarrow> [[d]] | p # ps \<Rightarrow> (d # p) # ps)"

definition digit_value :: "char \<Rightarrow> nat option" where
  "digit_value c = (let n = (of_char c :: nat) in if 48 \<le> n \<and> n \<le> 57 then Some (n - 48) else None)"

fun digits_value :: "nat \<Rightarrow> string \<Rightarrow> nat option" where
  "digits_value acc [] = Some acc"
| "digits_value acc (c # s) = Option.bind (digit_value c) (\<lambda>d. digits_value (acc * 10 + d) s)"

text \<open>\<^verbatim>\<open>strconv.ParseUint(s, 10, 16)\<close>: at least one digit and nothing else, in the range of 16 bits.\<close>

definition ParseUint16 :: "string \<Rightarrow> u16 option" where
  "ParseUint16 s =
     (if s = [] then None
      else case digits_value 0 s of
        None \<Rightarrow> None
      | Some n \<Rightarrow> if n < 65536 then Some (word_of_nat n) else None)"

text \<open>\<^verbatim>\<open>binary.AppendUvarint\<close>.\<close>

function AppendUvarint :: "bytes \<Rightarrow> nat \<Rightarrow> bytes" where
  "AppendUvarint buf n =
     (if n < 128 then buf @ [word_of_nat n] else AppendUvarint (buf @ [word_of_nat (128 + n mod 128)]) (n div 128))"
  by pat_completeness auto
termination by (relation "measure snd") auto

declare AppendUvarint.simps [simp del]

section \<open>IP addresses (\<^verbatim>\<open>net.ParseIP\<close>, \<^verbatim>\<open>To4\<close>)\<close>

text \<open>An octet of a dotted address: one to three digits without a leading zero, at most 255.\<close>

definition octet :: "string \<Rightarrow> u8 option" where
  "octet s =
     (if s = [] \<or> (length s > 1 \<and> s ! 0 = CHR ''0'') then None
      else case digits_value 0 s of
        None \<Rightarrow> None
      | Some n \<Rightarrow> if n < 256 then Some (word_of_nat n) else None)"

fun octets :: "string list \<Rightarrow> bytes option" where
  "octets [] = Some []"
| "octets (p # ps) = Option.bind (octet p) (\<lambda>b. map_option (Cons b) (octets ps))"

definition parseIPv4Fields :: "string \<Rightarrow> bytes option" where
  "parseIPv4Fields s = (let ps = split_on (CHR ''.'') s in if length ps = 4 then octets ps else None)"

text \<open>The leading hexadecimal digits of a group and what follows them.\<close>

fun hex_run :: "string \<Rightarrow> nat list \<times> string" where
  "hex_run [] = ([], [])"
| "hex_run (c # s) =
     (case hex_value c of
        None \<Rightarrow> ([], c # s)
      | Some d \<Rightarrow> (case hex_run s of (ds, r) \<Rightarrow> (d # ds, r)))"

lemma hex_run_length: "length (fst (hex_run s)) + length (snd (hex_run s)) = length s"
  by (induction s) (auto split: option.split prod.split)

lemma hex_run_rest: "(ds, c # d # r) = hex_run s \<Longrightarrow> length r + 2 \<le> length s"
  using hex_run_length [of s] by (cases "hex_run s") auto

text \<open>
  The groups of an IPv6 address after a leading ellipsis has been taken off: \<open>ip\<close> are the bytes so
  far, \<open>ellipsis\<close> where they are to be stretched. The result is the bytes and the ellipsis.
\<close>

function ipv6_groups :: "bytes \<Rightarrow> nat option \<Rightarrow> string \<Rightarrow> (bytes \<times> nat option) option" where
  "ipv6_groups ip ellipsis s =
     (if length ip \<ge> 16 then None
      else case hex_run s of (ds, r) \<Rightarrow>
        if ds = [] \<or> length ds > 4 then None
        else if r \<noteq> [] \<and> r ! 0 = CHR ''.'' then
          (if ellipsis = None \<and> length ip \<noteq> 12 \<or> length ip + 4 > 16 then None
           else map_option (\<lambda>v4. (ip @ v4, ellipsis)) (parseIPv4Fields s))
        else
          let acc = foldl (\<lambda>a d. a * 16 + d) 0 ds;
              ip' = ip @ [word_of_nat (acc div 256), word_of_nat acc] in
          case r of
            [] \<Rightarrow> Some (ip', ellipsis)
          | [c] \<Rightarrow> None
          | c # d # r' \<Rightarrow>
              if c \<noteq> CHR '':'' then None
              else if d = CHR '':'' then
                (if ellipsis \<noteq> None then None
                 else if r' = [] then Some (ip', Some (length ip'))
                 else ipv6_groups ip' (Some (length ip')) r')
              else ipv6_groups ip' ellipsis (d # r'))"
  by pat_completeness auto
termination
  by (relation "measure (\<lambda>(ip, e, s). length s)") (auto dest!: hex_run_rest)

declare ipv6_groups.simps [simp del]

definition parseIPv6 :: "string \<Rightarrow> bytes option" where
  "parseIPv6 s =
     (let lead = HasPrefix s ''::'' in
      if lead \<and> length s = 2 then Some (replicate 16 0)
      else case ipv6_groups [] (if lead then Some 0 else None) (if lead then drop 2 s else s) of
        None \<Rightarrow> None
      | Some (ip, None) \<Rightarrow> if length ip < 16 then None else Some ip
      | Some (ip, Some e) \<Rightarrow>
          if length ip < 16 then Some (take e ip @ replicate (16 - length ip) 0 @ drop e ip) else None)"

text \<open>The first dot, colon or percent sign decides the family; an address with a zone is refused. An
  IPv4 address is kept in its 16-byte form.\<close>

definition ParseIP :: "string \<Rightarrow> bytes option" where
  "ParseIP s =
     (case filter (\<lambda>c. c = CHR ''.'' \<or> c = CHR '':'' \<or> c = CHR ''%'') s of
        [] \<Rightarrow> None
      | c # _ \<Rightarrow>
          if c = CHR ''.'' then map_option (\<lambda>v4. replicate 10 0 @ [0xff, 0xff] @ v4) (parseIPv4Fields s)
          else if c = CHR '':'' \<and> CHR ''%'' \<notin> set s then parseIPv6 s
          else None)"

definition To4 :: "bytes \<Rightarrow> bytes option" where
  "To4 ip = (if take 12 ip = replicate 10 0 @ [0xff, 0xff] then Some (drop 12 ip) else None)"

section \<open>Base32\<close>

text \<open>\<^verbatim>\<open>strings.ToUpper\<close>, as far as an ASCII alphabet sees it: the letters a to z, and the two code points
  outside ASCII with an ASCII upper case, U+0131 (\<^verbatim>\<open>C4 B1\<close>) and U+017F (\<^verbatim>\<open>C5 BF\<close>).\<close>

definition upper_char :: "char \<Rightarrow> char" where
  "upper_char c = (let n = (of_char c :: nat) in if 97 \<le> n \<and> n \<le> 122 then char_of (n - 32) else c)"

fun ToUpper :: "string \<Rightarrow> string" where
  "ToUpper (a # b # s) =
     (if a = CHR 0xC4 \<and> b = CHR 0xB1 then CHR ''I'' # ToUpper s
      else if a = CHR 0xC5 \<and> b = CHR 0xBF then CHR ''S'' # ToUpper s
      else upper_char a # ToUpper (b # s))"
| "ToUpper [a] = [upper_char a]"
| "ToUpper [] = []"

definition base32_value :: "char \<Rightarrow> nat option" where
  "base32_value c = (let n = (of_char c :: nat) in
     if 65 \<le> n \<and> n \<le> 90 then Some (n - 65) else if 50 \<le> n \<and> n \<le> 55 then Some (n - 24) else None)"

fun base32_values :: "string \<Rightarrow> nat list option" where
  "base32_values [] = Some []"
| "base32_values (c # s) = Option.bind (base32_value c) (\<lambda>v. map_option (Cons v) (base32_values s))"

text \<open>Eight characters are five bytes; a last group of 7, 5, 4 or 2 characters is 4, 3, 2 or 1 bytes.\<close>

definition base32_group :: "nat list \<Rightarrow> bytes" where
  "base32_group vs =
     (let n = foldl (\<lambda>a v. a * 32 + v) 0 vs in
      if length vs = 8 then rev (le_bytes 5 n)
      else if length vs = 7 then rev (le_bytes 4 (n div 8))
      else if length vs = 5 then rev (le_bytes 3 (n div 2))
      else if length vs = 4 then rev (le_bytes 2 (n div 16))
      else if length vs = 2 then rev (le_bytes 1 (n div 4))
      else [])"

function base32_bytes :: "nat list \<Rightarrow> bytes" where
  "base32_bytes vs = (if length vs \<le> 8 then base32_group vs else base32_group (take 8 vs) @ base32_bytes (drop 8 vs))"
  by pat_completeness auto
termination by (relation "measure length") auto

declare base32_bytes.simps [simp del]

text \<open>\<^verbatim>\<open>DecodeString\<close> of the unpadded encoding, which skips line breaks.\<close>

definition base32_decode :: "string \<Rightarrow> bytes option" where
  "base32_decode s = map_option base32_bytes (base32_values (filter (\<lambda>c. c \<noteq> CHR 10 \<and> c \<noteq> CHR 13) s))"

section \<open>The encoder\<close>

definition multiaddrProtoIP4 :: nat where "multiaddrProtoIP4 = 4"
definition multiaddrProtoTCP :: nat where "multiaddrProtoTCP = 6"
definition multiaddrProtoOnion3 :: nat where "multiaddrProtoOnion3 = 445"
definition onion3HashLen :: nat where "onion3HashLen = 35"
definition onion3EncodedLen :: nat where "onion3EncodedLen = 56"

definition encodeIP4TCPMultiaddr :: "bytes \<Rightarrow> u16 \<Rightarrow> bytes" where
  "encodeIP4TCPMultiaddr ip4 port =
     AppendUvarint (AppendUvarint [] multiaddrProtoIP4 @ take 4 ip4) multiaddrProtoTCP @ put_be16 port"

definition encodeIP4TCPMultiaddrString :: "string \<Rightarrow> go_error + bytes" where
  "encodeIP4TCPMultiaddrString s =
     (let parts = split_on (CHR ''/'') s in
      if length parts \<noteq> 5 \<or> parts ! 0 \<noteq> [] \<or> parts ! 1 \<noteq> ''ip4'' \<or> parts ! 3 \<noteq> ''tcp'' then
        Inl (Errorf ''p2p: malformed multiaddr %q: want exactly /ip4/<ipv4>/tcp/<port>'')
      else case ParseIP (parts ! 2) of
        None \<Rightarrow> Inl (Errorf ''p2p: malformed multiaddr %q: %q is not a valid IP address'')
      | Some ip \<Rightarrow>
          (case To4 ip of
             None \<Rightarrow> Inl (Errorf ''p2p: malformed multiaddr %q: %q is not a valid IPv4 address'')
           | Some ip4 \<Rightarrow>
               (case ParseUint16 (parts ! 4) of
                  None \<Rightarrow> Inl (Errorf ''p2p: malformed multiaddr %q: invalid TCP port %q: %w'')
                | Some port \<Rightarrow> Inr (encodeIP4TCPMultiaddr ip4 port))))"

definition encodeOnion3Multiaddr :: "bytes \<Rightarrow> u16 \<Rightarrow> bytes" where
  "encodeOnion3Multiaddr hash port = AppendUvarint [] multiaddrProtoOnion3 @ hash @ put_be16 port"

definition encodeOnion3MultiaddrString :: "string \<Rightarrow> go_error + bytes" where
  "encodeOnion3MultiaddrString s =
     (let rest = TrimPrefix s ''/onion3/'' in
      if CHR ''/'' \<in> set rest then
        Inl (Errorf ''p2p: malformed multiaddr %q: want exactly /onion3/<addr>:<port> (a single path segment after /onion3/)'')
      else case last_index_of colon rest of
        None \<Rightarrow> Inl (Errorf ''p2p: malformed multiaddr %q: want /onion3/<addr>:<port>, missing colon'')
      | Some idx \<Rightarrow>
          let addrPart = take idx rest; portPart = drop (idx + 1) rest in
          if length addrPart \<noteq> onion3EncodedLen then
            Inl (Errorf ''p2p: malformed multiaddr %q: onion3 address %q must be exactly %d base32 characters, got %d'')
          else case base32_decode (ToUpper addrPart) of
            None \<Rightarrow> Inl (Errorf ''p2p: malformed multiaddr %q: invalid base32 onion3 address %q: %w'')
          | Some decoded \<Rightarrow>
              if length decoded \<noteq> onion3HashLen then
                Inl (Errorf ''p2p: malformed multiaddr %q: decoded onion3 address is %d bytes, want %d'')
              else case ParseUint16 portPart of
                None \<Rightarrow> Inl (Errorf ''p2p: malformed multiaddr %q: invalid port %q: %w'')
              | Some port \<Rightarrow>
                  if port = 0 then Inl (Errorf ''p2p: malformed multiaddr %q: port 0 is not valid for an onion3 address'')
                  else Inr (encodeOnion3Multiaddr decoded port))"

definition EncodeMultiaddrString :: "string \<Rightarrow> go_error + bytes" where
  "EncodeMultiaddrString s =
     (if HasPrefix s ''/ip4/'' then encodeIP4TCPMultiaddrString s
      else if HasPrefix s ''/onion3/'' then encodeOnion3MultiaddrString s
      else Inl (Errorf ''p2p: unsupported multiaddr %q: this package's minimal encoder only supports /ip4/<ipv4>/tcp/<port> and /onion3/<addr>:<port> forms''))"

section \<open>Numbers and their digits\<close>

lemma digits_value_snoc:
  "digits_value acc (s @ [c]) = Option.bind (digits_value acc s) (\<lambda>a. map_option (\<lambda>d. a * 10 + d) (digit_value c))"
  by (induction s arbitrary: acc) (auto simp: bind_assoc split: option.split Option.bind_split)

lemma digit_value_digit: "n < 10 \<Longrightarrow> digit_value (char_of (48 + n)) = Some n"
  by (simp add: digit_value_def of_char_of)

lemma digits_value_decimal: "digits_value 0 (decimal n) = Some n"
proof (induction n rule: decimal.induct)
  case (1 n)
  show ?case
  proof (cases "n < 10")
    case True
    then show ?thesis by (subst decimal.simps) (simp add: digit_value_digit)
  next
    case False
    have "digit_value (char_of (48 + n mod 10)) = Some (n mod 10)" by (rule digit_value_digit) simp
    with 1 [OF False] False show ?thesis by (subst decimal.simps) (simp add: digits_value_snoc)
  qed
qed

lemma decimal_nonempty [simp]: "decimal n \<noteq> []"
  by (subst decimal.simps) simp

lemma decimal_digits: "c \<in> set (decimal n) \<Longrightarrow> 48 \<le> (of_char c :: nat) \<and> (of_char c :: nat) \<le> 57"
proof (induction n rule: decimal.induct)
  case (1 n)
  have d: "48 \<le> (of_char (char_of (48 + m) :: char) :: nat) \<and> (of_char (char_of (48 + m) :: char) :: nat) \<le> 57"
    if "m < 10" for m :: nat using that by (simp add: of_char_of)
  show ?case
  proof (cases "n < 10")
    case True
    with 1(2) d show ?thesis by (subst (asm) decimal.simps) auto
  next
    case False
    with 1 d [of "n mod 10"] show ?thesis by (subst (asm) (2) decimal.simps) auto
  qed
qed

lemma decimal_no_mark: "CHR ''/'' \<notin> set (decimal n)" "CHR ''.'' \<notin> set (decimal n)" "CHR '':'' \<notin> set (decimal n)"
  "CHR ''%'' \<notin> set (decimal n)"
  using decimal_digits by fastforce+

lemma ParseUint16_decimal: "ParseUint16 (decimal (unat p)) = Some p"
  by (simp add: ParseUint16_def digits_value_decimal)

lemma decimal_no_leading_zero: "0 < n \<Longrightarrow> decimal n ! 0 \<noteq> CHR ''0''"
proof (induction n rule: decimal.induct)
  case (1 n)
  show ?case
  proof (cases "n < 10")
    case True
    have "(of_char (char_of (48 + n) :: char) :: nat) \<noteq> of_char (CHR ''0'')"
      using 1(2) True by (simp add: of_char_of)
    then have "char_of (48 + n) \<noteq> CHR ''0''" by metis
    with True show ?thesis by (subst decimal.simps) simp
  next
    case False
    then have "decimal (n div 10) ! 0 \<noteq> CHR ''0''" using 1 by simp
    moreover have "(decimal (n div 10) @ [c]) ! 0 = decimal (n div 10) ! 0" for c
      by (simp add: nth_append)
    ultimately show ?thesis using False by (subst decimal.simps) simp
  qed
qed

lemma octet_decimal: "octet (decimal (unat b)) = Some b"
proof -
  have "length (decimal (unat b)) = 1" if "unat b = 0" using that by (simp add: decimal.simps)
  then have "\<not> (length (decimal (unat b)) > 1 \<and> decimal (unat b) ! 0 = CHR ''0'')"
    using decimal_no_leading_zero [of "unat b"] by (cases "unat b = 0") auto
  then show ?thesis by (auto simp: octet_def digits_value_decimal)
qed

section \<open>Splitting\<close>

lemma split_on_none: "c \<notin> set a \<Longrightarrow> split_on c a = [a]"
  by (induction a) auto

lemma split_on_append: "c \<notin> set a \<Longrightarrow> split_on c (a @ c # b) = a # split_on c b"
  by (induction a) auto

definition dotted :: "u8 \<Rightarrow> u8 \<Rightarrow> u8 \<Rightarrow> u8 \<Rightarrow> string" where
  "dotted a b c d = decimal (unat a) @ CHR ''.'' # decimal (unat b) @ CHR ''.'' # decimal (unat c) @ CHR ''.'' # decimal (unat d)"

lemma parseIPv4Fields_dotted: "parseIPv4Fields (dotted a b c d) = Some [a, b, c, d]"
  by (simp add: parseIPv4Fields_def dotted_def split_on_append split_on_none decimal_no_mark octet_decimal)

lemma filter_decimal: "filter (\<lambda>c. c = CHR ''.'' \<or> c = CHR '':'' \<or> c = CHR ''%'') (decimal n) = []"
  using decimal_no_mark by (auto simp: filter_empty_conv)

lemma ParseIP_dotted: "ParseIP (dotted a b c d) = Some (replicate 10 0 @ [0xff, 0xff] @ [a, b, c, d])"
proof -
  obtain r where "filter (\<lambda>c. c = CHR ''.'' \<or> c = CHR '':'' \<or> c = CHR ''%'') (dotted a b c d) = CHR ''.'' # r"
    by (simp add: dotted_def filter_decimal)
  then show ?thesis by (simp add: ParseIP_def parseIPv4Fields_dotted)
qed

lemma To4_mapped: "length v4 = 4 \<Longrightarrow> To4 (replicate 10 0 @ [0xff, 0xff] @ v4) = Some v4"
  by (simp add: To4_def)

section \<open>Base32 text\<close>

primrec be_digits :: "nat \<Rightarrow> nat \<Rightarrow> nat \<Rightarrow> nat list" where
  "be_digits base 0 n = []"
| "be_digits base (Suc k) n = be_digits base k (n div base) @ [n mod base]"

definition base32_char :: "nat \<Rightarrow> char" where
  "base32_char v = (if v < 26 then char_of (65 + v) else char_of (24 + v))"

text \<open>The base32 text of a number of bytes that is a multiple of five.\<close>

function base32_text :: "bytes \<Rightarrow> string" where
  "base32_text bs =
     (if bs = [] then []
      else map base32_char (be_digits 32 8 (le_nat (rev (take 5 bs)))) @ base32_text (drop 5 bs))"
  by pat_completeness auto
termination by (relation "measure length") auto

declare base32_text.simps [simp del]

lemma length_be_digits [simp]: "length (be_digits base k n) = k"
  by (induction k arbitrary: n) auto

lemma foldl_be_digits: "0 < base \<Longrightarrow> foldl (\<lambda>a v. a * base + v) 0 (be_digits base k n) = n mod base ^ k"
proof (induction k arbitrary: n)
  case (Suc k)
  then show ?case using mod_mult2_eq [of n base "base ^ k"] by (simp add: mult.commute)
qed simp

lemma be_digits_less: "0 < base \<Longrightarrow> v \<in> set (be_digits base k n) \<Longrightarrow> v < base"
  by (induction k arbitrary: n) auto

lemma base32_value_char: "v < 32 \<Longrightarrow> base32_value (base32_char v) = Some v"
  by (simp add: base32_value_def base32_char_def of_char_of)

lemma base32_values_map: "\<forall>v \<in> set vs. v < 32 \<Longrightarrow> base32_values (map base32_char vs) = Some vs"
  by (induction vs) (simp_all add: base32_value_char)

lemma base32_group_digits:
  assumes "length bs = 5"
  shows "base32_group (be_digits 32 8 (le_nat (rev bs))) = bs"
proof -
  have "le_nat (rev bs) < 256 ^ 5" using le_nat_less [of "rev bs"] assms by simp
  then have "foldl (\<lambda>a v. a * 32 + v) 0 (be_digits 32 8 (le_nat (rev bs))) = le_nat (rev bs)"
    by (simp add: foldl_be_digits)
  moreover have "le_bytes 5 (le_nat (rev bs)) = rev bs" using le_bytes_le_nat [of "rev bs"] assms by simp
  ultimately show ?thesis by (simp add: base32_group_def)
qed

text \<open>The digits of the text of a list of whole groups.\<close>

lemma base32_text_values:
  assumes "length bs = 5 * k"
  obtains vs where "base32_text bs = map base32_char vs" "length vs = 8 * k" "\<forall>v \<in> set vs. v < 32" "base32_bytes vs = bs"
  using assms
proof (induction k arbitrary: bs thesis)
  case 0
  then show ?case by (intro 0(1) [of "[]"]) (simp_all add: base32_text.simps base32_bytes.simps base32_group_def)
next
  case (Suc k)
  have "length (drop 5 bs) = 5 * k" using Suc.prems(2) by simp
  then obtain vs where vs: "base32_text (drop 5 bs) = map base32_char vs" "length vs = 8 * k"
    "\<forall>v \<in> set vs. v < 32" "base32_bytes vs = drop 5 bs" using Suc.IH by blast
  let ?ds = "be_digits 32 8 (le_nat (rev (take 5 bs)))"
  have g: "base32_group ?ds = take 5 bs" using Suc.prems(2) by (intro base32_group_digits) simp
  have "base32_bytes (?ds @ vs) = bs"
  proof (cases "vs = []")
    case True
    then have "drop 5 bs = []" using vs by (simp add: base32_bytes.simps base32_group_def)
    with True g show ?thesis by (subst base32_bytes.simps) simp
  next
    case False
    then have "\<not> length (?ds @ vs) \<le> 8" by simp
    with g vs(4) show ?thesis by (subst base32_bytes.simps) simp
  qed
  moreover have "base32_text bs = map base32_char (?ds @ vs)"
    using Suc.prems(2) vs(1) by (subst base32_text.simps) auto
  ultimately show ?case using Suc.prems(1) [of "?ds @ vs"] vs be_digits_less [of 32 _ 8] by auto
qed

lemma base32_char_plain: "v < 32 \<Longrightarrow> base32_char v \<notin> {CHR ''/'', CHR '':'', CHR 10, CHR 13}"
proof -
  have "list_all (\<lambda>v. base32_char v \<notin> set [CHR ''/'', CHR '':'', CHR 10, CHR 13]) [0..<32]" by code_simp
  then show "v < 32 \<Longrightarrow> ?thesis" by (simp add: list_all_iff)
qed

lemma base32_text_plain:
  assumes "length bs = 5 * k"
  shows "c \<in> set (base32_text bs) \<Longrightarrow> c \<notin> {CHR ''/'', CHR '':'', CHR 10, CHR 13}"
  using assms base32_char_plain by (elim base32_text_values) auto

lemma base32_decode_text:
  assumes "length bs = 5 * k"
  shows "base32_decode (base32_text bs) = Some bs"
proof -
  have "filter (\<lambda>c. c \<noteq> CHR 10 \<and> c \<noteq> CHR 13) (base32_text bs) = base32_text bs"
    using base32_text_plain [OF assms] by (auto simp: filter_id_conv)
  with assms show ?thesis by (elim base32_text_values) (simp add: base32_decode_def base32_values_map)
qed

lemma ToUpper_keeps: "c \<in> {CHR ''/'', CHR '':''} \<Longrightarrow> c \<in> set t \<Longrightarrow> c \<in> set (ToUpper t)"
  by (induction t rule: ToUpper.induct) (auto simp: upper_char_def)

section \<open>The shape of an encoding\<close>

lemma uvarint_constants:
  "AppendUvarint buf multiaddrProtoIP4 = buf @ [4]" "AppendUvarint buf multiaddrProtoTCP = buf @ [6]"
  "AppendUvarint [] multiaddrProtoOnion3 = [0xBD, 0x03]"
  by (simp_all add: multiaddrProtoIP4_def multiaddrProtoTCP_def multiaddrProtoOnion3_def AppendUvarint.simps)

lemma octets_length: "octets ps = Some bs \<Longrightarrow> length bs = length ps"
  by (induction ps arbitrary: bs) (auto split: Option.bind_splits)

lemma parseIPv4Fields_length: "parseIPv4Fields s = Some bs \<Longrightarrow> length bs = 4"
  by (auto simp: parseIPv4Fields_def Let_def octets_length split: if_splits)

lemma ipv6_groups_length:
  "ipv6_groups ip e s = Some (ip', e') \<Longrightarrow> even (length ip) \<Longrightarrow> length ip' \<le> 16"
proof (induction ip e s rule: ipv6_groups.induct)
  case (1 ip e s)
  obtain ds r where run: "hex_run s = (ds, r)" by (cases "hex_run s")
  have le: "length ip < 16" using 1(3) by (subst (asm) ipv6_groups.simps) (auto split: if_splits)
  with 1(4) have "length ip \<le> 14" by presburger
  with 1 run show ?case
    by (subst (asm) (3) ipv6_groups.simps)
      (auto simp: Let_def split: if_splits list.splits dest!: parseIPv4Fields_length)
qed

lemma ParseIP_length: "ParseIP s = Some ip \<Longrightarrow> length ip = 16"
proof -
  have v6: "length ip = 16" if "parseIPv6 s = Some ip" for ip
    using that ipv6_groups_length [of "[]"]
    by (fastforce simp: parseIPv6_def Let_def split: if_splits option.splits prod.splits)
  show "ParseIP s = Some ip \<Longrightarrow> length ip = 16"
    using v6 by (auto simp: ParseIP_def split: list.splits if_splits dest!: parseIPv4Fields_length)
qed

section \<open>Properties\<close>

lemma EncodeMultiaddrString_ip4:
  "EncodeMultiaddrString (''/ip4/'' @ dotted a b c d @ ''/tcp/'' @ decimal (unat port)) =
     Inr ([4, a, b, c, d, 6] @ put_be16 port)"
proof -
  have "CHR ''/'' \<notin> set (dotted a b c d)" by (simp add: dotted_def decimal_no_mark)
  then have "split_on (CHR ''/'') (''/ip4/'' @ dotted a b c d @ ''/tcp/'' @ decimal (unat port)) =
      [[], ''ip4'', dotted a b c d, ''tcp'', decimal (unat port)]"
    using split_on_append [of "CHR ''/''" "dotted a b c d" "''tcp/'' @ decimal (unat port)"]
    by (simp add: split_on_none decimal_no_mark)
  then show ?thesis
    by (simp add: EncodeMultiaddrString_def HasPrefix_def encodeIP4TCPMultiaddrString_def ParseIP_dotted To4_mapped
        ParseUint16_decimal encodeIP4TCPMultiaddr_def uvarint_constants To4_def)
qed

text \<open>
  Every IPv4 endpoint written in the usual way is encoded, and to the published binary form:
  the code 4, the four octets, the code 6 and the port with its high byte first.
\<close>

theorem multiaddr_ip4_encodes:
  "EncodeMultiaddrString (''/ip4/'' @ dotted a b c d @ ''/tcp/'' @ decimal (unat port)) =
     Inr ([4, a, b, c, d, 6] @ put_be16 port)"
  by (rule EncodeMultiaddrString_ip4)

text \<open>
  Every onion service address is encoded: the base32 text of its 35 bytes, in whatever case, with
  a port other than zero, becomes the code 445 as a varint, these 35 bytes and the port.
\<close>

theorem multiaddr_onion3_encodes:
  assumes "length hash = 35" "ToUpper t = base32_text hash" "length t = 56" "port \<noteq> 0"
  shows "EncodeMultiaddrString (''/onion3/'' @ t @ colon # decimal (unat port)) =
    Inr ([0xBD, 0x03] @ hash @ put_be16 port)"
proof -
  have len: "length hash = 5 * 7" using assms(1) by simp
  have "CHR ''/'' \<notin> set t"
    using ToUpper_keeps [of "CHR ''/''" t] base32_text_plain [OF len, of "CHR ''/''"] assms(2) by auto
  moreover have "colon \<notin> set (decimal (unat port))" by (simp add: colon_def decimal_no_mark)
  ultimately show ?thesis
    using assms last_index_of_append [of colon "decimal (unat port)" t]
    by (simp add: EncodeMultiaddrString_def HasPrefix_def encodeOnion3MultiaddrString_def TrimPrefix_def
        decimal_no_mark onion3EncodedLen_def onion3HashLen_def base32_decode_text [OF len] ParseUint16_decimal
        encodeOnion3Multiaddr_def uvarint_constants colon_def [symmetric] Let_def) (simp add: colon_def)
qed

lemma ToUpper_replicate: "ToUpper (replicate n CHR ''a'') = replicate n CHR ''A''"
proof (induction n)
  case (Suc n)
  have "upper_char CHR ''a'' = CHR ''A''" by code_simp
  with Suc show ?case by (cases n) simp_all
qed simp

lemma base32_text_zeros: "base32_text (replicate (5 * k) 0) = replicate (8 * k) CHR ''A''"
proof (induction k)
  case (Suc k)
  have d: "drop 5 (replicate (5 * Suc k) (0 :: u8)) = replicate (5 * k) 0" by simp
  have t: "take 5 (replicate (5 * Suc k) (0 :: u8)) = replicate 5 0" by simp
  have "le_nat (replicate n 0) = 0" for n by (induction n) simp_all
  then have z: "le_nat (rev (replicate n 0)) = 0" for n by simp
  have "map base32_char (be_digits 32 8 0) = replicate 8 CHR ''A''" by code_simp
  then show ?case
    by (subst base32_text.simps) (simp only: d t z Suc.IH, simp add: replicate_add [symmetric])
qed (simp add: base32_text.simps)

theorem multiaddr_onion3_encodes_witness:
  "EncodeMultiaddrString (''/onion3/'' @ replicate 56 CHR ''a'' @ colon # decimal (unat (18189 :: u16))) =
    Inr ([0xBD, 0x03] @ replicate 35 0 @ put_be16 18189)"
proof (rule multiaddr_onion3_encodes)
  show "ToUpper (replicate 56 CHR ''a'') = base32_text (replicate 35 0)"
    using base32_text_zeros [of 7] by (simp add: ToUpper_replicate)
qed simp_all

lemma EncodeMultiaddrString_shape:
  assumes "EncodeMultiaddrString s = Inr w"
  shows "(\<exists>ip port. length ip = 4 \<and> w = [4] @ ip @ [6] @ put_be16 port) \<or>
    (\<exists>hash port. length hash = 35 \<and> port \<noteq> 0 \<and> w = [0xBD, 0x03] @ hash @ put_be16 port)"
proof (cases "HasPrefix s ''/ip4/''")
  case True
  with assms obtain x ip ip4 port where ip: "ParseIP x = Some ip" "To4 ip = Some ip4"
    and w: "w = encodeIP4TCPMultiaddr ip4 port"
    by (auto simp: EncodeMultiaddrString_def encodeIP4TCPMultiaddrString_def Let_def split: if_splits option.splits)
  have "length ip4 = 4" using ip ParseIP_length [of x ip] by (auto simp: To4_def split: if_splits)
  with w show ?thesis by (auto simp: encodeIP4TCPMultiaddr_def uvarint_constants)
next
  case False
  with assms show ?thesis
    by (auto simp: EncodeMultiaddrString_def encodeOnion3MultiaddrString_def encodeOnion3Multiaddr_def
        onion3HashLen_def uvarint_constants Let_def split: if_splits option.splits)
qed

text \<open>
  C25. What the encoder returns is always a well-formed binary multiaddr of one of its two kinds: an
  IPv4 address of four bytes with a TCP port, or an onion service of 35 bytes with a port other
  than zero. Everything else is an error.
\<close>

theorem multiaddr_shape:
  assumes "EncodeMultiaddrString s = Inr w"
  shows "(\<exists>ip port. length ip = 4 \<and> w = [4] @ ip @ [6] @ put_be16 port) \<or>
    (\<exists>hash port. length hash = 35 \<and> port \<noteq> 0 \<and> w = [0xBD, 0x03] @ hash @ put_be16 port)"
  using assms by (rule EncodeMultiaddrString_shape)

theorem multiaddr_shape_witness:
  "(\<exists>ip port. length ip = 4 \<and> [4, 1, 2, 3, 4, 6] @ put_be16 80 = [4] @ ip @ [6] @ put_be16 port) \<or>
    (\<exists>hash port. length hash = 35 \<and> port \<noteq> 0 \<and> [4, 1, 2, 3, 4, 6] @ put_be16 80 = [0xBD, 0x03] @ hash @ put_be16 port)"
  by (rule multiaddr_shape [OF EncodeMultiaddrString_ip4])

text \<open>An IPv4 address written in its IPv6 form is taken after \<^verbatim>\<open>/ip4/\<close> as well.\<close>

theorem multiaddr_accepts_mapped:
  "ParseIP ''::ffff:1.2.3.4'' = ParseIP (dotted 1 2 3 4)"
  unfolding ParseIP_dotted
  by (simp add: ParseIP_def parseIPv6_def HasPrefix_def ipv6_groups.simps hex_value_def parseIPv4Fields_def octet_def
      digit_value_def Let_def)

end
