(* ===== verification/Rpc_Errors.thy ===== *)
theory Rpc_Errors
  imports Proto_Accessors Multiaddr Rpc_Get_Peers
begin

text \<open>
  The texts of the two error types of \<^verbatim>\<open>src/p2p/rpc\<close> that carry a number from the wire, and that
  the text tells the number. How the protobuf library prints an enum is a parameter.
\<close>

section \<open>Printing\<close>

text \<open>The verb \<^verbatim>\<open>%d\<close> at a signed number.\<close>

definition itoa :: "int \<Rightarrow> string" where
  "itoa n = (if n < 0 then CHR ''-'' # decimal (nat (- n)) else decimal (nat n))"

lemma decimal_inject: "decimal m = decimal n \<longleftrightarrow> m = n"
  by (metis digits_value_decimal option.inject)

lemma itoa_inject: "itoa m = itoa n \<longleftrightarrow> m = n"
proof -
  have "CHR ''-'' \<notin> set (decimal k)" for k using decimal_digits [of "CHR ''-''" k] by auto
  then have "CHR ''-'' # xs \<noteq> decimal k" for xs k by (metis list.set_intros(1))
  moreover from this have "decimal k \<noteq> CHR ''-'' # xs" for xs k by metis
  ultimately show ?thesis by (auto simp: itoa_def decimal_inject)
qed

lemma itoa_hd: "hd (itoa n) \<noteq> CHR ''H''"
proof -
  have "hd (decimal k) \<noteq> CHR ''H''" for k
    using decimal_digits [of "hd (decimal k)" k] by (auto simp: hd_in_set)
  then show ?thesis by (simp add: itoa_def)
qed

text \<open>\<^verbatim>\<open>protoimpl.X.EnumStringOf\<close>: the name of the number in the table of the type, or the number.\<close>

locale enum_printer =
  fixes EnumStringOf :: "(int \<times> string) list \<Rightarrow> int \<Rightarrow> string"
  assumes known: "map_of names n = Some s \<Longrightarrow> EnumStringOf names n = s"
    and unknown: "map_of names n = None \<Longrightarrow> EnumStringOf names n = itoa n"

section \<open>The error types\<close>

definition HandshakeRejectReason_String :: "((int \<times> string) list \<Rightarrow> int \<Rightarrow> string) \<Rightarrow> u32 \<Rightarrow> string" where
  "HandshakeRejectReason_String EnumStringOf r = EnumStringOf HandshakeRejectReason_name (sint r)"

definition RPCStatusError_Error :: "u32 \<Rightarrow> string" where
  "RPCStatusError_Error status =
     ''rpc: get_chain_metadata failed with non-zero RpcResponse.status='' @ decimal (unat status)"

definition HandshakeRejectedError_Error :: "((int \<times> string) list \<Rightarrow> int \<Rightarrow> string) \<Rightarrow> u32 \<Rightarrow> string" where
  "HandshakeRejectedError_Error EnumStringOf reason =
     ''rpc: peer rejected RPC session handshake: '' @ HandshakeRejectReason_String EnumStringOf reason"

lemma reason_name_hd: "map_of HandshakeRejectReason_name n = Some s \<Longrightarrow> hd s = CHR ''H''"
  by (auto simp: HandshakeRejectReason_name_def split: if_splits)

lemma reason_name_inject:
  "map_of HandshakeRejectReason_name m = Some s \<Longrightarrow> map_of HandshakeRejectReason_name n = Some s \<Longrightarrow> m = n"
  by (simp add: reject_reason_tables)

context enum_printer
begin

lemma String_inject:
  "HandshakeRejectReason_String EnumStringOf r = HandshakeRejectReason_String EnumStringOf r' \<longleftrightarrow> r = r'"
proof -
  have "m = n" if "EnumStringOf HandshakeRejectReason_name m = EnumStringOf HandshakeRejectReason_name n" for m n
    using that known [of HandshakeRejectReason_name] unknown [of HandshakeRejectReason_name] itoa_hd itoa_inject
      reason_name_hd reason_name_inject
    by (cases "map_of HandshakeRejectReason_name m"; cases "map_of HandshakeRejectReason_name n") metis+
  from this [of "sint r" "sint r'"] show ?thesis by (auto simp: HandshakeRejectReason_String_def signed_word_eqI)
qed

end

text \<open>The printer the library documents.\<close>

definition print_enum :: "(int \<times> string) list \<Rightarrow> int \<Rightarrow> string" where
  "print_enum names n = (case map_of names n of Some s \<Rightarrow> s | None \<Rightarrow> itoa n)"

interpretation print_enum: enum_printer print_enum
  by unfold_locales (simp_all add: print_enum_def)

section \<open>The texts tell the numbers\<close>

text \<open>
  The text of an error tells what the peer sent. Two status errors with the same text have the same
  status, two rejections with the same text the same reason, known to the table of names or not, and no
  status error reads like a rejection.
\<close>

theorem error_texts_tell:
  assumes "enum_printer EnumStringOf"
  shows "RPCStatusError_Error s = RPCStatusError_Error s' \<longleftrightarrow> s = s'"
    and "HandshakeRejectedError_Error EnumStringOf r = HandshakeRejectedError_Error EnumStringOf r' \<longleftrightarrow> r = r'"
    and "RPCStatusError_Error s \<noteq> HandshakeRejectedError_Error EnumStringOf r"
  by (simp_all add: RPCStatusError_Error_def HandshakeRejectedError_Error_def decimal_inject word_unat_eq_iff
      enum_printer.String_inject [OF assms])

lemma error_texts_sample:
  "HandshakeRejectedError_Error print_enum 2 =
     ''rpc: peer rejected RPC session handshake: HANDSHAKE_REJECT_REASON_NO_SERVER_SESSIONS_AVAILABLE''"
  "HandshakeRejectedError_Error print_enum (- 1) = ''rpc: peer rejected RPC session handshake: -1''"
  by (simp_all add: HandshakeRejectedError_Error_def HandshakeRejectReason_String_def print_enum_def
      HandshakeRejectReason_name_def itoa_def decimal.simps char_of_def bit_0)

end
