(* ===== verification/Noise_Frame.thy ===== *)
theory Noise_Frame
  imports Go_IO
begin

text \<open>
  \<^verbatim>\<open>src/p2p/frame.go\<close>: the 16-bit length-prefixed frames that carry the handshake messages and the
  encrypted transport messages of a connection.
\<close>

section \<open>Operations\<close>

definition maxFrameLength :: nat where "maxFrameLength = 65535"

definition writeFrame :: "bytes \<Rightarrow> (conn, unit) io" where
  "writeFrame payload =
     (if length payload > maxFrameLength
      then io_fail (Errorf ''p2p: frame payload of %d bytes exceeds MAX_PAYLOAD_LENGTH (%d)'')
      else
        io_bind (wrap_err ''p2p: writing frame length prefix'' (Write (put_be16 (word_of_nat (length payload)))))
          (\<lambda>_. if length payload = 0 then io_return ()
               else wrap_err ''p2p: writing frame payload'' (Write payload)))"

definition readFrame :: "(conn, bytes) io" where
  "readFrame =
     io_bind (wrap_err ''p2p: reading frame length prefix'' (ReadFull 2))
       (\<lambda>lenBuf.
          let n = get_be16 lenBuf in
          if n = 0 then io_return []
          else wrap_err ''p2p: reading frame payload (%d bytes)'' (ReadFull (unat n)))"

definition errEmptyFrame :: go_error where
  "errEmptyFrame = Errorf ''p2p: received unexpected empty frame''"

section \<open>The frame format\<close>

definition noise_frame :: "bytes \<Rightarrow> bytes" where
  "noise_frame payload = put_be16 (word_of_nat (length payload)) @ payload"

definition frameable :: "bytes \<Rightarrow> bool" where
  "frameable payload \<longleftrightarrow> length payload \<le> 65535"

lemma frame_length_word: "frameable payload \<Longrightarrow> unat (word_of_nat (length payload) :: u16) = length payload"
  by (simp add: frameable_def unat_of_nat_u16)

lemma length_noise_frame [wire_len]: "length (noise_frame payload) = 2 + length payload"
  by (simp add: noise_frame_def)

lemma writeFrame_ok:
  assumes "frameable payload" "room c = None"
  shows "writeFrame payload c = (Inr (), c\<lparr>outb := outb c @ noise_frame payload\<rparr>)"
  using assms
  by (auto simp: writeFrame_def frameable_def maxFrameLength_def noise_frame_def Write_unlimited
      io_bind_def wrap_err_def)

lemma readFrame_ok:
  assumes "frameable payload" "inb c = noise_frame payload @ r"
  shows "readFrame c = (Inr payload, c\<lparr>inb := r\<rparr>)"
proof -
  let ?n = "word_of_nat (length payload) :: u16"
  have hd: "ReadFull 2 c = (Inr (put_be16 ?n), c\<lparr>inb := payload @ r\<rparr>)"
    using assms(2) by (intro ReadFull_append) (simp_all add: noise_frame_def)
  have n: "unat ?n = length payload" using frame_length_word [OF assms(1)] .
  then have "?n = 0 \<longleftrightarrow> payload = []" by (metis length_0_conv unat_eq_0)
  with hd n show ?thesis
    by (auto simp: readFrame_def io_bind_def wrap_err_def ReadFull_append)
qed

lemma readFrame_cons:
  "frameable p \<Longrightarrow> readFrame \<lparr>inb = noise_frame p @ r, outb = w, room = m\<rparr> = (Inr p, \<lparr>inb = r, outb = w, room = m\<rparr>)"
  using readFrame_ok [of p "\<lparr>inb = noise_frame p @ r, outb = w, room = m\<rparr>" r] by simp

text \<open>A payload that is read was there as a frame.\<close>

lemma readFrame_inverse:
  assumes "readFrame c = (Inr payload, d)"
  shows "frameable payload \<and> inb c = noise_frame payload @ inb d \<and> d = c\<lparr>inb := inb d\<rparr>"
proof -
  from assms obtain lb c' where lb: "ReadFull 2 c = (Inr lb, c')"
    and rest: "(if get_be16 lb = 0 then io_return [] else wrap_err ''p2p: reading frame payload (%d bytes)''
      (ReadFull (unat (get_be16 lb)))) c' = (Inr payload, d)"
    by (auto simp: readFrame_def io_bind_Inr Let_def)
  from lb have l2: "length lb = 2" and c: "inb c = lb @ inb c'" "c' = c\<lparr>inb := inb c'\<rparr>"
    by (auto simp: ReadFull_Inr)
  have p: "length payload = unat (get_be16 lb)" "inb c' = payload @ inb d" "d = c'\<lparr>inb := inb d\<rparr>"
    using rest by (auto simp: ReadFull_Inr split: if_splits)
  have fr: "frameable payload" using p(1) unat_u16_lt [of "get_be16 lb"] unfolding frameable_def by linarith
  have "put_be16 (word_of_nat (length payload)) = lb"
    using put_get(1) [of lb] l2 p(1) by simp
  then show ?thesis using fr c p(2,3) by (simp add: noise_frame_def)
qed

text \<open>Reading takes a frame off the front of the stream: the frames are a prefix code and any
  sequence of them reads back.\<close>

definition stream_conn :: "bytes \<Rightarrow> conn" where
  "stream_conn bs = \<lparr>inb = bs, outb = [], room = None\<rparr>"

definition parse_frame :: "bytes \<Rightarrow> (go_error + bytes) \<times> bytes" where
  "parse_frame bs = (let (r, c) = readFrame (stream_conn bs) in (r, inb c))"

interpretation noise_frames: stream_parser noise_frame frameable parse_frame
proof
  fix a r
  assume "frameable a"
  then show "parse_frame (noise_frame a @ r) = (Inr a, r)"
    using readFrame_ok [of a "stream_conn (noise_frame a @ r)" r]
    by (simp add: parse_frame_def stream_conn_def)
  show "noise_frame a \<noteq> []" using length_noise_frame [of a] by auto
qed

section \<open>Properties\<close>

text \<open>
  C34. Whatever one end writes with \<open>writeFrame\<close>, payload after payload, the other end reads back with
  \<open>readFrame\<close>, payload after payload, with no bytes left over or taken from what follows.
\<close>

theorem frames_roundtrip:
  assumes "list_all frameable payloads"
  shows "parse_n readFrame (length payloads)
      \<lparr>inb = concat (map noise_frame payloads) @ r, outb = o', room = m\<rparr>
    = (Inr payloads, \<lparr>inb = r, outb = o', room = m\<rparr>) \<and>
    (\<forall>c. room c = None \<longrightarrow> foldl (\<lambda>d p. snd (writeFrame p d)) c payloads
       = c\<lparr>outb := outb c @ concat (map noise_frame payloads)\<rparr>)"
proof -
  have "parse_n readFrame (length payloads)
      \<lparr>inb = concat (map noise_frame payloads) @ r, outb = o', room = m\<rparr>
    = (Inr payloads, \<lparr>inb = r, outb = o', room = m\<rparr>)"
    using assms by (induction payloads) (simp_all add: readFrame_cons)
  moreover have "foldl (\<lambda>d p. snd (writeFrame p d)) c payloads
       = c\<lparr>outb := outb c @ concat (map noise_frame payloads)\<rparr>" if "room c = None" for c
    using assms that by (induction payloads arbitrary: c) (simp_all add: writeFrame_ok)
  ultimately show ?thesis by blast
qed

theorem frames_roundtrip_witness:
  "parse_n readFrame 2 \<lparr>inb = concat (map noise_frame [[], [7, 8]]) @ [9], outb = [], room = None\<rparr>
    = (Inr [[], [7, 8]], \<lparr>inb = [9], outb = [], room = None\<rparr>)"
  using frames_roundtrip [of "[[], [7, 8]]" "[9]" "[]" None] by (simp add: frameable_def numeral_2_eq_2 del: parse_n.simps)

text \<open>
  C35. The reader never invents a payload: when \<open>readFrame\<close> succeeds it has consumed exactly the
  frame of the payload it returns; when it fails, the input that remained was the proper beginning
  of a frame, and it has all been consumed. Nothing is ever written by it.
\<close>

theorem readFrame_exact:
  "case readFrame c of
     (Inr payload, d) \<Rightarrow> frameable payload \<and> inb c = noise_frame payload @ inb d \<and>
       d = c\<lparr>inb := inb d\<rparr>
   | (Inl e, d) \<Rightarrow> d = c\<lparr>inb := []\<rparr> \<and>
       \<not> (\<exists>payload r. frameable payload \<and> inb c = noise_frame payload @ r)"
proof (cases "readFrame c")
  case (Pair res d)
  show ?thesis
  proof (cases res)
    case (Inl e)
    have "\<not> (\<exists>payload r. frameable payload \<and> inb c = noise_frame payload @ r)"
      using readFrame_ok Pair Inl by fastforce
    moreover have "d = c\<lparr>inb := []\<rparr>"
      using Pair Inl
      by (auto simp: readFrame_def io_bind_def wrap_err_def ReadFull_def Let_def split: if_splits)
    ultimately show ?thesis using Pair Inl by simp
  next
    case (Inr payload)
    with readFrame_inverse [of c payload d] Pair show ?thesis by simp
  qed
qed

end
