(* ===== verification/Noise_Session.thy ===== *)
theory Noise_Session
  imports Noise_Frame Ristretto
begin

text \<open>
  \<^verbatim>\<open>src/p2p/session.go\<close> (the encrypted frames of a \<^verbatim>\<open>Session\<close>) and \<^verbatim>\<open>src/p2p/yamuxadapter.go\<close> (the byte
  stream made of them). The cipher of the Noise library is a parameter, \<open>cipher_lib\<close>, over the type
  of its states; \<open>noise_cipher\<close> states what is relied on.
\<close>

section \<open>The cipher\<close>

text \<open>One transport message: the result and the next cipher state.\<close>

record 'k cipher_lib =
  Encrypt :: "bytes \<Rightarrow> ('k, bytes) io"
  Decrypt :: "bytes \<Rightarrow> ('k, bytes) io"

text \<open>
  \<open>paired n t r\<close>: the next \<open>n\<close> messages encrypted with the sending state \<open>t\<close> can be decrypted in order
  with the receiving state \<open>r\<close>. The number is there because a Noise cipher state is used up after
  \<open>2 ^ 64 - 1\<close> messages. A ciphertext is 16 bytes longer than its plaintext.
\<close>

locale noise_cipher =
  fixes K :: "'k cipher_lib"
    and paired :: "nat \<Rightarrow> 'k \<Rightarrow> 'k \<Rightarrow> bool"
  assumes encrypt_decrypt: "paired (Suc n) t r \<Longrightarrow>
    \<exists>c t' r'. Encrypt K p t = (Inr c, t') \<and> length c = length p + 16 \<and>
      Decrypt K c r = (Inr p, r') \<and> paired n t' r'"
    and paired_mono: "paired n t r \<Longrightarrow> m \<le> n \<Longrightarrow> paired m t r"

section \<open>Sessions\<close>

record 'k Session =
  session_conn :: conn
  tx :: 'k
  rx :: 'k
  PeerStaticKey :: bytes
  LocalStaticKeypair :: DHKey

definition on_conn :: "(conn, 'a) io \<Rightarrow> ('k Session, 'a) io" where
  "on_conn m s = (case m (session_conn s) of (r, c) \<Rightarrow> (r, s\<lparr>session_conn := c\<rparr>))"

definition on_tx :: "('k, 'a) io \<Rightarrow> ('k Session, 'a) io" where
  "on_tx m s = (case m (tx s) of (r, k) \<Rightarrow> (r, s\<lparr>tx := k\<rparr>))"

definition on_rx :: "('k, 'a) io \<Rightarrow> ('k Session, 'a) io" where
  "on_rx m s = (case m (rx s) of (r, k) \<Rightarrow> (r, s\<lparr>rx := k\<rparr>))"

lemma on_part_eq:
  "on_conn m s = (r, s') \<longleftrightarrow> (\<exists>c. m (session_conn s) = (r, c) \<and> s' = s\<lparr>session_conn := c\<rparr>)"
  "on_tx f s = (q, s') \<longleftrightarrow> (\<exists>k. f (tx s) = (q, k) \<and> s' = s\<lparr>tx := k\<rparr>)"
  "on_rx f s = (q, s') \<longleftrightarrow> (\<exists>k. f (rx s) = (q, k) \<and> s' = s\<lparr>rx := k\<rparr>)"
  by (auto simp: on_conn_def on_tx_def on_rx_def split: prod.splits)

text \<open>After closing the connection nothing more is read from it or written to it.\<close>

definition Session_Close :: "('k Session, unit) io" where
  "Session_Close s = (Inr (), s\<lparr>session_conn := (session_conn s)\<lparr>inb := [], room := Some 0\<rparr>\<rparr>)"

definition Session_SendFrame :: "'k cipher_lib \<Rightarrow> bytes \<Rightarrow> ('k Session, unit) io" where
  "Session_SendFrame K plaintext =
     io_bind (wrap_err ''p2p: encrypting transport frame: %w'' (on_tx (Encrypt K plaintext))) (\<lambda>ciphertext.
       wrap_err ''p2p: sending transport frame: %w'' (on_conn (writeFrame ciphertext)))"

definition Session_ReceiveFrame :: "'k cipher_lib \<Rightarrow> ('k Session, bytes) io" where
  "Session_ReceiveFrame K =
     io_bind (wrap_err ''p2p: receiving transport frame: %w'' (on_conn readFrame)) (\<lambda>ciphertext.
       wrap_err ''p2p: decrypting transport frame: %w'' (on_rx (Decrypt K ciphertext)))"

section \<open>The byte stream for the multiplexer\<close>

record 'k sessionReadWriteCloser =
  session :: "'k Session"
  readBuf :: bytes

definition newSessionReadWriteCloser :: "'k Session \<Rightarrow> 'k sessionReadWriteCloser" where
  "newSessionReadWriteCloser s = \<lparr>session = s, readBuf = []\<rparr>"

definition on_session :: "('k Session, 'a) io \<Rightarrow> ('k sessionReadWriteCloser, 'a) io" where
  "on_session m a = (case m (session a) of (r, s) \<Rightarrow> (r, a\<lparr>session := s\<rparr>))"

definition adapter_Write :: "'k cipher_lib \<Rightarrow> bytes \<Rightarrow> ('k sessionReadWriteCloser, nat) io" where
  "adapter_Write K p =
     io_bind (wrap_err ''p2p: yamux adapter: sending frame: %w'' (on_session (Session_SendFrame K p)))
       (\<lambda>_. io_return (length p))"

text \<open>A received frame takes at least its length prefix off the connection, so skipping empty
  frames ends.\<close>

lemma Session_ReceiveFrame_consumes:
  assumes "Session_ReceiveFrame K s = (Inr p, s')"
  shows "length (inb (session_conn s')) < length (inb (session_conn s))"
proof -
  from assms obtain c d where "readFrame (session_conn s) = (Inr c, d)"
    "s' = s\<lparr>session_conn := d, rx := rx s'\<rparr>"
    by (auto simp: Session_ReceiveFrame_def io_bind_Inr on_part_eq)
  moreover from this(1) have "inb (session_conn s) = noise_frame c @ inb d"
    using readFrame_inverse [of "session_conn s" c d] by simp
  ultimately show ?thesis by (cases s') (simp add: length_noise_frame)
qed

function fill_readBuf :: "'k cipher_lib \<Rightarrow> ('k sessionReadWriteCloser, unit) io" where
  "fill_readBuf K a =
     (if length (readBuf a) \<noteq> 0 then (Inr (), a)
      else case wrap_err ''p2p: yamux adapter: receiving frame: %w'' (on_session (Session_ReceiveFrame K)) a of
        (Inl e, a') \<Rightarrow> (Inl e, a')
      | (Inr frame, a') \<Rightarrow> fill_readBuf K (a'\<lparr>readBuf := frame\<rparr>))"
  by pat_completeness auto
termination
  by (relation "measure (\<lambda>(K, a). length (inb (session_conn (session a))))")
    (auto simp: on_session_def split: prod.splits dest!: Session_ReceiveFrame_consumes sym [of _ "wrap_err _ _ _"])

declare fill_readBuf.simps [simp del]

text \<open>\<^verbatim>\<open>Read(p)\<close> with a buffer of \<open>n\<close> bytes returns the bytes it put there.\<close>

definition adapter_Read :: "'k cipher_lib \<Rightarrow> nat \<Rightarrow> ('k sessionReadWriteCloser, bytes) io" where
  "adapter_Read K n a =
     (if n = 0 then (Inr [], a)
      else io_bind (fill_readBuf K)
        (\<lambda>_ b. (Inr (take n (readBuf b)), b\<lparr>readBuf := drop n (readBuf b)\<rparr>)) a)"

definition adapter_Close :: "('k sessionReadWriteCloser, unit) io" where
  "adapter_Close = on_session Session_Close"

section \<open>What is on the wire\<close>

text \<open>\<open>sealed K t ps\<close>: the bytes of the messages \<open>ps\<close> when the sending state is \<open>t\<close>.\<close>

primrec sealed :: "'k cipher_lib \<Rightarrow> bytes list \<Rightarrow> 'k \<Rightarrow> bytes \<times> 'k" where
  "sealed K [] t = ([], t)"
| "sealed K (p # ps) t =
     (case Encrypt K p t of
        (Inl e, t') \<Rightarrow> ([], t')
      | (Inr c, t') \<Rightarrow> (case sealed K ps t' of (w, t'') \<Rightarrow> (noise_frame c @ w, t'')))"

text \<open>A plaintext whose ciphertext still fits a frame.\<close>

definition fits_frame :: "bytes \<Rightarrow> bool" where
  "fits_frame p \<longleftrightarrow> length p + 16 \<le> maxFrameLength"

text \<open>\<open>incoming K paired ps s\<close>: the messages \<open>ps\<close>, and nothing after them, are on their way to the session \<open>s\<close>.\<close>

definition incoming :: "'k cipher_lib \<Rightarrow> (nat \<Rightarrow> 'k \<Rightarrow> 'k \<Rightarrow> bool) \<Rightarrow> bytes list \<Rightarrow> 'k Session \<Rightarrow> bool" where
  "incoming K paired ps s \<longleftrightarrow>
     (\<exists>t. paired (length ps) t (rx s) \<and> list_all fits_frame ps \<and> inb (session_conn s) = fst (sealed K ps t))"

text \<open>Sending a list of messages, stopping at the first error.\<close>

fun send_all :: "(bytes \<Rightarrow> ('s, 'a) io) \<Rightarrow> bytes list \<Rightarrow> ('s, unit) io" where
  "send_all f [] = io_return ()"
| "send_all f (p # ps) = io_bind (f p) (\<lambda>_. send_all f ps)"

context noise_cipher
begin

lemma Session_SendFrame_ok:
  assumes "paired (Suc n) (tx s) r" "fits_frame p" "room (session_conn s) = None"
  obtains c t' r' where "Encrypt K p (tx s) = (Inr c, t')" "paired n t' r'"
    "Session_SendFrame K p s = (Inr (), s\<lparr>tx := t',
       session_conn := (session_conn s)\<lparr>outb := outb (session_conn s) @ noise_frame c\<rparr>\<rparr>)"
proof -
  obtain c t' r' where e: "Encrypt K p (tx s) = (Inr c, t')" and len: "length c = length p + 16"
    and n: "paired n t' r'"
    using encrypt_decrypt [OF assms(1)] by blast
  have "frameable c" using assms(2) len by (simp add: fits_frame_def frameable_def maxFrameLength_def)
  from writeFrame_ok [OF this assms(3)] e n show ?thesis
    by (intro that) (auto simp: Session_SendFrame_def io_bind_def wrap_err_def on_tx_def on_conn_def)
qed

lemma incoming_Nil: "incoming K paired [] s \<Longrightarrow> \<exists>e s'. Session_ReceiveFrame K s = (Inl e, s')"
  by (auto simp: incoming_def Session_ReceiveFrame_def io_bind_def wrap_err_def on_conn_def readFrame_def ReadFull_def)

lemma incoming_Cons:
  assumes "incoming K paired (p # ps) s"
  obtains s' where "Session_ReceiveFrame K s = (Inr p, s')" "incoming K paired ps s'"
    "PeerStaticKey s' = PeerStaticKey s" "LocalStaticKeypair s' = LocalStaticKeypair s"
proof -
  from assms obtain t where t: "paired (Suc (length ps)) t (rx s)" "fits_frame p" "list_all fits_frame ps"
    and w: "inb (session_conn s) = fst (sealed K (p # ps) t)"
    by (auto simp: incoming_def)
  obtain c t' r' where e: "Encrypt K p t = (Inr c, t')" and len: "length c = length p + 16"
    and d: "Decrypt K c (rx s) = (Inr p, r')" and n: "paired (length ps) t' r'"
    using encrypt_decrypt [OF t(1)] by blast
  have fr: "frameable c" using t(2) len by (simp add: fits_frame_def frameable_def maxFrameLength_def)
  have "inb (session_conn s) = noise_frame c @ fst (sealed K ps t')"
    using w e by (simp split: prod.splits)
  from readFrame_ok [OF fr this] d
  have "Session_ReceiveFrame K s = (Inr p, s\<lparr>rx := r',
      session_conn := (session_conn s)\<lparr>inb := fst (sealed K ps t')\<rparr>\<rparr>)"
    by (simp add: Session_ReceiveFrame_def io_bind_def wrap_err_def on_rx_def on_conn_def)
  moreover have "incoming K paired ps (s\<lparr>rx := r',
      session_conn := (session_conn s)\<lparr>inb := fst (sealed K ps t')\<rparr>\<rparr>)"
    using n t(3) by (auto simp: incoming_def)
  ultimately show ?thesis by (rule that) simp_all
qed

text \<open>What one session writes is what is on its way to the other.\<close>

lemma send_all_sealed:
  assumes "paired (length ps) (tx s) r" "list_all fits_frame ps" "room (session_conn s) = None"
  shows "send_all (Session_SendFrame K) ps s = (Inr (), s\<lparr>tx := snd (sealed K ps (tx s)),
    session_conn := (session_conn s)\<lparr>outb := outb (session_conn s) @ fst (sealed K ps (tx s))\<rparr>\<rparr>)"
  using assms
proof (induction ps arbitrary: s r)
  case (Cons p ps)
  obtain c t' r' where c: "Encrypt K p (tx s) = (Inr c, t')" "paired (length ps) t' r'"
    "Session_SendFrame K p s = (Inr (), s\<lparr>tx := t',
       session_conn := (session_conn s)\<lparr>outb := outb (session_conn s) @ noise_frame c\<rparr>\<rparr>)"
    using Cons.prems by (auto elim: Session_SendFrame_ok)
  show ?case
    using Cons.IH [of "s\<lparr>tx := t', session_conn := (session_conn s)\<lparr>outb := outb (session_conn s) @ noise_frame c\<rparr>\<rparr>" r'] c Cons.prems
    by (simp add: io_bind_def split: prod.splits)
qed simp

end

section \<open>The adapter is a byte stream\<close>

text \<open>\<open>still_delivers K paired bs a\<close>: the bytes \<open>bs\<close> are what the adapter \<open>a\<close> has still to deliver.\<close>

definition still_delivers :: "'k cipher_lib \<Rightarrow> (nat \<Rightarrow> 'k \<Rightarrow> 'k \<Rightarrow> bool) \<Rightarrow> bytes \<Rightarrow> 'k sessionReadWriteCloser \<Rightarrow> bool" where
  "still_delivers K paired bs a \<longleftrightarrow> (\<exists>ps. incoming K paired ps (session a) \<and> bs = readBuf a @ concat ps)"

text \<open>\<^verbatim>\<open>io.ReadFull\<close> over the adapter: \<^verbatim>\<open>Read\<close> into the unfilled rest of the buffer until it is full.\<close>

fun adapter_ReadFull :: "nat \<Rightarrow> 'k cipher_lib \<Rightarrow> nat \<Rightarrow> ('k sessionReadWriteCloser, bytes) io" where
  "adapter_ReadFull fuel K 0 a = (Inr [], a)"
| "adapter_ReadFull 0 K (Suc n) a = (Inl (Errorf ''no progress''), a)"
| "adapter_ReadFull (Suc fuel) K (Suc n) a =
     (case adapter_Read K (Suc n) a of
        (Inl e, a') \<Rightarrow> (Inl e, a')
      | (Inr bs, a') \<Rightarrow>
          (case adapter_ReadFull fuel K (Suc n - length bs) a' of
             (Inl e, a'') \<Rightarrow> (Inl e, a'')
           | (Inr rest, a'') \<Rightarrow> (Inr (bs @ rest), a'')))"

context noise_cipher
begin

lemma fill_readBuf_ok:
  assumes "incoming K paired ps (session a)" "readBuf a @ concat ps \<noteq> []"
  obtains a' ps' where "fill_readBuf K a = (Inr (), a')" "readBuf a' \<noteq> []"
    "incoming K paired ps' (session a')" "readBuf a' @ concat ps' = readBuf a @ concat ps"
  using assms
proof (induction ps arbitrary: a thesis)
  case Nil
  then show ?case by (intro Nil.prems(1) [of a "[]"]) (simp_all add: fill_readBuf.simps)
next
  case (Cons p ps)
  show ?case
  proof (cases "readBuf a = []")
    case False
    with Cons.prems show ?thesis by (intro Cons.prems(1) [of a "p # ps"]) (simp_all add: fill_readBuf.simps)
  next
    case True
    obtain s' where s': "Session_ReceiveFrame K (session a) = (Inr p, s')" "incoming K paired ps s'"
      using incoming_Cons [OF Cons.prems(2)] by blast
    have step: "fill_readBuf K a = fill_readBuf K (a\<lparr>session := s', readBuf := p\<rparr>)"
      using True s'(1) by (subst fill_readBuf.simps) (simp add: on_session_def wrap_err_def)
    show ?thesis
      by (rule Cons.IH [of "a\<lparr>session := s', readBuf := p\<rparr>"])
        (use Cons.prems s' True step in auto)
  qed
qed

lemma adapter_Read_ok:
  assumes "still_delivers K paired bs a" "bs \<noteq> []" "0 < n"
  obtains m a' where "adapter_Read K n a = (Inr (take m bs), a')" "0 < m" "m \<le> n" "m \<le> length bs"
    "still_delivers K paired (drop m bs) a'"
proof -
  from assms(1) obtain ps where "incoming K paired ps (session a)" and bs: "bs = readBuf a @ concat ps"
    by (auto simp: still_delivers_def)
  then obtain b qs where b: "fill_readBuf K a = (Inr (), b)" "readBuf b \<noteq> []" "incoming K paired qs (session b)"
    "readBuf b @ concat qs = bs"
    using fill_readBuf_ok [of ps a] assms(2) by blast
  let ?m = "min n (length (readBuf b))"
  have "take ?m bs = take n (readBuf b)" "drop ?m bs = drop n (readBuf b) @ concat qs"
    using b(4) by (auto simp: min_def)
  moreover have "adapter_Read K n a = (Inr (take n (readBuf b)), b\<lparr>readBuf := drop n (readBuf b)\<rparr>)"
    using assms(3) b(1) by (simp add: adapter_Read_def io_bind_def)
  moreover have "still_delivers K paired (drop n (readBuf b) @ concat qs) (b\<lparr>readBuf := drop n (readBuf b)\<rparr>)"
    using b(3) by (auto simp: still_delivers_def)
  moreover have "?m \<le> length bs" using b(4) by auto
  ultimately show ?thesis using that [of ?m] assms(3) b(2) by simp
qed

lemma adapter_ReadFull_ok:
  assumes "still_delivers K paired bs a" "n \<le> length bs" "n \<le> fuel"
  shows "\<exists>a'. adapter_ReadFull fuel K n a = (Inr (take n bs), a') \<and> still_delivers K paired (drop n bs) a'"
  using assms
proof (induction fuel arbitrary: n bs a)
  case (Suc fuel)
  show ?case
  proof (cases n)
    case (Suc k)
    from Suc.prems Suc have "bs \<noteq> []" by auto
    then obtain m b where m: "adapter_Read K n a = (Inr (take m bs), b)" "0 < m" "m \<le> n" "m \<le> length bs"
      "still_delivers K paired (drop m bs) b"
      using adapter_Read_ok [OF Suc.prems(1), of n] Suc by auto
    have "n - m \<le> length (drop m bs)" "n - m \<le> fuel" using Suc.prems m by auto
    from Suc.IH [OF m(5) this] obtain a' where a': "adapter_ReadFull fuel K (n - m) b = (Inr (take (n - m) (drop m bs)), a')"
      "still_delivers K paired (drop (n - m) (drop m bs)) a'" by blast
    have "take m bs @ take (n - m) (drop m bs) = take n bs" using m(3)
      by (metis le_add_diff_inverse take_add)
    then have "adapter_ReadFull (Suc fuel) K n a = (Inr (take n bs), a')"
      using m(1,4) a'(1) Suc by simp
    then show ?thesis using a'(2) m(3) by auto
  qed (use Suc.prems in simp)
qed simp

end

section \<open>An instance of the cipher interface\<close>

text \<open>
  A state is the number of the next message, as the nonce of a Noise cipher state is; the 16-byte
  tag is the number, so a message out of order is refused.
\<close>

definition MaxNonce :: nat where "MaxNonce = 2 ^ 64 - 2"

definition counter_tag :: "nat \<Rightarrow> bytes" where
  "counter_tag n = le_bytes 16 n"

definition counter_cipher :: "nat cipher_lib" where
  "counter_cipher = \<lparr>
     Encrypt = (\<lambda>p n. if n > MaxNonce then (Inl CipherError, n) else (Inr (p @ counter_tag n), n + 1)),
     Decrypt = (\<lambda>c n. if n > MaxNonce \<or> length c < 16 \<or> drop (length c - 16) c \<noteq> counter_tag n
       then (Inl CipherError, n) else (Inr (take (length c - 16) c), n + 1))\<rparr>"

definition counter_paired :: "nat \<Rightarrow> nat \<Rightarrow> nat \<Rightarrow> bool" where
  "counter_paired k t r \<longleftrightarrow> t = r \<and> t + k \<le> MaxNonce + 1"

interpretation counters: noise_cipher counter_cipher counter_paired
  by unfold_locales (auto simp: counter_cipher_def counter_paired_def counter_tag_def)

section \<open>Properties\<close>

text \<open>The receiving adapter when the bytes \<open>w\<close> have arrived on its connection.\<close>

definition deliver :: "bytes \<Rightarrow> 'k sessionReadWriteCloser \<Rightarrow> 'k sessionReadWriteCloser" where
  "deliver w b = b\<lparr>session := (session b)\<lparr>session_conn := (session_conn (session b))\<lparr>inb := w\<rparr>\<rparr>\<rparr>"

lemma send_all_adapter:
  assumes "send_all (Session_SendFrame K) ps (session a) = (Inr (), s)"
  shows "send_all (adapter_Write K) ps a = (Inr (), a\<lparr>session := s\<rparr>)"
  using assms
proof (induction ps arbitrary: a)
  case (Cons p ps)
  then obtain u s' where s': "Session_SendFrame K p (session a) = (Inr u, s')"
    "send_all (Session_SendFrame K) ps s' = (Inr (), s)" by (auto simp: io_bind_Inr)
  then have "adapter_Write K p a = (Inr (length p), a\<lparr>session := s'\<rparr>)"
    by (simp add: adapter_Write_def on_session_def io_bind_def wrap_err_def)
  with Cons.IH [of "a\<lparr>session := s'\<rparr>"] s' show ?case by (simp add: io_bind_def)
qed simp

text \<open>
  C20. The multiplexer's stream over an encrypted session is a faithful byte stream: however the
  sender's writes cut the bytes into frames, empty ones included, and however the receiver's reads
  cut them up, a reader that asks for the first \<open>n\<close> of the bytes written gets exactly these, in order,
  and the rest stays to be read. Neither side needs more than \<open>n\<close> calls of \<^verbatim>\<open>Read\<close>.
\<close>

theorem adapter_stream:
  assumes "noise_cipher K paired" "paired (length ps) (tx (session a)) (rx (session b))" "list_all fits_frame ps"
    and "room (session_conn (session a)) = None" "readBuf b = []" "n \<le> length (concat ps)"
  shows "\<exists>a' w b'. send_all (adapter_Write K) ps a = (Inr (), a') \<and>
    outb (session_conn (session a')) = outb (session_conn (session a)) @ w \<and>
    adapter_ReadFull n K n (deliver w b) = (Inr (take n (concat ps)), b') \<and>
    still_delivers K paired (drop n (concat ps)) b'"
proof -
  let ?w = "fst (sealed K ps (tx (session a)))"
  note send = noise_cipher.send_all_sealed [OF assms(1,2,3,4)]
  have "incoming K paired ps (session (deliver ?w b))"
    using assms(2,3) by (auto simp: incoming_def deliver_def)
  then have "still_delivers K paired (concat ps) (deliver ?w b)"
    using assms(5) by (auto simp: still_delivers_def deliver_def)
  from noise_cipher.adapter_ReadFull_ok [OF assms(1) this assms(6) order_refl]
  obtain b' where "adapter_ReadFull n K n (deliver ?w b) = (Inr (take n (concat ps)), b')"
    "still_delivers K paired (drop n (concat ps)) b'" by blast
  moreover note send_all_adapter [OF send]
  moreover have "outb (session_conn (session (a\<lparr>session := (session a)\<lparr>tx := snd (sealed K ps (tx (session a))),
      session_conn := (session_conn (session a))\<lparr>outb := outb (session_conn (session a)) @ ?w\<rparr>\<rparr>\<rparr>))) =
    outb (session_conn (session a)) @ ?w" by simp
  ultimately show ?thesis by blast
qed

definition sample_adapter :: "nat sessionReadWriteCloser" where
  "sample_adapter = newSessionReadWriteCloser \<lparr>session_conn = reader_of [], tx = 0, rx = 0, PeerStaticKey = [],
     LocalStaticKeypair = \<lparr>Private = [], Public = []\<rparr>\<rparr>"

theorem adapter_stream_witness:
  "\<exists>a' w b'. send_all (adapter_Write counter_cipher) [[1, 2], [], [3]] sample_adapter = (Inr (), a') \<and>
    outb (session_conn (session a')) = outb (session_conn (session sample_adapter)) @ w \<and>
    adapter_ReadFull 3 counter_cipher 3 (deliver w sample_adapter) = (Inr (take 3 (concat [[1, 2], [], [3]])), b') \<and>
    still_delivers counter_cipher counter_paired (drop 3 (concat [[1, 2], [], [3]])) b'"
  by (rule adapter_stream [OF counters.noise_cipher_axioms])
    (simp_all add: sample_adapter_def newSessionReadWriteCloser_def reader_of_def counter_paired_def
      fits_frame_def maxFrameLength_def MaxNonce_def)

text \<open>
  A plaintext whose ciphertext does not fit a frame is refused: \<^verbatim>\<open>SendFrame\<close> returns an error and
  nothing is written. The sending cipher state has nevertheless moved on, so the two ends no longer
  agree on the number of the next message.
\<close>

theorem oversized_send_refused:
  assumes "noise_cipher K paired" "paired (Suc n) (tx s) r" "\<not> fits_frame p"
  shows "\<exists>e c t'. Encrypt K p (tx s) = (Inr c, t') \<and> Session_SendFrame K p s = (Inl e, s\<lparr>tx := t'\<rparr>)"
proof -
  obtain c t' where c: "Encrypt K p (tx s) = (Inr c, t')" and len: "length c = length p + 16"
    using noise_cipher.encrypt_decrypt [OF assms(1,2)] by blast
  then have "writeFrame c (session_conn s) = (Inl (Errorf ''p2p: frame payload of %d bytes exceeds MAX_PAYLOAD_LENGTH (%d)''), session_conn s)"
    using assms(3) by (simp add: writeFrame_def fits_frame_def)
  with c show ?thesis
    by (simp add: Session_SendFrame_def io_bind_def wrap_err_def on_tx_def on_conn_def)
qed

theorem oversized_send_refused_witness:
  "\<exists>e c t'. Encrypt counter_cipher (replicate 65520 0) (tx (session sample_adapter)) = (Inr c, t') \<and>
     Session_SendFrame counter_cipher (replicate 65520 0) (session sample_adapter) =
       (Inl e, (session sample_adapter)\<lparr>tx := t'\<rparr>)"
  by (rule oversized_send_refused [OF counters.noise_cipher_axioms, of 0 _ 0])
    (simp_all add: sample_adapter_def newSessionReadWriteCloser_def counter_paired_def
      fits_frame_def maxFrameLength_def MaxNonce_def)

end
