(* ===== verification/Handshake.thy ===== *)
theory Handshake
  imports Noise_Session
begin

text \<open>
  \<^verbatim>\<open>src/p2p/handshake.go\<close>: the network byte and the three messages of the Noise XX handshake. The
  Noise library is a parameter, \<open>noise_lib\<close>, over the type of its handshake states; \<open>noise_xx\<close>
  states what is relied on.
\<close>

section \<open>The Noise library\<close>

datatype DHFunc = RistrettoDH
datatype CipherFunc = CipherChaChaPoly
datatype HashFunc = HashBLAKE2b
datatype HandshakePattern = HandshakeXX

record CipherSuite =
  suite_DH :: DHFunc
  suite_Cipher :: CipherFunc
  suite_Hash :: HashFunc

record Config =
  cfg_CipherSuite :: CipherSuite
  cfg_Pattern :: HandshakePattern
  cfg_Initiator :: bool
  cfg_Prologue :: bytes
  cfg_StaticKeypair :: DHKey

text \<open>\<^verbatim>\<open>WriteMessage\<close> returns the message, \<^verbatim>\<open>ReadMessage\<close> the payload, and both the two cipher states once
  the handshake is complete and nil before. The calls of the sources pass no payload.\<close>

record ('h, 'k) noise_lib =
  NewHandshakeState :: "Config \<Rightarrow> go_error + 'h"
  WriteMessage :: "('h, bytes \<times> 'k option \<times> 'k option) io"
  ReadMessage :: "bytes \<Rightarrow> ('h, bytes \<times> 'k option \<times> 'k option) io"
  PeerStatic :: "'h \<Rightarrow> bytes"

section \<open>Constants\<close>

definition NetworkByteMainNet :: u8 where "NetworkByteMainNet = 0x00"
definition NetworkByteStageNet :: u8 where "NetworkByteStageNet = 0x01"
definition NetworkByteNextNet :: u8 where "NetworkByteNextNet = 0x52"
definition NetworkByteLocalNet :: u8 where "NetworkByteLocalNet = 0x10"
definition NetworkByteIgor :: u8 where "NetworkByteIgor = 0x24"
definition NetworkByteEsmeralda :: u8 where "NetworkByteEsmeralda = 0xca"
definition defaultNetworkWireByte :: u8 where "defaultNetworkWireByte = NetworkByteMainNet"
definition liveWireMode :: u8 where "liveWireMode = 0xa7"

definition tariPrologue :: bytes where
  "tariPrologue = string_bytes ''com.tari.comms.noise.prologue''"

definition newTariCipherSuite :: CipherSuite where
  "newTariCipherSuite = \<lparr>suite_DH = RistrettoDH, suite_Cipher = CipherChaChaPoly, suite_Hash = HashBLAKE2b\<rparr>"

definition handshake_config :: "bool \<Rightarrow> DHKey \<Rightarrow> Config" where
  "handshake_config initiator staticKeypair = \<lparr>cfg_CipherSuite = newTariCipherSuite, cfg_Pattern = HandshakeXX,
     cfg_Initiator = initiator, cfg_Prologue = tariPrologue, cfg_StaticKeypair = staticKeypair\<rparr>"

section \<open>The two sides\<close>

text \<open>A context is nil, or done or not.\<close>

definition checkContext :: "bool option \<Rightarrow> ('s, unit) io" where
  "checkContext ctx =
     (case ctx of
        None \<Rightarrow> io_return ()
      | Some done \<Rightarrow>
          if done then io_fail (Wrap ''p2p: context done before starting handshake: %w'' ContextError)
          else io_return ())"

text \<open>The state of a handshake in progress: the connection and the library's handshake state.\<close>

definition hs_conn :: "(conn, 'a) io \<Rightarrow> (conn \<times> 'h, 'a) io" where
  "hs_conn m ch = (case ch of (c, h) \<Rightarrow> (case m c of (r, c') \<Rightarrow> (r, (c', h))))"

definition hs_noise :: "('h, 'a) io \<Rightarrow> (conn \<times> 'h, 'a) io" where
  "hs_noise m ch = (case ch of (c, h) \<Rightarrow> (case m h of (r, h') \<Rightarrow> (r, (c, h'))))"

text \<open>The last steps of both sides: the check of the peer's key and the session, with the sending and
  the receiving cipher state in that order.\<close>

definition make_session :: "('h, 'k) noise_lib \<Rightarrow> DHKey \<Rightarrow> 'k \<Rightarrow> 'k \<Rightarrow> (conn \<times> 'h, 'k Session) io" where
  "make_session N staticKeypair send recv ch =
     (let peerStatic = PeerStatic N (snd ch) in
      if length peerStatic \<noteq> 32 then
        (Inl (Errorf ''p2p: expected a 32-byte peer static public key, got %d bytes''), ch)
      else (Inr \<lparr>session_conn = fst ch, tx = send, rx = recv, PeerStaticKey = peerStatic,
        LocalStaticKeypair = staticKeypair\<rparr>, ch))"

definition no_ciphers :: go_error where
  "no_ciphers = Errorf ''p2p: handshake message 3 did not complete the handshake (no cipher states returned)''"

definition initiator_finish ::
  "('h, 'k) noise_lib \<Rightarrow> DHKey \<Rightarrow> bytes \<Rightarrow> 'k option \<Rightarrow> 'k option \<Rightarrow> (conn \<times> 'h, 'k Session) io" where
  "initiator_finish N staticKeypair msg3 cs1 cs2 =
     (case (cs1, cs2) of
        (Some cs1, Some cs2) \<Rightarrow>
          io_bind (wrap_err ''p2p: sending handshake message 3: %w'' (hs_conn (writeFrame msg3))) (\<lambda>_.
            make_session N staticKeypair cs1 cs2)
      | _ \<Rightarrow> io_fail no_ciphers)"

definition initiator_messages :: "('h, 'k) noise_lib \<Rightarrow> DHKey \<Rightarrow> (conn \<times> 'h, 'k Session) io" where
  "initiator_messages N staticKeypair =
     io_bind (wrap_err ''p2p: building handshake message 1 (-> e): %w'' (hs_noise (WriteMessage N))) (\<lambda>(msg1, _, _).
     io_bind (wrap_err ''p2p: sending handshake message 1: %w'' (hs_conn (writeFrame msg1))) (\<lambda>_.
     io_bind (wrap_err ''p2p: receiving handshake message 2: %w'' (hs_conn readFrame)) (\<lambda>msg2.
     io_bind (wrap_err ''p2p: processing handshake message 2 (<- e, ee, s, es): %w'' (hs_noise (ReadMessage N msg2))) (\<lambda>_.
     io_bind (wrap_err ''p2p: building handshake message 3 (-> s, se): %w'' (hs_noise (WriteMessage N))) (\<lambda>(msg3, cs1, cs2).
       initiator_finish N staticKeypair msg3 cs1 cs2)))))"

definition responder_finish ::
  "('h, 'k) noise_lib \<Rightarrow> DHKey \<Rightarrow> 'k option \<Rightarrow> 'k option \<Rightarrow> (conn \<times> 'h, 'k Session) io" where
  "responder_finish N staticKeypair cs1 cs2 =
     (case (cs1, cs2) of
        (Some cs1, Some cs2) \<Rightarrow> make_session N staticKeypair cs2 cs1
      | _ \<Rightarrow> io_fail no_ciphers)"

definition responder_messages :: "('h, 'k) noise_lib \<Rightarrow> DHKey \<Rightarrow> (conn \<times> 'h, 'k Session) io" where
  "responder_messages N staticKeypair =
     io_bind (wrap_err ''p2p: receiving handshake message 1: %w'' (hs_conn readFrame)) (\<lambda>msg1.
     io_bind (wrap_err ''p2p: processing handshake message 1 (-> e): %w'' (hs_noise (ReadMessage N msg1))) (\<lambda>_.
     io_bind (wrap_err ''p2p: building handshake message 2 (<- e, ee, s, es): %w'' (hs_noise (WriteMessage N))) (\<lambda>(msg2, _, _).
     io_bind (wrap_err ''p2p: sending handshake message 2: %w'' (hs_conn (writeFrame msg2))) (\<lambda>_.
     io_bind (wrap_err ''p2p: receiving handshake message 3: %w'' (hs_conn readFrame)) (\<lambda>msg3.
     io_bind (wrap_err ''p2p: processing handshake message 3 (-> s, se): %w'' (hs_noise (ReadMessage N msg3))) (\<lambda>(_, cs1, cs2).
       responder_finish N staticKeypair cs1 cs2))))))"

text \<open>Running the messages on a new handshake state, of which only the connection survives.\<close>

definition run_handshake :: "(conn \<times> 'h, 'k Session) io \<Rightarrow> 'h \<Rightarrow> (conn, 'k Session) io" where
  "run_handshake messages h c = (case messages (c, h) of (r, (c', h')) \<Rightarrow> (r, c'))"

definition InitiatorHandshake ::
  "('h, 'k) noise_lib \<Rightarrow> bool option \<Rightarrow> DHKey \<Rightarrow> u8 \<Rightarrow> (conn, 'k Session) io" where
  "InitiatorHandshake N ctx staticKeypair networkByte =
     io_bind (checkContext ctx) (\<lambda>_.
     io_bind (wrap_err ''p2p: writing network wire byte: %w'' (Write [networkByte])) (\<lambda>_.
     io_bind (wrap_result ''p2p: initializing initiator handshake state: %w''
       (NewHandshakeState N (handshake_config True staticKeypair)))
       (run_handshake (initiator_messages N staticKeypair))))"

definition ResponderHandshake ::
  "('h, 'k) noise_lib \<Rightarrow> bool option \<Rightarrow> DHKey \<Rightarrow> (conn, 'k Session) io" where
  "ResponderHandshake N ctx staticKeypair =
     io_bind (checkContext ctx) (\<lambda>_.
     io_bind (wrap_err ''p2p: reading network wire byte: %w'' (ReadFull 1)) (\<lambda>wireByte.
       if wireByte ! 0 = liveWireMode then
         io_fail (Errorf ''p2p: peer requested liveness wire mode (0x%x), which this package does not implement'')
       else
         io_bind (wrap_result ''p2p: initializing responder handshake state: %w''
           (NewHandshakeState N (handshake_config False staticKeypair)))
           (run_handshake (responder_messages N staticKeypair))))"

section \<open>What is relied on of the library\<close>

text \<open>
  \<open>sync k a b hi hr\<close>: the initiator with key pair \<open>a\<close> is in state \<open>hi\<close> and the responder with \<open>b\<close> in \<open>hr\<close>
  after \<open>k\<close> messages of a handshake between them. The third message completes it: both sides get
  the cipher states of the two directions, the initiator's first, and know the other's static key.
\<close>

locale noise_xx = noise_cipher K paired
  for K :: "'k cipher_lib" and paired :: "nat \<Rightarrow> 'k \<Rightarrow> 'k \<Rightarrow> bool" +
  fixes N :: "('h, 'k) noise_lib"
    and sync :: "nat \<Rightarrow> DHKey \<Rightarrow> DHKey \<Rightarrow> 'h \<Rightarrow> 'h \<Rightarrow> bool"
    and keypair :: "DHKey \<Rightarrow> bool"
    and budget :: nat
  assumes start: "keypair a \<Longrightarrow> keypair b \<Longrightarrow> \<exists>hi hr. NewHandshakeState N (handshake_config True a) = Inr hi \<and>
      NewHandshakeState N (handshake_config False b) = Inr hr \<and> sync 0 a b hi hr"
    and message1: "sync 0 a b hi hr \<Longrightarrow> \<exists>m p hi' hr'. WriteMessage N hi = (Inr (m, None, None), hi') \<and>
      ReadMessage N m hr = (Inr (p, None, None), hr') \<and> frameable m \<and> sync 1 a b hi' hr'"
    and message2: "sync 1 a b hi hr \<Longrightarrow> \<exists>m p hi' hr'. WriteMessage N hr = (Inr (m, None, None), hr') \<and>
      ReadMessage N m hi = (Inr (p, None, None), hi') \<and> frameable m \<and> sync 2 a b hi' hr'"
    and message3: "sync 2 a b hi hr \<Longrightarrow> \<exists>m p hi' hr' c1 c2 d1 d2.
      WriteMessage N hi = (Inr (m, Some c1, Some c2), hi') \<and>
      ReadMessage N m hr = (Inr (p, Some d1, Some d2), hr') \<and> frameable m \<and>
      paired budget c1 d1 \<and> paired budget d2 c2 \<and> sync 3 a b hi' hr'"
    and peer_static: "sync 3 a b hi hr \<Longrightarrow> PeerStatic N hi = Public b \<and> PeerStatic N hr = Public a"
    and public_length: "keypair a \<Longrightarrow> length (Public a) = 32"
begin

text \<open>The two sides against each other. The bytes that follow the handshake stay on the connection.\<close>

lemma handshake_completes:
  assumes "keypair a" "keypair b" "nb \<noteq> liveWireMode"
  obtains m1 m2 m3 c1 c2 d1 d2 where "paired budget c1 d1" "paired budget d2 c2"
    "\<And>c rest. room c = None \<Longrightarrow> inb c = noise_frame m2 @ rest \<Longrightarrow>
      InitiatorHandshake N None a nb c = (Inr \<lparr>session_conn = c\<lparr>inb := rest,
          outb := outb c @ nb # noise_frame m1 @ noise_frame m3\<rparr>, tx = c1, rx = c2,
        PeerStaticKey = Public b, LocalStaticKeypair = a\<rparr>,
        c\<lparr>inb := rest, outb := outb c @ nb # noise_frame m1 @ noise_frame m3\<rparr>)"
    "\<And>c rest. room c = None \<Longrightarrow> inb c = nb # noise_frame m1 @ noise_frame m3 @ rest \<Longrightarrow>
      ResponderHandshake N None b c = (Inr \<lparr>session_conn = c\<lparr>inb := rest, outb := outb c @ noise_frame m2\<rparr>,
        tx = d2, rx = d1, PeerStaticKey = Public a, LocalStaticKeypair = b\<rparr>,
        c\<lparr>inb := rest, outb := outb c @ noise_frame m2\<rparr>)"
proof -
  obtain i0 r0 where s: "NewHandshakeState N (handshake_config True a) = Inr i0"
    "NewHandshakeState N (handshake_config False b) = Inr r0" "sync 0 a b i0 r0"
    using start [OF assms(1,2)] by blast
  obtain m1 p1 i1 r1 where m1: "WriteMessage N i0 = (Inr (m1, None, None), i1)"
    "ReadMessage N m1 r0 = (Inr (p1, None, None), r1)" "frameable m1" "sync 1 a b i1 r1"
    using message1 [OF s(3)] by blast
  obtain m2 p2 i2 r2 where m2: "WriteMessage N r1 = (Inr (m2, None, None), r2)"
    "ReadMessage N m2 i1 = (Inr (p2, None, None), i2)" "frameable m2" "sync 2 a b i2 r2"
    using message2 [OF m1(4)] by blast
  obtain m3 p3 i3 r3 c1 c2 d1 d2 where m3: "WriteMessage N i2 = (Inr (m3, Some c1, Some c2), i3)"
    "ReadMessage N m3 r2 = (Inr (p3, Some d1, Some d2), r3)" "frameable m3"
    "paired budget c1 d1" "paired budget d2 c2" "sync 3 a b i3 r3"
    using message3 [OF m2(4)] by blast
  note peer = peer_static [OF m3(6)] and len = public_length [OF assms(1)] public_length [OF assms(2)]
  have initiator: "InitiatorHandshake N None a nb c = (Inr \<lparr>session_conn = c\<lparr>inb := rest,
      outb := outb c @ nb # noise_frame m1 @ noise_frame m3\<rparr>, tx = c1, rx = c2,
      PeerStaticKey = Public b, LocalStaticKeypair = a\<rparr>,
      c\<lparr>inb := rest, outb := outb c @ nb # noise_frame m1 @ noise_frame m3\<rparr>)"
    if "room c = None" "inb c = noise_frame m2 @ rest" for c rest
    using that s(1) m1(1,3) m2(2,3) m3(1,3) peer len
    by (simp add: InitiatorHandshake_def initiator_messages_def initiator_finish_def run_handshake_def checkContext_def io_bind_def
        wrap_err_def hs_conn_def hs_noise_def Write_unlimited writeFrame_ok readFrame_ok [of m2 _ rest] make_session_def)
  have responder: "ResponderHandshake N None b c = (Inr \<lparr>session_conn = c\<lparr>inb := rest, outb := outb c @ noise_frame m2\<rparr>,
      tx = d2, rx = d1, PeerStaticKey = Public a, LocalStaticKeypair = b\<rparr>,
      c\<lparr>inb := rest, outb := outb c @ noise_frame m2\<rparr>)"
    if "room c = None" "inb c = nb # noise_frame m1 @ noise_frame m3 @ rest" for c rest
    using that s(2) m1(2,3) m2(1,3) m3(2,3) peer len assms(3)
      ReadFull_append [of "[nb]" 1 c "noise_frame m1 @ noise_frame m3 @ rest"]
    by (simp add: ResponderHandshake_def responder_messages_def responder_finish_def run_handshake_def checkContext_def io_bind_def
        wrap_err_def hs_conn_def hs_noise_def writeFrame_ok readFrame_ok [of m1 _ "noise_frame m3 @ rest"]
        readFrame_ok [of m3 _ rest] make_session_def)
  show ?thesis by (rule that [OF m3(4,5) initiator responder])
qed

end

section \<open>An instance of the library interface\<close>

text \<open>The XX message pattern with the static keys in the clear and counting ciphers.\<close>

record plain_state =
  pl_initiator :: bool
  pl_count :: nat
  pl_key :: DHKey
  pl_peer :: bytes

definition plain_xx :: "(plain_state, nat) noise_lib" where
  "plain_xx = \<lparr>
     NewHandshakeState = (\<lambda>cfg. if length (Public (cfg_StaticKeypair cfg)) = 32
       then Inr \<lparr>pl_initiator = cfg_Initiator cfg, pl_count = 0, pl_key = cfg_StaticKeypair cfg, pl_peer = []\<rparr>
       else Inl (Errorf ''noise: invalid static keypair'')),
     WriteMessage = (\<lambda>h. if pl_initiator h \<noteq> even (pl_count h) \<or> pl_count h \<ge> 3
       then (Inl (Errorf ''noise: unexpected call to WriteMessage''), h)
       else (Inr (if pl_count h = 0 then [] else Public (pl_key h),
           if pl_count h = 2 then Some 0 else None, if pl_count h = 2 then Some 0 else None),
         h\<lparr>pl_count := pl_count h + 1\<rparr>)),
     ReadMessage = (\<lambda>m h. if pl_initiator h = even (pl_count h) \<or> pl_count h \<ge> 3
       then (Inl (Errorf ''noise: unexpected call to ReadMessage''), h)
       else (Inr ([], if pl_count h = 2 then Some 0 else None, if pl_count h = 2 then Some 0 else None),
         h\<lparr>pl_count := pl_count h + 1, pl_peer := m\<rparr>)),
     PeerStatic = pl_peer\<rparr>"

definition plain_sync :: "nat \<Rightarrow> DHKey \<Rightarrow> DHKey \<Rightarrow> plain_state \<Rightarrow> plain_state \<Rightarrow> bool" where
  "plain_sync k a b hi hr \<longleftrightarrow> length (Public a) = 32 \<and> length (Public b) = 32 \<and>
     hi = \<lparr>pl_initiator = True, pl_count = k, pl_key = a, pl_peer = (if k \<ge> 2 then Public b else [])\<rparr> \<and>
     hr = \<lparr>pl_initiator = False, pl_count = k, pl_key = b, pl_peer = (if k \<ge> 3 then Public a else [])\<rparr>"

definition key_of_32 :: "DHKey \<Rightarrow> bool" where
  "key_of_32 k \<longleftrightarrow> length (Public k) = 32"

interpretation plain: noise_xx counter_cipher counter_paired plain_xx plain_sync key_of_32 1000
proof
  fix a b hi hr
  show "\<exists>hi hr. NewHandshakeState plain_xx (handshake_config True a) = Inr hi \<and>
      NewHandshakeState plain_xx (handshake_config False b) = Inr hr \<and> plain_sync 0 a b hi hr"
    if "key_of_32 a" "key_of_32 b"
    using that by (simp add: plain_xx_def handshake_config_def plain_sync_def key_of_32_def)
  show "\<exists>m p hi' hr'. WriteMessage plain_xx hi = (Inr (m, None, None), hi') \<and>
      ReadMessage plain_xx m hr = (Inr (p, None, None), hr') \<and> frameable m \<and> plain_sync 1 a b hi' hr'"
    if "plain_sync 0 a b hi hr"
    using that by (simp add: plain_xx_def plain_sync_def frameable_def)
  show "\<exists>m p hi' hr'. WriteMessage plain_xx hr = (Inr (m, None, None), hr') \<and>
      ReadMessage plain_xx m hi = (Inr (p, None, None), hi') \<and> frameable m \<and> plain_sync 2 a b hi' hr'"
    if "plain_sync 1 a b hi hr"
    using that by (simp add: plain_xx_def plain_sync_def frameable_def)
  show "\<exists>m p hi' hr' c1 c2 d1 d2. WriteMessage plain_xx hi = (Inr (m, Some c1, Some c2), hi') \<and>
      ReadMessage plain_xx m hr = (Inr (p, Some d1, Some d2), hr') \<and> frameable m \<and>
      counter_paired 1000 c1 d1 \<and> counter_paired 1000 d2 c2 \<and> plain_sync 3 a b hi' hr'"
    if "plain_sync 2 a b hi hr"
    using that by (simp add: plain_xx_def plain_sync_def frameable_def counter_paired_def MaxNonce_def)
  show "PeerStatic plain_xx hi = Public b \<and> PeerStatic plain_xx hr = Public a" if "plain_sync 3 a b hi hr"
    using that by (simp add: plain_xx_def plain_sync_def)
  show "length (Public a) = 32" if "key_of_32 a" using that by (simp add: key_of_32_def)
qed

section \<open>What a finished handshake has done to the connection\<close>

lemma hs_Inr:
  "hs_conn m (c, h) = (Inr a, st) \<longleftrightarrow> (\<exists>c'. m c = (Inr a, c') \<and> st = (c', h))"
  "hs_noise f (c, h) = (Inr b, st) \<longleftrightarrow> (\<exists>h'. f h = (Inr b, h') \<and> st = (c, h'))"
  by (auto simp: hs_conn_def hs_noise_def split: prod.splits)

lemma writeFrame_Inr:
  assumes "writeFrame p c = (Inr u, d)" "room c = None"
  shows "d = c\<lparr>outb := outb c @ noise_frame p\<rparr>"
proof -
  have "frameable p" using assms(1) by (auto simp: writeFrame_def frameable_def maxFrameLength_def split: if_splits)
  from writeFrame_ok [OF this assms(2)] assms(1) show ?thesis by simp
qed

lemma run_handshake_eq: "run_handshake m h c = (r, d) \<longleftrightarrow> (\<exists>h'. m (c, h) = (r, (d, h')))"
  by (auto simp: run_handshake_def split: prod.splits)

lemma make_session_Inr:
  assumes "make_session N k t r (c, h) = (Inr s, st)"
  shows "session_conn s = c \<and> length (PeerStaticKey s) = 32 \<and> fst st = c"
  using assms by (auto simp: make_session_def Let_def split: if_splits)

lemma initiator_messages_wire:
  assumes run: "initiator_messages N k (c, h) = (Inr s, (d, h'))" and c: "room c = None"
  obtains m1 m2 m3 where "outb d = outb c @ noise_frame m1 @ noise_frame m3" "inb c = noise_frame m2 @ inb d"
    "session_conn s = d" "length (PeerStaticKey s) = 32"
proof -
  from run obtain m1 h1 c1 m2 c2 m3 x3 y3 h3 where 1: "writeFrame m1 c = (Inr (), c1)"
    and 2: "readFrame c1 = (Inr m2, c2)" and rest: "initiator_finish N k m3 x3 y3 (c2, h3) = (Inr s, (d, h'))"
    by (auto simp: initiator_messages_def io_bind_Inr hs_Inr)
  from rest obtain t r c3 where 3: "writeFrame m3 c2 = (Inr (), c3)" and 4: "make_session N k t r (c3, h3) = (Inr s, (d, h'))"
    by (auto simp: initiator_finish_def io_bind_Inr hs_Inr split: option.splits)
  note w1 = writeFrame_Inr [OF 1 c] and r2 = readFrame_inverse [OF 2]
  have "room c2 = None" using w1 r2 c by (metis conn.select_convs(3) conn.surjective conn.update_convs(1,2))
  note w3 = writeFrame_Inr [OF 3 this]
  have "outb c2 = outb c1" using r2 by (metis conn.select_convs(2) conn.surjective conn.update_convs(1))
  with w1 w3 r2 make_session_Inr [OF 4] show ?thesis by (intro that [of m1 m3 m2]) auto
qed

lemma InitiatorHandshake_wire:
  assumes "InitiatorHandshake N ctx k nb c = (Inr s, d)" "room c = None"
  obtains m1 m2 m3 where "outb d = outb c @ nb # noise_frame m1 @ noise_frame m3" "inb c = noise_frame m2 @ inb d"
    "session_conn s = d" "length (PeerStaticKey s) = 32"
proof -
  from assms obtain h h' where "initiator_messages N k (c\<lparr>outb := outb c @ [nb]\<rparr>, h) = (Inr s, (d, h'))"
    by (auto simp: InitiatorHandshake_def io_bind_Inr checkContext_def run_handshake_eq Write_unlimited
        split: option.splits if_splits)
  then show ?thesis using assms(2) by (auto elim!: initiator_messages_wire intro: that)
qed

section \<open>Properties\<close>

text \<open>
  C8. The handshake between the two sides of this package completes, on any network byte but the
  reserved one: there are three messages such that the initiator, receiving the second, writes the
  network byte and the frames of the first and the third, and the responder, receiving exactly
  these, writes the frame of the second. Each then has the other's static key and its own key pair,
  the initiator's sending cipher is paired with the responder's receiving cipher and the other
  way round, and whatever follows the handshake on the connection is left unread.
\<close>

theorem handshake_mutual:
  assumes "noise_xx K paired N sync keypair budget" "keypair a" "keypair b" "nb \<noteq> liveWireMode"
  shows "\<exists>to_responder to_initiator c1 c2 d1 d2. paired budget c1 d1 \<and> paired budget d2 c2 \<and>
    (\<forall>rest. InitiatorHandshake N None a nb \<lparr>inb = to_initiator @ rest, outb = [], room = None\<rparr> =
      (Inr \<lparr>session_conn = \<lparr>inb = rest, outb = nb # to_responder, room = None\<rparr>, tx = c1, rx = c2,
        PeerStaticKey = Public b, LocalStaticKeypair = a\<rparr>, \<lparr>inb = rest, outb = nb # to_responder, room = None\<rparr>)) \<and>
    (\<forall>rest. ResponderHandshake N None b \<lparr>inb = nb # to_responder @ rest, outb = [], room = None\<rparr> =
      (Inr \<lparr>session_conn = \<lparr>inb = rest, outb = to_initiator, room = None\<rparr>, tx = d2, rx = d1,
        PeerStaticKey = Public a, LocalStaticKeypair = b\<rparr>, \<lparr>inb = rest, outb = to_initiator, room = None\<rparr>))"
proof (rule noise_xx.handshake_completes [OF assms], goal_cases)
  case (1 m1 m2 m3 c1 c2 d1 d2)
  then show ?thesis
    by (intro exI [of _ "noise_frame m1 @ noise_frame m3"] exI [of _ "noise_frame m2"] exI [of _ c1] exI [of _ c2]
        exI [of _ d1] exI [of _ d2]) simp
qed

theorem handshake_mutual_witness:
  "\<exists>to_responder to_initiator c1 c2 d1 d2. counter_paired 1000 c1 d1 \<and> counter_paired 1000 d2 c2 \<and>
    (\<forall>rest. InitiatorHandshake plain_xx None \<lparr>Private = [], Public = replicate 32 1\<rparr> NetworkByteEsmeralda
      \<lparr>inb = to_initiator @ rest, outb = [], room = None\<rparr> =
      (Inr \<lparr>session_conn = \<lparr>inb = rest, outb = NetworkByteEsmeralda # to_responder, room = None\<rparr>, tx = c1, rx = c2,
        PeerStaticKey = Public \<lparr>Private = [], Public = replicate 32 2\<rparr>,
        LocalStaticKeypair = \<lparr>Private = [], Public = replicate 32 1\<rparr>\<rparr>,
       \<lparr>inb = rest, outb = NetworkByteEsmeralda # to_responder, room = None\<rparr>)) \<and>
    (\<forall>rest. ResponderHandshake plain_xx None \<lparr>Private = [], Public = replicate 32 2\<rparr>
      \<lparr>inb = NetworkByteEsmeralda # to_responder @ rest, outb = [], room = None\<rparr> =
      (Inr \<lparr>session_conn = \<lparr>inb = rest, outb = to_initiator, room = None\<rparr>, tx = d2, rx = d1,
        PeerStaticKey = Public \<lparr>Private = [], Public = replicate 32 1\<rparr>,
        LocalStaticKeypair = \<lparr>Private = [], Public = replicate 32 2\<rparr>\<rparr>,
       \<lparr>inb = rest, outb = to_initiator, room = None\<rparr>))"
  by (rule handshake_mutual [OF plain.noise_xx_axioms])
    (simp_all add: key_of_32_def NetworkByteEsmeralda_def liveWireMode_def)

text \<open>
  C24. What a handshake puts on the wire, whatever the peer does and whatever the library returns: if
  the initiator succeeds, it has written the network byte first and then exactly two frames, and
  has read exactly one; if the responder's peer announces the liveness mode, or the context is
  already done, the handshake ends with an error and nothing has been written.
\<close>

theorem handshake_wire:
  "\<not> (\<exists>c s d. room c = None \<and> InitiatorHandshake N ctx a nb c = (Inr s, d) \<and>
      \<not> (\<exists>m1 m2 m3. outb d = outb c @ nb # noise_frame m1 @ noise_frame m3 \<and> inb c = noise_frame m2 @ inb d \<and>
          session_conn s = d \<and> length (PeerStaticKey s) = 32)) \<and>
   (\<exists>e. ResponderHandshake N None b \<lparr>inb = liveWireMode # rest, outb = [], room = m\<rparr> =
      (Inl e, \<lparr>inb = rest, outb = [], room = m\<rparr>)) \<and>
   (\<exists>e. \<forall>c. InitiatorHandshake N (Some True) a nb c = (Inl e, c) \<and> ResponderHandshake N (Some True) b c = (Inl e, c))"
proof (intro conjI)
  show "\<not> (\<exists>c s d. room c = None \<and> InitiatorHandshake N ctx a nb c = (Inr s, d) \<and>
      \<not> (\<exists>m1 m2 m3. outb d = outb c @ nb # noise_frame m1 @ noise_frame m3 \<and> inb c = noise_frame m2 @ inb d \<and>
          session_conn s = d \<and> length (PeerStaticKey s) = 32))"
    by (meson InitiatorHandshake_wire)
  show "\<exists>e. ResponderHandshake N None b \<lparr>inb = liveWireMode # rest, outb = [], room = m\<rparr> =
      (Inl e, \<lparr>inb = rest, outb = [], room = m\<rparr>)"
    by (simp add: ResponderHandshake_def checkContext_def io_bind_def wrap_err_def ReadFull_def)
  show "\<exists>e. \<forall>c. InitiatorHandshake N (Some True) a nb c = (Inl e, c) \<and> ResponderHandshake N (Some True) b c = (Inl e, c)"
    by (simp add: InitiatorHandshake_def ResponderHandshake_def checkContext_def io_bind_def)
qed

end
