(* ===== verification/Identity_Exchange.thy ===== *)
theory Identity_Exchange
  imports Noise_Session Identity
begin

text \<open>
  The identity exchange of \<^verbatim>\<open>src/p2p/session.go\<close>: a sending and a receiving goroutine and the loop that
  selects over their two channels and the context. It is a step relation, so that every order of
  events is covered; what a goroutine does to the session is one step of it.
\<close>

section \<open>The exchange as a state machine\<close>

definition identityExchangeTimeout :: int where "identityExchangeTimeout = 10 * 1000000000"

text \<open>The context always has a deadline: its own, or one of ten seconds from \<open>now\<close>.\<close>

definition exchange_deadline :: "int \<Rightarrow> int option \<Rightarrow> int" where
  "exchange_deadline now deadline =
     (case deadline of Some d \<Rightarrow> d | None \<Rightarrow> now + identityExchangeTimeout)"

definition recv_goroutine :: "'k cipher_lib \<Rightarrow> identity_lib \<Rightarrow> ('k Session, PeerInfo) io" where
  "recv_goroutine K P =
     io_bind (wrap_err ''p2p: receiving peer identity message: %w'' (Session_ReceiveFrame K))
       (\<lambda>plaintext s. (decodeIdentityProtocolFrame P plaintext, s))"

record 'k exchange =
  ex_session :: "'k Session"
  send_running :: bool
  recv_running :: bool
  sendErrCh :: "(go_error + unit) option"
  recvCh :: "(go_error + PeerInfo) option"
  sendDone :: bool
  recvDone :: bool
  recvResult :: "PeerInfo option"
  ctx_done :: bool
  returned :: "(go_error + PeerInfo) option"

definition exchange_start :: "'k Session \<Rightarrow> 'k exchange" where
  "exchange_start s = \<lparr>ex_session = s, send_running = True, recv_running = True, sendErrCh = None,
     recvCh = None, sendDone = False, recvDone = False, recvResult = None, ctx_done = False, returned = None\<rparr>"

definition selecting :: "'k exchange \<Rightarrow> bool" where
  "selecting x \<longleftrightarrow> returned x = None \<and> (\<not> recvDone x \<or> \<not> sendDone x)"

definition send_case :: "go_error + unit \<Rightarrow> 'k exchange \<Rightarrow> 'k exchange" where
  "send_case sendErr x =
     (case sendErr of
        Inl e \<Rightarrow> x\<lparr>sendErrCh := None, sendDone := True,
          returned := Some (Inl (Wrap ''p2p: sending identity message: %w'' e))\<rparr>
      | Inr _ \<Rightarrow> x\<lparr>sendErrCh := None, sendDone := True\<rparr>)"

definition recv_case :: "go_error + PeerInfo \<Rightarrow> 'k exchange \<Rightarrow> 'k exchange" where
  "recv_case r x =
     (case r of
        Inl e \<Rightarrow> x\<lparr>recvCh := None, recvDone := True, returned := Some (Inl e)\<rparr>
      | Inr info \<Rightarrow> x\<lparr>recvCh := None, recvDone := True, recvResult := Some info\<rparr>)"

definition ctx_error :: go_error where
  "ctx_error = Wrap ''p2p: exchanging identity message: %w'' ContextError"

definition exchange_info :: "'k Session \<Rightarrow> PeerInfo \<Rightarrow> PeerInfo" where
  "exchange_info s info = info\<lparr>Reachable := True, RemoteStaticPubKey := PeerStaticKey s\<rparr>"

inductive exchange_step :: "'k cipher_lib \<Rightarrow> identity_lib \<Rightarrow> bytes \<Rightarrow> 'k exchange \<Rightarrow> 'k exchange \<Rightarrow> bool"
  for K P frame where
  send_finishes: "send_running x \<Longrightarrow> Session_SendFrame K frame (ex_session x) = (r, s) \<Longrightarrow>
    exchange_step K P frame x (x\<lparr>ex_session := s, send_running := False, sendErrCh := Some r\<rparr>)"
| recv_finishes: "recv_running x \<Longrightarrow> recv_goroutine K P (ex_session x) = (r, s) \<Longrightarrow>
    exchange_step K P frame x (x\<lparr>ex_session := s, recv_running := False, recvCh := Some r\<rparr>)"
| ctx_expires: "\<not> ctx_done x \<Longrightarrow> exchange_step K P frame x (x\<lparr>ctx_done := True\<rparr>)"
| select_ctx: "selecting x \<Longrightarrow> ctx_done x \<Longrightarrow>
    exchange_step K P frame x (x\<lparr>returned := Some (Inl ctx_error)\<rparr>)"
| select_send: "selecting x \<Longrightarrow> sendErrCh x = Some sendErr \<Longrightarrow> exchange_step K P frame x (send_case sendErr x)"
| select_recv: "selecting x \<Longrightarrow> recvCh x = Some r \<Longrightarrow> exchange_step K P frame x (recv_case r x)"
| loop_ends: "returned x = None \<Longrightarrow> recvDone x \<Longrightarrow> sendDone x \<Longrightarrow> recvResult x = Some info \<Longrightarrow>
    exchange_step K P frame x (x\<lparr>returned := Some (Inr (exchange_info (ex_session x) info))\<rparr>)"

text \<open>The whole call, from the session, the options and the randomness to what it returns and the
  session as it is then.\<close>

inductive ExchangeIdentityWithOptions ::
  "('sc, 'pt) ristretto_lib \<Rightarrow> (bytes \<Rightarrow> bytes) \<Rightarrow> 'k cipher_lib \<Rightarrow> identity_lib \<Rightarrow> u64 \<Rightarrow> IdentityOptions \<Rightarrow>
     conn \<Rightarrow> 'k Session \<Rightarrow> go_error + PeerInfo \<Rightarrow> 'k Session \<Rightarrow> bool"
  for R blake2b_512 K P now opts rnd s where
  build_fails: "ourPeerIdentityMsgBytes R blake2b_512 P now (LocalStaticKeypair s) (opt_Features opts)
      (opt_Addresses opts) rnd = (Inl e, rnd') \<Longrightarrow>
    ExchangeIdentityWithOptions R blake2b_512 K P now opts rnd s (Inl e) s"
| encode_fails: "ourPeerIdentityMsgBytes R blake2b_512 P now (LocalStaticKeypair s) (opt_Features opts)
      (opt_Addresses opts) rnd = (Inr b, rnd') \<Longrightarrow> encodeIdentityProtocolFrame b = Inl e \<Longrightarrow>
    ExchangeIdentityWithOptions R blake2b_512 K P now opts rnd s
      (Inl (Wrap ''p2p: encoding outgoing identity message: %w'' e)) s"
| exchanged: "ourPeerIdentityMsgBytes R blake2b_512 P now (LocalStaticKeypair s) (opt_Features opts)
      (opt_Addresses opts) rnd = (Inr b, rnd') \<Longrightarrow> encodeIdentityProtocolFrame b = Inr frame \<Longrightarrow>
    (exchange_step K P frame)\<^sup>*\<^sup>* (exchange_start s) x \<Longrightarrow> returned x = Some r \<Longrightarrow>
    ExchangeIdentityWithOptions R blake2b_512 K P now opts rnd s r (ex_session x)"

text \<open>The default: the features of a client, and no addresses.\<close>

definition default_options :: IdentityOptions where
  "default_options = \<lparr>opt_Features = 0, opt_Addresses = []\<rparr>"

definition ExchangeIdentity ::
  "('sc, 'pt) ristretto_lib \<Rightarrow> (bytes \<Rightarrow> bytes) \<Rightarrow> 'k cipher_lib \<Rightarrow> identity_lib \<Rightarrow> u64 \<Rightarrow>
     conn \<Rightarrow> 'k Session \<Rightarrow> go_error + PeerInfo \<Rightarrow> 'k Session \<Rightarrow> bool" where
  "ExchangeIdentity R blake2b_512 K P now =
     ExchangeIdentityWithOptions R blake2b_512 K P now default_options"

section \<open>The two directions of a session do not touch each other\<close>

lemma ReadFull_other_direction:
  "ReadFull n (c\<lparr>outb := w, room := m\<rparr>) = (case ReadFull n c of (r, d) \<Rightarrow> (r, d\<lparr>outb := w, room := m\<rparr>))"
  by (cases c) (simp add: ReadFull_def)

lemma readFrame_other_direction:
  "readFrame (c\<lparr>outb := w, room := m\<rparr>) = (case readFrame c of (r, d) \<Rightarrow> (r, d\<lparr>outb := w, room := m\<rparr>))"
  by (auto simp: readFrame_def io_bind_def wrap_err_def ReadFull_other_direction Let_def split: prod.split sum.split)

lemma Write_other_direction:
  "Write p (c\<lparr>inb := i\<rparr>) = (case Write p c of (r, d) \<Rightarrow> (r, d\<lparr>inb := i\<rparr>))"
  by (cases c) (simp add: Write_def split: option.split)

lemma writeFrame_other_direction:
  "writeFrame p (c\<lparr>inb := i\<rparr>) = (case writeFrame p c of (r, d) \<Rightarrow> (r, d\<lparr>inb := i\<rparr>))"
  by (auto simp: writeFrame_def io_bind_def wrap_err_def Write_other_direction split: prod.split sum.split)

definition send_part :: "'k Session \<Rightarrow> 'k \<times> bytes \<times> nat option" where
  "send_part s = (tx s, outb (session_conn s), room (session_conn s))"

definition recv_part :: "'k Session \<Rightarrow> 'k \<times> bytes" where
  "recv_part s = (rx s, inb (session_conn s))"

lemma readFrame_frame: "readFrame c = (r, d) \<Longrightarrow> outb d = outb c \<and> room d = room c"
  using readFrame_other_direction [where c = c and w = "outb c" and m = "room c"] by (cases d) auto

lemma writeFrame_frame: "writeFrame p c = (r, d) \<Longrightarrow> inb d = inb c"
  using writeFrame_other_direction [where p = p and c = c and i = "inb c"] by (cases d) auto

lemma SendFrame_frame:
  "Session_SendFrame K p s = (r, s') \<Longrightarrow> recv_part s' = recv_part s \<and> PeerStaticKey s' = PeerStaticKey s"
  by (auto simp: Session_SendFrame_def io_bind_def wrap_err_def on_tx_def on_conn_def recv_part_def
      split: prod.splits sum.splits dest!: writeFrame_frame)

lemma recv_frame:
  "recv_goroutine K P s = (r, s') \<Longrightarrow> send_part s' = send_part s \<and> PeerStaticKey s' = PeerStaticKey s"
  by (auto simp: recv_goroutine_def Session_ReceiveFrame_def io_bind_def wrap_err_def on_rx_def on_conn_def
      send_part_def split: prod.splits sum.splits dest!: readFrame_frame)

text \<open>What a goroutine finds depends on its own direction only, so it does not depend on whether the
  other one has run.\<close>

lemma SendFrame_local:
  assumes "send_part s = send_part s'"
  shows "fst (Session_SendFrame K p s) = fst (Session_SendFrame K p s')"
proof -
  have "session_conn s = (session_conn s')\<lparr>inb := inb (session_conn s)\<rparr>" "tx s = tx s'"
    using assms by (auto simp: send_part_def intro: conn.equality)
  then have w: "writeFrame c (session_conn s) =
      (case writeFrame c (session_conn s') of (r, d) \<Rightarrow> (r, d\<lparr>inb := inb (session_conn s)\<rparr>))" for c
    using writeFrame_other_direction by metis
  show ?thesis using \<open>tx s = tx s'\<close>
    by (simp add: Session_SendFrame_def io_bind_def wrap_err_def on_tx_def on_conn_def w split: prod.split sum.split)
qed

lemma recv_local:
  assumes "recv_part s = recv_part s'"
  shows "fst (recv_goroutine K P s) = fst (recv_goroutine K P s')"
proof -
  have "session_conn s = (session_conn s')\<lparr>outb := outb (session_conn s), room := room (session_conn s)\<rparr>"
    "rx s = rx s'"
    using assms by (auto simp: recv_part_def intro: conn.equality)
  then have w: "readFrame (session_conn s) = (case readFrame (session_conn s') of (r, d) \<Rightarrow>
      (r, d\<lparr>outb := outb (session_conn s), room := room (session_conn s)\<rparr>))"
    using readFrame_other_direction by metis
  show ?thesis using \<open>rx s = rx s'\<close>
    by (simp add: recv_goroutine_def Session_ReceiveFrame_def io_bind_def wrap_err_def on_rx_def on_conn_def w
        split: prod.split sum.split)
qed

section \<open>The invariant of the exchange\<close>

text \<open>
  The two outcomes are determined when the exchange starts: \<open>sent\<close> of the send and \<open>got\<close> of the
  receive. Each is with its goroutine, on its channel, or taken by the loop.
\<close>

definition outcome_of :: "go_error + unit \<Rightarrow> go_error + PeerInfo \<Rightarrow> bytes \<Rightarrow> bool \<Rightarrow> go_error + PeerInfo \<Rightarrow> bool" where
  "outcome_of sent got peer expired r \<longleftrightarrow>
     (case r of
        Inr info \<Rightarrow> sent = Inr () \<and> (\<exists>i. got = Inr i \<and> info = i\<lparr>Reachable := True, RemoteStaticPubKey := peer\<rparr>)
      | Inl e \<Rightarrow> expired \<and> e = ctx_error \<or>
          (\<exists>e'. sent = Inl e' \<and> e = Wrap ''p2p: sending identity message: %w'' e') \<or> got = Inl e)"

definition exchange_inv ::
  "'k cipher_lib \<Rightarrow> identity_lib \<Rightarrow> bytes \<Rightarrow> bytes \<Rightarrow> go_error + unit \<Rightarrow> go_error + PeerInfo \<Rightarrow> 'k exchange \<Rightarrow> bool" where
  "exchange_inv K P frame peer sent got x \<longleftrightarrow>
     PeerStaticKey (ex_session x) = peer \<and>
     (if send_running x then \<not> sendDone x \<and> sendErrCh x = None \<and> fst (Session_SendFrame K frame (ex_session x)) = sent
      else sendErrCh x = (if sendDone x then None else Some sent)) \<and>
     (if recv_running x then \<not> recvDone x \<and> recvCh x = None \<and> fst (recv_goroutine K P (ex_session x)) = got
      else recvCh x = (if recvDone x then None else Some got)) \<and>
     (case returned x of
        None \<Rightarrow> (sendDone x \<longrightarrow> sent = Inr ()) \<and> (recvDone x \<longrightarrow> (\<exists>i. recvResult x = Some i \<and> got = Inr i))
      | Some r \<Rightarrow> outcome_of sent got peer (ctx_done x) r)"

lemma exchange_inv_start:
  "exchange_inv K P frame (PeerStaticKey s) (fst (Session_SendFrame K frame s)) (fst (recv_goroutine K P s))
     (exchange_start s)"
  by (simp add: exchange_inv_def exchange_start_def)

lemma exchange_inv_step:
  assumes "exchange_step K P frame x y" "exchange_inv K P frame peer sent got x"
  shows "exchange_inv K P frame peer sent got y"
  using assms
proof (induction rule: exchange_step.induct)
  case (send_finishes x r s)
  note f = SendFrame_frame [OF send_finishes(2)]
  have "fst (recv_goroutine K P s) = fst (recv_goroutine K P (ex_session x))" using f recv_local by metis
  with send_finishes f show ?case by (auto simp: exchange_inv_def split: option.splits)
next
  case (recv_finishes x r s)
  note f = recv_frame [OF recv_finishes(2)]
  have "fst (Session_SendFrame K frame s) = fst (Session_SendFrame K frame (ex_session x))" using f SendFrame_local by metis
  with recv_finishes f show ?case by (auto simp: exchange_inv_def split: option.splits)
next
  case (ctx_expires x)
  then show ?case by (auto simp: exchange_inv_def outcome_of_def split: option.splits sum.splits)
next
  case (select_ctx x)
  then show ?case by (auto simp: exchange_inv_def selecting_def outcome_of_def)
next
  case (select_send x sendErr)
  then have "sent = sendErr" "\<not> send_running x" by (auto simp: exchange_inv_def split: if_splits)
  with select_send show ?case
    by (auto simp: exchange_inv_def selecting_def send_case_def outcome_of_def split: sum.splits)
next
  case (select_recv x r)
  then have "got = r" "\<not> recv_running x" by (auto simp: exchange_inv_def split: if_splits)
  with select_recv show ?case
    by (auto simp: exchange_inv_def selecting_def recv_case_def outcome_of_def split: sum.splits)
next
  case (loop_ends x info)
  then show ?case by (auto simp: exchange_inv_def outcome_of_def exchange_info_def)
qed

lemma exchange_inv_reachable:
  assumes "(exchange_step K P frame)\<^sup>*\<^sup>* (exchange_start s) x"
  shows "exchange_inv K P frame (PeerStaticKey s) (fst (Session_SendFrame K frame s))
    (fst (recv_goroutine K P s)) x"
  using assms by (induction rule: rtranclp_induct) (auto intro: exchange_inv_start exchange_inv_step)

section \<open>Every run is short and every state can still return\<close>

definition exchange_measure :: "'k exchange \<Rightarrow> nat" where
  "exchange_measure x =
     (if send_running x then 2 else 0) + (if sendErrCh x = None then 0 else 1) +
     (if recv_running x then 2 else 0) + (if recvCh x = None then 0 else 1) +
     (if ctx_done x then 0 else 1) + (if returned x = None then 1 else 0)"

lemma exchange_step_decreases: "exchange_step K P frame x y \<Longrightarrow> exchange_measure y < exchange_measure x"
  by (induction rule: exchange_step.induct)
    (simp_all add: exchange_measure_def send_case_def recv_case_def selecting_def split: sum.split)

interpretation exchange_runs: bounded_steps "exchange_step K P frame" exchange_measure for K P frame
  by unfold_locales (rule exchange_step_decreases)

lemma exchange_can_return:
  assumes "exchange_inv K P frame peer sent got x" "returned x = None"
  shows "\<exists>y. (exchange_step K P frame)\<^sup>*\<^sup>* x y \<and> returned y \<noteq> None \<and>
    send_running y = send_running x \<and> recv_running y = recv_running x"
proof (cases "selecting x")
  case True
  let ?x = "x\<lparr>ctx_done := True\<rparr>"
  have "(exchange_step K P frame)\<^sup>*\<^sup>* x ?x"
  proof (cases "ctx_done x")
    case True
    then have "?x = x" by (cases x) simp
    then show ?thesis by simp
  qed (blast intro: exchange_step.ctx_expires)
  moreover have "exchange_step K P frame ?x (?x\<lparr>returned := Some (Inl ctx_error)\<rparr>)"
    using True by (intro exchange_step.select_ctx) (simp_all add: selecting_def)
  ultimately have "(exchange_step K P frame)\<^sup>*\<^sup>* x (?x\<lparr>returned := Some (Inl ctx_error)\<rparr>)"
    by (rule rtranclp.rtrancl_into_rtrancl)
  then show ?thesis by (intro exI [of _ "?x\<lparr>returned := Some (Inl ctx_error)\<rparr>"] conjI) simp_all
next
  case False
  then have d: "recvDone x" "sendDone x" using assms(2) by (auto simp: selecting_def)
  then obtain i where "recvResult x = Some i" using assms by (auto simp: exchange_inv_def)
  from exchange_step.loop_ends [OF assms(2) d this, of K P frame] show ?thesis
    by (intro exI [of _ "x\<lparr>returned := Some (Inr (exchange_info (ex_session x) i))\<rparr>"]) auto
qed



section \<open>The exchange between two peers\<close>

lemma exchange_can_succeed:
  assumes "fst (Session_SendFrame K frame s) = Inr ()" "fst (recv_goroutine K P s) = Inr i"
  shows "\<exists>x. (exchange_step K P frame)\<^sup>*\<^sup>* (exchange_start s) x \<and> returned x = Some (Inr (exchange_info s i))"
proof -
  obtain s1 where s1: "Session_SendFrame K frame s = (Inr (), s1)" using assms(1) by (cases "Session_SendFrame K frame s") auto
  have "fst (recv_goroutine K P s1) = Inr i" using assms(2) SendFrame_frame [OF s1] recv_local by metis
  then obtain s2 where s2: "recv_goroutine K P s1 = (Inr i, s2)" by (cases "recv_goroutine K P s1") auto
  let ?x0 = "exchange_start s"
  let ?x1 = "?x0\<lparr>ex_session := s1, send_running := False, sendErrCh := Some (Inr ())\<rparr>"
  let ?x2 = "?x1\<lparr>ex_session := s2, recv_running := False, recvCh := Some (Inr i)\<rparr>"
  let ?x3 = "send_case (Inr ()) ?x2"
  let ?x4 = "recv_case (Inr i) ?x3"
  let ?x5 = "?x4\<lparr>returned := Some (Inr (exchange_info (ex_session ?x4) i))\<rparr>"
  have "exchange_step K P frame ?x0 ?x1" by (rule exchange_step.send_finishes) (simp_all add: exchange_start_def s1)
  moreover have "exchange_step K P frame ?x1 ?x2" by (rule exchange_step.recv_finishes) (simp_all add: exchange_start_def s2)
  moreover have "exchange_step K P frame ?x2 ?x3" by (rule exchange_step.select_send) (simp_all add: exchange_start_def selecting_def)
  moreover have "exchange_step K P frame ?x3 ?x4"
    by (rule exchange_step.select_recv) (simp_all add: exchange_start_def selecting_def send_case_def)
  moreover have "exchange_step K P frame ?x4 ?x5"
    by (rule exchange_step.loop_ends) (simp_all add: exchange_start_def send_case_def recv_case_def)
  ultimately have "(exchange_step K P frame)\<^sup>*\<^sup>* ?x0 ?x5" by (meson converse_rtranclp_into_rtranclp rtranclp.rtrancl_refl)
  moreover have "PeerStaticKey s2 = PeerStaticKey s" using SendFrame_frame [OF s1] recv_frame [OF s2] by simp
  ultimately show ?thesis
    by (intro exI [of _ ?x5]) (simp add: send_case_def recv_case_def exchange_start_def exchange_info_def)
qed

lemma exchange_outcome:
  assumes "(exchange_step K P frame)\<^sup>*\<^sup>* (exchange_start s) x" "returned x = Some r"
  shows "outcome_of (fst (Session_SendFrame K frame s)) (fst (recv_goroutine K P s)) (PeerStaticKey s) (ctx_done x) r"
  using exchange_inv_reachable [OF assms(1)] assms(2) by (simp add: exchange_inv_def)

text \<open>The peer's identity arrives, or the context ends.\<close>

lemma identity_exchange_ok:
  assumes R: "ristretto_group R" and P: "identity_codec P" and K: "noise_cipher K paired"
    and hash: "\<And>x. length (blake2b_512 x) = 64"
    and keys: "GenerateKeypair R st = (Inr (LocalStaticKeypair us), st')"
      "GenerateKeypair R su = (Inr (LocalStaticKeypair peer), su')"
    and rnd: "64 \<le> length (inb rnd)" "64 \<le> length (inb rnd_peer)"
    and addrs: "sum_list (map (\<lambda>a. 6 + length a) (opt_Addresses opts)) \<le> 800"
      "sum_list (map (\<lambda>a. 6 + length a) (opt_Addresses opts_peer)) \<le> 800"
    and crossed: "paired 1 (tx us) (rx peer)" "paired 1 (tx peer) (rx us)"
    and conns: "room (session_conn us) = None" "room (session_conn peer) = None"
    and sent: "ourPeerIdentityMsgBytes R blake2b_512 P now_peer (LocalStaticKeypair peer)
        (opt_Features opts_peer) (opt_Addresses opts_peer) rnd_peer = (Inr b, rnd_peer')"
      "encodeIdentityProtocolFrame b = Inr frame" "Session_SendFrame K frame peer = (q, peer')"
      "outb (session_conn peer') = outb (session_conn peer) @ inb (session_conn us)"
  shows "\<exists>info. Reachable info \<and> RemoteStaticPubKey info = PeerStaticKey us \<and>
    Features info = opt_Features opts_peer \<and> Addresses info = opt_Addresses opts_peer \<and>
    VerifyIdentitySignature R blake2b_512 (Public (LocalStaticKeypair peer)) (Features info)
      (Addresses info) (info_IdentitySignature info) = Inr True \<and>
    (\<forall>r us'. ExchangeIdentityWithOptions R blake2b_512 K P now opts rnd us r us' \<longrightarrow> r = Inr info \<or> r = Inl ctx_error) \<and>
    (\<exists>us'. ExchangeIdentityWithOptions R blake2b_512 K P now opts rnd us (Inr info) us')"
proof -
  note ok = our_identity_ok [where ?blake2b_512.0 = blake2b_512, OF R P hash]
  obtain b0 r0 frame0 where us: "ourPeerIdentityMsgBytes R blake2b_512 P now (LocalStaticKeypair us)
      (opt_Features opts) (opt_Addresses opts) rnd = (Inr b0, r0)" "encodeIdentityProtocolFrame b0 = Inr frame0"
    "length frame0 \<le> 1027"
    using ok [OF keys(1) rnd(1) addrs(1)] by blast
  obtain i where peer: "decodeIdentityProtocolFrame P frame = Inr i" "length frame \<le> 1027"
    "Features i = opt_Features opts_peer" "Addresses i = opt_Addresses opts_peer"
    "VerifyIdentitySignature R blake2b_512 (Public (LocalStaticKeypair peer)) (Features i) (Addresses i)
      (info_IdentitySignature i) = Inr True"
    using ok [OF keys(2) rnd(2) addrs(2), where now = now_peer and features = "opt_Features opts_peer" and rest = "[]"]
      sent(1,2) by auto
  have fits: "fits_frame frame0" "fits_frame frame" using us(3) peer(2) by (simp_all add: fits_frame_def maxFrameLength_def)
  have one: "paired (Suc 0) (tx us) (rx peer)" "paired (Suc 0) (tx peer) (rx us)" using crossed by simp_all
  have send: "fst (Session_SendFrame K frame0 us) = Inr ()"
    by (rule noise_cipher.Session_SendFrame_ok [OF K one(1) fits(1) conns(1)]) simp
  have inc: "incoming K paired [frame] us"
  proof (rule noise_cipher.Session_SendFrame_ok [OF K one(2) fits(2) conns(2)])
    fix c t' r'
    assume c: "Encrypt K frame (tx peer) = (Inr c, t')"
      and "Session_SendFrame K frame peer = (Inr (), peer\<lparr>tx := t',
        session_conn := (session_conn peer)\<lparr>outb := outb (session_conn peer) @ noise_frame c\<rparr>\<rparr>)"
    then have "inb (session_conn us) = noise_frame c" using sent(3,4) by simp
    then show ?thesis unfolding incoming_def
      using one(2) fits(2) c by (intro exI [of _ "tx peer"]) simp
  qed
  have recv: "fst (recv_goroutine K P us) = Inr i"
    by (rule noise_cipher.incoming_Cons [OF K inc]) (simp add: recv_goroutine_def io_bind_def wrap_err_def peer(1))
  let ?info = "exchange_info us i"
  have "r = Inr ?info \<or> r = Inl ctx_error"
    if "ExchangeIdentityWithOptions R blake2b_512 K P now opts rnd us r us'" for r us'
    using that
  proof cases
    case (exchanged b' rnd' frame' x)
    then have "frame' = frame0" using us by simp
    with exchange_outcome [OF exchanged(4,5)] send recv show ?thesis
      by (auto simp: outcome_of_def exchange_info_def split: sum.splits)
  qed (use us in auto)
  moreover obtain x where "(exchange_step K P frame0)\<^sup>*\<^sup>* (exchange_start us) x" "returned x = Some (Inr ?info)"
    using exchange_can_succeed [OF send recv] by blast
  then have "ExchangeIdentityWithOptions R blake2b_512 K P now opts rnd us (Inr ?info) (ex_session x)"
    using us by (intro ExchangeIdentityWithOptions.exchanged)
  moreover have "Reachable ?info" "RemoteStaticPubKey ?info = PeerStaticKey us" "Features ?info = opt_Features opts_peer"
    "Addresses ?info = opt_Addresses opts_peer" "Features ?info = Features i" "Addresses ?info = Addresses i"
    "info_IdentitySignature ?info = info_IdentitySignature i"
    using peer(3,4) by (simp_all add: exchange_info_def)
  ultimately show ?thesis using peer(5) by metis
qed

text \<open>
  C9. The exchange gives each side the other's identity. A peer with a key pair of this package
  sends its identity message over its end of a session whose ciphers are paired with ours. Then a
  call of ours returns nothing but the peer's identity, reachable and under the static key of the
  handshake, with exactly the features and addresses the peer advertised and a signature that
  verifies for them under the peer's key, or the error of the context; and the former can happen.
\<close>

theorem identity_exchange_correct:
  assumes R: "ristretto_group R" and P: "identity_codec P" and K: "noise_cipher K paired"
    and hash: "\<And>x. length (blake2b_512 x) = 64"
    and keys: "GenerateKeypair R st = (Inr (LocalStaticKeypair us), st')"
      "GenerateKeypair R su = (Inr (LocalStaticKeypair peer), su')"
    and rnd: "64 \<le> length (inb rnd)" "64 \<le> length (inb rnd_peer)"
    and addrs: "sum_list (map (\<lambda>a. 6 + length a) (opt_Addresses opts)) \<le> 800"
      "sum_list (map (\<lambda>a. 6 + length a) (opt_Addresses opts_peer)) \<le> 800"
    and crossed: "paired 1 (tx us) (rx peer)" "paired 1 (tx peer) (rx us)"
    and conns: "room (session_conn us) = None" "room (session_conn peer) = None"
    and sent: "ourPeerIdentityMsgBytes R blake2b_512 P now_peer (LocalStaticKeypair peer)
        (opt_Features opts_peer) (opt_Addresses opts_peer) rnd_peer = (Inr b, rnd_peer')"
      "encodeIdentityProtocolFrame b = Inr frame" "Session_SendFrame K frame peer = (q, peer')"
      "outb (session_conn peer') = outb (session_conn peer) @ inb (session_conn us)"
  shows "\<exists>info. Reachable info \<and> RemoteStaticPubKey info = PeerStaticKey us \<and>
    Features info = opt_Features opts_peer \<and> Addresses info = opt_Addresses opts_peer \<and>
    VerifyIdentitySignature R blake2b_512 (Public (LocalStaticKeypair peer)) (Features info)
      (Addresses info) (info_IdentitySignature info) = Inr True \<and>
    (\<forall>r us'. ExchangeIdentityWithOptions R blake2b_512 K P now opts rnd us r us' \<longrightarrow> r = Inr info \<or> r = Inl ctx_error) \<and>
    (\<exists>us'. ExchangeIdentityWithOptions R blake2b_512 K P now opts rnd us (Inr info) us')"
  using identity_exchange_ok [where ?blake2b_512.0 = blake2b_512, OF R P K hash keys rnd addrs crossed conns sent] .

definition sample_session :: "DHKey \<Rightarrow> DHKey \<Rightarrow> bytes \<Rightarrow> nat Session" where
  "sample_session ours theirs arriving = \<lparr>session_conn = reader_of arriving, tx = 0, rx = 0,
     PeerStaticKey = Public theirs, LocalStaticKeypair = ours\<rparr>"

definition sample_options :: IdentityOptions where
  "sample_options = \<lparr>opt_Features = FeaturesCommunicationNode, opt_Addresses = [[4, 127, 0, 0, 1]]\<rparr>"

theorem identity_exchange_correct_witness:
  "\<exists>ours theirs arriving info. Reachable info \<and> RemoteStaticPubKey info = Public theirs \<and>
    Features info = FeaturesCommunicationNode \<and> Addresses info = [[4, 127, 0, 0, 1]] \<and>
    VerifyIdentitySignature residue_lib (\<lambda>x. replicate 64 0) (Public theirs) (Features info)
      (Addresses info) (info_IdentitySignature info) = Inr True \<and>
    (\<exists>us'. ExchangeIdentityWithOptions residue_lib (\<lambda>x. replicate 64 0) counter_cipher identity_proto3 1700000000
       sample_options (reader_of (replicate 64 5)) (sample_session ours theirs arriving) (Inr info) us')"
proof -
  let ?hash = "\<lambda>x :: bytes. replicate 64 (0 :: u8)"
  have gen: "\<exists>k st. GenerateKeypair residue_lib (None, reader_of (replicate 64 x)) = (Inr k, st)" for x
    using residues.keypair_from_ok [of "reader_of (replicate 64 x)"]
    by (auto simp: reader_of_def GenerateKeypair_def)
  obtain ours st where k1: "GenerateKeypair residue_lib (None, reader_of (replicate 64 1)) = (Inr ours, st)"
    using gen [of 1] by blast
  obtain theirs su where k2: "GenerateKeypair residue_lib (None, reader_of (replicate 64 2)) = (Inr theirs, su)"
    using gen [of 2] by blast
  have len: "length (?hash x) = 64" for x by simp
  have rnd: "64 \<le> length (inb (reader_of (replicate 64 x)))" for x by (simp add: reader_of_def)
  have addrs: "sum_list (map (\<lambda>a. 6 + length a) (opt_Addresses sample_options)) \<le> 800"
    by (simp add: sample_options_def)
  let ?peer = "sample_session theirs ours []"
  obtain b r frame where sent: "ourPeerIdentityMsgBytes residue_lib ?hash identity_proto3 5 theirs
      (opt_Features sample_options) (opt_Addresses sample_options) (reader_of (replicate 64 6)) = (Inr b, r)"
    "encodeIdentityProtocolFrame b = Inr frame"
    using our_identity_ok [where ?blake2b_512.0 = ?hash, OF residues.ristretto_group_axioms
        identity_proto3.identity_codec_axioms len k2 rnd addrs] by blast
  obtain q peer' where p: "Session_SendFrame counter_cipher frame ?peer = (q, peer')" by fastforce
  let ?us = "sample_session ours theirs (outb (session_conn peer'))"
  have pair: "counter_paired 1 0 0" by (simp add: counter_paired_def MaxNonce_def)
  have sess: "LocalStaticKeypair ?us = ours" "LocalStaticKeypair ?peer = theirs" "room (session_conn ?us) = None"
    "room (session_conn ?peer) = None" "tx ?us = 0" "rx ?us = 0" "tx ?peer = 0"
    "rx ?peer = 0" "PeerStaticKey ?us = Public theirs"
    by (simp_all add: sample_session_def reader_of_def)
  have arr: "outb (session_conn peer') = outb (session_conn ?peer) @ inb (session_conn ?us)"
    by (simp add: sample_session_def reader_of_def)
  from identity_exchange_correct [where ?blake2b_512.0 = ?hash and us = ?us and peer = ?peer and
      opts = sample_options and opts_peer = sample_options and now = 1700000000, unfolded sess,
      OF residues.ristretto_group_axioms identity_proto3.identity_codec_axioms counters.noise_cipher_axioms
      len k1 k2 rnd rnd addrs addrs pair pair refl refl sent p arr]
  show ?thesis by (simp add: sample_options_def) blast
qed

end
