(* ===== verification/Probe.thy ===== *)
theory Probe
  imports Dialing Handshake Identity_Exchange Rpc_Properties
begin

text \<open>
  The three probes of \<^verbatim>\<open>src/p2p/probe.go\<close>, \<^verbatim>\<open>chainmetadata_probe.go\<close> and \<^verbatim>\<open>getpeers_probe.go\<close>: a fresh key
  pair, dialling, the handshake and the identity exchange, and for the RPC probes a substream of the
  multiplexer. They are relations, because the identity exchange is one. The multiplexer is a
  parameter; deadlines and the closing of connections on return are not modelled.
\<close>

section \<open>The environment of a probe\<close>

text \<open>The libraries, the network, the clock and \<^verbatim>\<open>rand.Reader\<close>.\<close>

record ('sc, 'pt, 'h, 'k) probe_env =
  env_ristretto :: "('sc, 'pt) ristretto_lib"
  env_blake2b_512 :: "bytes \<Rightarrow> bytes"
  env_noise :: "('h, 'k) noise_lib"
  env_cipher :: "'k cipher_lib"
  env_identity :: identity_lib
  env_net :: "conn network"
  env_now :: u64
  env_rand :: conn

text \<open>\<open>ctx\<close> says whether the context was done when the handshake began, \<open>ctx_first\<close> whether it was
  before a dial through a proxy had an answer.\<close>

inductive establish ::
  "('sc, 'pt, 'h, 'k) probe_env \<Rightarrow> bool \<Rightarrow> bool \<Rightarrow> string \<Rightarrow> string \<Rightarrow> ProbeOptions \<Rightarrow>
     go_error + ('k Session \<times> PeerInfo) \<Rightarrow> bool"
  for E ctx ctx_first keypair_msg addr opts where
  keypair_fails: "GenerateRistrettoKeypair (env_ristretto E) (env_rand E) = (Inl e, rnd) \<Longrightarrow>
    establish E ctx ctx_first keypair_msg addr opts (Inl (Wrap keypair_msg e))"
| dial_fails: "GenerateRistrettoKeypair (env_ristretto E) (env_rand E) = (Inr staticKeypair, rnd) \<Longrightarrow>
    dialForProbe (env_net E) ctx_first addr opts = Inl e \<Longrightarrow>
    establish E ctx ctx_first keypair_msg addr opts (Inl (Wrap ''p2p: dialing %s: %w'' e))"
| handshake_fails: "GenerateRistrettoKeypair (env_ristretto E) (env_rand E) = (Inr staticKeypair, rnd) \<Longrightarrow>
    dialForProbe (env_net E) ctx_first addr opts = Inr conn \<Longrightarrow>
    InitiatorHandshake (env_noise E) (Some ctx) staticKeypair (NetworkByte opts) conn = (Inl e, conn') \<Longrightarrow>
    establish E ctx ctx_first keypair_msg addr opts (Inl (Wrap ''p2p: performing Noise_XX handshake with %s: %w'' e))"
| exchange_fails: "GenerateRistrettoKeypair (env_ristretto E) (env_rand E) = (Inr staticKeypair, rnd) \<Longrightarrow>
    dialForProbe (env_net E) ctx_first addr opts = Inr conn \<Longrightarrow>
    InitiatorHandshake (env_noise E) (Some ctx) staticKeypair (NetworkByte opts) conn = (Inr sess, conn') \<Longrightarrow>
    ExchangeIdentity (env_ristretto E) (env_blake2b_512 E) (env_cipher E) (env_identity E) (env_now E) rnd sess (Inl e) sess' \<Longrightarrow>
    establish E ctx ctx_first keypair_msg addr opts (Inl (Wrap ''p2p: exchanging identity with %s: %w'' e))"
| established: "GenerateRistrettoKeypair (env_ristretto E) (env_rand E) = (Inr staticKeypair, rnd) \<Longrightarrow>
    dialForProbe (env_net E) ctx_first addr opts = Inr conn \<Longrightarrow>
    InitiatorHandshake (env_noise E) (Some ctx) staticKeypair (NetworkByte opts) conn = (Inr sess, conn') \<Longrightarrow>
    ExchangeIdentity (env_ristretto E) (env_blake2b_512 E) (env_cipher E) (env_identity E) (env_now E) rnd sess (Inr info) sess' \<Longrightarrow>
    establish E ctx ctx_first keypair_msg addr opts (Inr (sess', info))"

section \<open>The probes\<close>

text \<open>\<open>elapsed\<close> is the time since the start.\<close>

definition probe_result :: "int \<Rightarrow> go_error + ('k Session \<times> PeerInfo) \<Rightarrow> go_error + PeerInfo" where
  "probe_result elapsed q = (case q of Inl e \<Rightarrow> Inl e | Inr (sess, info) \<Rightarrow> Inr (info\<lparr>Latency := elapsed\<rparr>))"

definition ProbeWithOptions ::
  "('sc, 'pt, 'h, 'k) probe_env \<Rightarrow> bool \<Rightarrow> bool \<Rightarrow> int \<Rightarrow> string \<Rightarrow> ProbeOptions \<Rightarrow> go_error + PeerInfo \<Rightarrow> bool" where
  "ProbeWithOptions E ctx ctx_first elapsed addr opts r \<longleftrightarrow>
     (\<exists>q. establish E ctx ctx_first ''p2p: generating ephemeral static keypair for probe: %w'' addr opts q \<and>
       r = probe_result elapsed q)"

definition zero_options :: ProbeOptions where
  "zero_options = \<lparr>SocksProxyAddr = [], NetworkByte = 0\<rparr>"

definition Probe ::
  "('sc, 'pt, 'h, 'k) probe_env \<Rightarrow> bool \<Rightarrow> bool \<Rightarrow> int \<Rightarrow> string \<Rightarrow> go_error + PeerInfo \<Rightarrow> bool" where
  "Probe E ctx ctx_first elapsed addr = ProbeWithOptions E ctx ctx_first elapsed addr zero_options"

text \<open>The multiplexer: a client session over the adapter, and a substream of it as a byte stream.\<close>

record ('k, 'y) yamux_lib =
  yamux_Client :: "'k sessionReadWriteCloser \<Rightarrow> go_error + 'y"
  yamux_Open :: "'y \<Rightarrow> go_error + conn"

definition open_substream :: "('k, 'y) yamux_lib \<Rightarrow> 'k Session \<Rightarrow> go_error + streamTransport" where
  "open_substream Y sess =
     (case yamux_Client Y (newSessionReadWriteCloser sess) of
        Inl e \<Rightarrow> Inl (Wrap ''p2p: establishing Yamux client session with %s: %w'' e)
      | Inr yamuxSession \<Rightarrow>
          (case yamux_Open Y yamuxSession of
             Inl e \<Rightarrow> Inl (Wrap ''p2p: opening Yamux substream to %s: %w'' e)
           | Inr substream \<Rightarrow> Inr (NewStreamTransport substream)))"

text \<open>A call on a substream of an established session; \<open>ctx_late\<close> says whether the context is done when
  the call begins.\<close>

definition rpc_result ::
  "('k, 'y) yamux_lib \<Rightarrow> string \<Rightarrow> (streamTransport, 'a) io \<Rightarrow> go_error + ('k Session \<times> PeerInfo) \<Rightarrow> go_error + 'a" where
  "rpc_result Y msg call q =
     (case q of
        Inl e \<Rightarrow> Inl e
      | Inr (sess, _) \<Rightarrow>
          (case open_substream Y sess of
             Inl e \<Rightarrow> Inl e
           | Inr transport \<Rightarrow>
               (case fst (call transport) of
                  Inl e \<Rightarrow> Inl (Wrap msg e)
                | Inr a \<Rightarrow> Inr a)))"

record ChainMetadataInfo =
  info_BestBlockHeight :: u64
  info_BestBlockHash :: bytes
  info_AccumulatedDifficultyLow :: bytes
  info_AccumulatedDifficultyHigh :: bytes
  info_PrunedHeight :: u64
  info_Timestamp :: u64
  info_Latency :: int

definition ChainMetadataInfo_of :: "int \<Rightarrow> ChainMetadata \<Rightarrow> ChainMetadataInfo" where
  "ChainMetadataInfo_of elapsed metadata =
     \<lparr>info_BestBlockHeight = BestBlockHeight metadata, info_BestBlockHash = BestBlockHash metadata,
      info_AccumulatedDifficultyLow = AccumulatedDifficultyLow metadata,
      info_AccumulatedDifficultyHigh = AccumulatedDifficultyHigh metadata,
      info_PrunedHeight = PrunedHeight metadata, info_Timestamp = Timestamp metadata, info_Latency = elapsed\<rparr>"

definition ProbeChainMetadataWithOptions ::
  "proto_lib \<Rightarrow> ('k, 'y) yamux_lib \<Rightarrow> ('sc, 'pt, 'h, 'k) probe_env \<Rightarrow> bool \<Rightarrow> bool \<Rightarrow> bool \<Rightarrow> int \<Rightarrow> string \<Rightarrow>
     ProbeOptions \<Rightarrow> go_error + ChainMetadataInfo \<Rightarrow> bool" where
  "ProbeChainMetadataWithOptions P Y E ctx ctx_first ctx_late elapsed addr opts r \<longleftrightarrow>
     (\<exists>q. establish E ctx ctx_first ''p2p: generating ephemeral static keypair for chain metadata probe: %w'' addr opts q \<and>
       r = map_sum id (ChainMetadataInfo_of elapsed)
         (rpc_result Y ''p2p: getting chain metadata from %s: %w'' (GetChainMetadata P ctx_late stream_transport) q))"

definition ProbeChainMetadata ::
  "proto_lib \<Rightarrow> ('k, 'y) yamux_lib \<Rightarrow> ('sc, 'pt, 'h, 'k) probe_env \<Rightarrow> bool \<Rightarrow> bool \<Rightarrow> bool \<Rightarrow> int \<Rightarrow> string \<Rightarrow>
     go_error + ChainMetadataInfo \<Rightarrow> bool" where
  "ProbeChainMetadata P Y E ctx ctx_first ctx_late elapsed addr =
     ProbeChainMetadataWithOptions P Y E ctx ctx_first ctx_late elapsed addr zero_options"

definition DefaultGetPeersRequest :: GetPeersRequest where
  "DefaultGetPeersRequest = \<lparr>gp_N = 50, gp_IncludeClients = False, gp_MaxClaims = 10, gp_MaxAddressesPerClaim = 10\<rparr>"

definition ProbeGetPeersWithOptions ::
  "proto_lib \<Rightarrow> ('k, 'y) yamux_lib \<Rightarrow> ('sc, 'pt, 'h, 'k) probe_env \<Rightarrow> bool \<Rightarrow> bool \<Rightarrow> bool \<Rightarrow> string \<Rightarrow>
     GetPeersRequest \<Rightarrow> ProbeOptions \<Rightarrow> go_error + pb_PeerInfo list \<Rightarrow> bool" where
  "ProbeGetPeersWithOptions P Y E ctx ctx_first ctx_late addr req opts r \<longleftrightarrow>
     (\<exists>q. establish E ctx ctx_first ''p2p: generating ephemeral static keypair for get_peers probe: %w'' addr opts q \<and>
       r = rpc_result Y ''p2p: getting peers from %s: %w'' (GetPeers P ctx_late stream_transport req) q)"

definition ProbeGetPeers ::
  "proto_lib \<Rightarrow> ('k, 'y) yamux_lib \<Rightarrow> ('sc, 'pt, 'h, 'k) probe_env \<Rightarrow> bool \<Rightarrow> bool \<Rightarrow> bool \<Rightarrow> string \<Rightarrow>
     GetPeersRequest \<Rightarrow> go_error + pb_PeerInfo list \<Rightarrow> bool" where
  "ProbeGetPeers P Y E ctx ctx_first ctx_late addr req =
     ProbeGetPeersWithOptions P Y E ctx ctx_first ctx_late addr req zero_options"

inductive_cases establish_Inr: "establish E ctx ctx_first msg addr opts (Inr q)"

text \<open>The message for a failed key pair aside, the three probes establish the same sessions.\<close>

lemma establish_other_message:
  assumes "GenerateRistrettoKeypair (env_ristretto E) (env_rand E) = (Inr k, rnd)"
    and "establish E ctx ctx_first msg addr opts q"
  shows "establish E ctx ctx_first msg' addr opts q"
  using assms(2)
proof cases
  case (keypair_fails e rnd)
  with assms(1) show ?thesis by simp
qed (auto intro: establish.intros)

section \<open>A probe against a responder\<close>

lemma InitiatorHandshake_live_context: "InitiatorHandshake N (Some False) k nb = InitiatorHandshake N None k nb"
  by (rule ext) (simp add: InitiatorHandshake_def checkContext_def)

text \<open>What a probe finds once the handshake is known to succeed.\<close>

lemma ProbeWithOptions_established:
  assumes k: "GenerateRistrettoKeypair (env_ristretto E) (env_rand E) = (Inr k, rnd)"
    and d: "dialForProbe (env_net E) ctx_first addr opts = Inr c"
    and h: "InitiatorHandshake (env_noise E) (Some ctx) k (NetworkByte opts) c = (Inr us, c')"
  shows "ProbeWithOptions E ctx ctx_first elapsed addr opts r \<longleftrightarrow>
    (\<exists>q us'. ExchangeIdentity (env_ristretto E) (env_blake2b_512 E) (env_cipher E) (env_identity E) (env_now E) rnd us q us' \<and>
      r = (case q of Inl e \<Rightarrow> Inl (Wrap ''p2p: exchanging identity with %s: %w'' e)
                   | Inr info \<Rightarrow> Inr (info\<lparr>Latency := elapsed\<rparr>)))"
    (is "?probe = ?exchange")
proof
  assume ?probe
  then obtain q where q: "establish E ctx ctx_first ''p2p: generating ephemeral static keypair for probe: %w'' addr opts q"
    and r: "r = probe_result elapsed q" by (auto simp: ProbeWithOptions_def)
  from q k d h have "\<exists>x us'. ExchangeIdentity (env_ristretto E) (env_blake2b_512 E) (env_cipher E) (env_identity E)
      (env_now E) rnd us x us' \<and> q = (case x of Inl e \<Rightarrow> Inl (Wrap ''p2p: exchanging identity with %s: %w'' e)
        | Inr info \<Rightarrow> Inr (us', info))"
  proof cases
    case (exchange_fails staticKeypair rnd2 conn s conn' e s')
    with k d h show ?thesis by (intro exI [of _ "Inl e"] exI [of _ s']) simp
  next
    case (established staticKeypair rnd2 conn s conn' info s')
    with k d h show ?thesis by (intro exI [of _ "Inr info"] exI [of _ s']) simp
  qed auto
  with r show ?exchange by (fastforce simp: probe_result_def split: sum.splits)
next
  assume ?exchange
  then obtain q us' where q: "ExchangeIdentity (env_ristretto E) (env_blake2b_512 E) (env_cipher E) (env_identity E)
      (env_now E) rnd us q us'"
    and r: "r = (case q of Inl e \<Rightarrow> Inl (Wrap ''p2p: exchanging identity with %s: %w'' e)
                   | Inr info \<Rightarrow> Inr (info\<lparr>Latency := elapsed\<rparr>))" by blast
  show ?probe
  proof (cases q)
    case (Inl e)
    from establish.exchange_fails [OF k d h] q Inl
    have "establish E ctx ctx_first ''p2p: generating ephemeral static keypair for probe: %w'' addr opts
      (Inl (Wrap ''p2p: exchanging identity with %s: %w'' e))" by blast
    moreover have "r = probe_result elapsed (Inl (Wrap ''p2p: exchanging identity with %s: %w'' e) :: _ + (_ Session \<times> _))"
      using r Inl by (simp add: probe_result_def)
    ultimately show ?thesis unfolding ProbeWithOptions_def by blast
  next
    case (Inr info)
    from establish.established [OF k d h] q Inr
    have "establish E ctx ctx_first ''p2p: generating ephemeral static keypair for probe: %w'' addr opts (Inr (us', info))"
      by blast
    moreover have "r = probe_result elapsed (Inr (us', info))" using r Inr by (simp add: probe_result_def)
    ultimately show ?thesis unfolding ProbeWithOptions_def by blast
  qed
qed

text \<open>The sessions of the two sides after a handshake on fresh connections: what is still to come in,
  what has been written, the two ciphers and the keys.\<close>

definition fresh_session :: "bytes \<Rightarrow> bytes \<Rightarrow> 'k \<Rightarrow> 'k \<Rightarrow> bytes \<Rightarrow> DHKey \<Rightarrow> 'k Session" where
  "fresh_session rest written t r peer k = \<lparr>session_conn = \<lparr>inb = rest, outb = written, room = None\<rparr>,
     tx = t, rx = r, PeerStaticKey = peer, LocalStaticKeypair = k\<rparr>"

lemma fresh_session_sel [simp]:
  "session_conn (fresh_session rest written t r peer k) = \<lparr>inb = rest, outb = written, room = None\<rparr>"
  "tx (fresh_session rest written t r peer k) = t" "rx (fresh_session rest written t r peer k) = r"
  "PeerStaticKey (fresh_session rest written t r peer k) = peer"
  "LocalStaticKeypair (fresh_session rest written t r peer k) = k"
  by (simp_all add: fresh_session_def)

context noise_xx
begin

lemma handshake_then_frame:
  assumes "keypair a" "keypair b" "nb \<noteq> liveWireMode" "0 < budget" "fits_frame frame"
  obtains to_responder m2 w c1 c2 d1 d2 t' where "paired 1 c1 d1" "paired 1 d2 c2"
    "\<And>rest. InitiatorHandshake N None a nb \<lparr>inb = m2 @ rest, outb = [], room = None\<rparr> =
      (Inr (fresh_session rest (nb # to_responder) c1 c2 (Public b) a), \<lparr>inb = rest, outb = nb # to_responder, room = None\<rparr>)"
    "\<And>rest. ResponderHandshake N None b \<lparr>inb = nb # to_responder @ rest, outb = [], room = None\<rparr> =
      (Inr (fresh_session rest m2 d2 d1 (Public a) b), \<lparr>inb = rest, outb = m2, room = None\<rparr>)"
    "\<And>rest. Session_SendFrame K frame (fresh_session rest m2 d2 d1 (Public a) b) =
      (Inr (), fresh_session rest (m2 @ w) t' d1 (Public a) b)"
proof (rule handshake_completes [OF assms(1-3)], goal_cases)
  case (1 m1 m2 m3 c1 c2 d1 d2)
  have one: "paired 1 c1 d1" "paired 1 d2 c2" "paired (Suc 0) d2 c2"
    using paired_mono 1(2,3) assms(4) by auto
  obtain c t' where c: "Encrypt K frame d2 = (Inr c, t')" using encrypt_decrypt [OF one(3)] by blast
  have "Session_SendFrame K frame (fresh_session rest (noise_frame m2) d2 d1 (Public a) b) =
      (Inr (), fresh_session rest (noise_frame m2 @ noise_frame c) t' d1 (Public a) b)" for rest
    by (rule Session_SendFrame_ok [of 0 "fresh_session rest (noise_frame m2) d2 d1 (Public a) b" c2 frame])
      (use one(3) assms(5) c in \<open>auto simp: fresh_session_def\<close>)
  with one 1(4,5) show ?thesis
    by (intro 1(1) [of c1 d1 d2 c2 "noise_frame m2" "noise_frame m1 @ noise_frame m3" "noise_frame c" t'])
      (simp_all add: fresh_session_def)
qed

end

text \<open>The probe of a peer whose session is paired with ours and that sends its identity.\<close>

lemma probe_after_handshake:
  assumes R: "ristretto_group (env_ristretto E)" and P: "identity_codec (env_identity E)"
    and K: "noise_cipher (env_cipher E) paired" and hash: "\<And>x. length (env_blake2b_512 E x) = 64"
    and keys: "GenerateKeypair (env_ristretto E) st = (Inr (LocalStaticKeypair us), st')"
      "GenerateKeypair (env_ristretto E) su = (Inr (LocalStaticKeypair peer), su')"
    and rnd: "64 \<le> length (inb rnd)" "64 \<le> length (inb rnd_peer)"
    and addrs: "sum_list (map (\<lambda>a. 6 + length a) (opt_Addresses opts_peer)) \<le> 800"
    and crossed: "paired 1 (tx us) (rx peer)" "paired 1 (tx peer) (rx us)"
    and conns: "room (session_conn us) = None" "room (session_conn peer) = None"
    and sent: "ourPeerIdentityMsgBytes (env_ristretto E) (env_blake2b_512 E) (env_identity E) now_peer (LocalStaticKeypair peer)
        (opt_Features opts_peer) (opt_Addresses opts_peer) rnd_peer = (Inr b, rnd_peer')"
      "encodeIdentityProtocolFrame b = Inr frame" "Session_SendFrame (env_cipher E) frame peer = (q, peer')"
      "outb (session_conn peer') = outb (session_conn peer) @ inb (session_conn us)"
    and k: "GenerateRistrettoKeypair (env_ristretto E) (env_rand E) = (Inr kp, rnd)"
    and d: "dialForProbe (env_net E) ctx_first addr opts = Inr c"
    and h: "InitiatorHandshake (env_noise E) (Some ctx) kp (NetworkByte opts) c = (Inr us, c')"
  shows "\<exists>info. Reachable info \<and> RemoteStaticPubKey info = PeerStaticKey us \<and> Latency info = elapsed \<and>
    Features info = opt_Features opts_peer \<and> Addresses info = opt_Addresses opts_peer \<and>
    VerifyIdentitySignature (env_ristretto E) (env_blake2b_512 E) (Public (LocalStaticKeypair peer)) (Features info)
      (Addresses info) (info_IdentitySignature info) = Inr True \<and>
    (\<forall>r. ProbeWithOptions E ctx ctx_first elapsed addr opts r \<longrightarrow>
      r = Inr info \<or> r = Inl (Wrap ''p2p: exchanging identity with %s: %w'' ctx_error)) \<and>
    ProbeWithOptions E ctx ctx_first elapsed addr opts (Inr info)"
proof -
  have none: "sum_list (map (\<lambda>a. 6 + length a) (opt_Addresses default_options)) \<le> 800"
    by (simp add: default_options_def)
  note probe = ProbeWithOptions_established [OF k d h]
  from identity_exchange_ok [where ?blake2b_512.0 = "env_blake2b_512 E", OF R P K hash keys rnd none addrs crossed conns sent,
      where now = "env_now E"]
  obtain info where info: "Reachable info" "RemoteStaticPubKey info = PeerStaticKey us" "Features info = opt_Features opts_peer"
    "Addresses info = opt_Addresses opts_peer"
    "VerifyIdentitySignature (env_ristretto E) (env_blake2b_512 E) (Public (LocalStaticKeypair peer)) (Features info)
      (Addresses info) (info_IdentitySignature info) = Inr True"
    and only: "\<And>r us'. ExchangeIdentity (env_ristretto E) (env_blake2b_512 E) (env_cipher E) (env_identity E) (env_now E)
      rnd us r us' \<Longrightarrow> r = Inr info \<or> r = Inl ctx_error"
    and can: "\<exists>us'. ExchangeIdentity (env_ristretto E) (env_blake2b_512 E) (env_cipher E) (env_identity E) (env_now E)
      rnd us (Inr info) us'"
    unfolding ExchangeIdentity_def by metis
  have "ProbeWithOptions E ctx ctx_first elapsed addr opts (Inr (info\<lparr>Latency := elapsed\<rparr>))"
    unfolding probe using can by force
  moreover have "r = Inr (info\<lparr>Latency := elapsed\<rparr>) \<or> r = Inl (Wrap ''p2p: exchanging identity with %s: %w'' ctx_error)"
    if "ProbeWithOptions E ctx ctx_first elapsed addr opts r" for r
    using that only unfolding probe by fastforce
  ultimately show ?thesis using info by (intro exI [of _ "info\<lparr>Latency := elapsed\<rparr>"]) simp
qed

text \<open>The probe and the responder, with the bytes that pass between them.\<close>

lemma probe_meets_responder:
  assumes R: "ristretto_group (env_ristretto E)" and P: "identity_codec (env_identity E)"
    and N: "noise_xx (env_cipher E) paired (env_noise E) sync keypair budget" "0 < budget"
    and hash: "\<And>x. length (env_blake2b_512 E x) = 64"
    and keys: "\<forall>k st st'. GenerateKeypair (env_ristretto E) st = (Inr k, st') \<longrightarrow> keypair k"
    and responder: "GenerateKeypair (env_ristretto E) su = (Inr kb, su')"
    and rnd: "128 \<le> length (inb (env_rand E))" "64 \<le> length (inb rnd_peer)"
    and addrs: "sum_list (map (\<lambda>a. 6 + length a) (opt_Addresses opts_peer)) \<le> 800"
    and nb: "NetworkByte opts \<noteq> liveWireMode"
  shows "\<exists>to_responder arriving.
    (\<forall>rest. \<exists>peer c b rnd' frame peer'.
      ResponderHandshake (env_noise E) None kb \<lparr>inb = NetworkByte opts # to_responder @ rest, outb = [], room = None\<rparr>
        = (Inr peer, c) \<and>
      ourPeerIdentityMsgBytes (env_ristretto E) (env_blake2b_512 E) (env_identity E) now_peer kb
        (opt_Features opts_peer) (opt_Addresses opts_peer) rnd_peer = (Inr b, rnd') \<and>
      encodeIdentityProtocolFrame b = Inr frame \<and>
      Session_SendFrame (env_cipher E) frame peer = (Inr (), peer') \<and> outb (session_conn peer') = arriving) \<and>
    (\<forall>net. dialForProbe net ctx_first addr opts = Inr \<lparr>inb = arriving, outb = [], room = None\<rparr> \<longrightarrow>
      (\<exists>info. Reachable info \<and> RemoteStaticPubKey info = Public kb \<and> Latency info = elapsed \<and>
        Features info = opt_Features opts_peer \<and> Addresses info = opt_Addresses opts_peer \<and>
        VerifyIdentitySignature (env_ristretto E) (env_blake2b_512 E) (Public kb) (Features info)
          (Addresses info) (info_IdentitySignature info) = Inr True \<and>
        (\<forall>r. ProbeWithOptions (E\<lparr>env_net := net\<rparr>) False ctx_first elapsed addr opts r \<longrightarrow>
          r = Inr info \<or> r = Inl (Wrap ''p2p: exchanging identity with %s: %w'' ctx_error)) \<and>
        ProbeWithOptions (E\<lparr>env_net := net\<rparr>) False ctx_first elapsed addr opts (Inr info)))"
proof -
  let ?R = "env_ristretto E" and ?K = "env_cipher E" and ?P = "env_identity E" and ?h = "env_blake2b_512 E"
    and ?nb = "NetworkByte opts"
  let ?rnd = "(env_rand E)\<lparr>inb := drop 64 (inb (env_rand E))\<rparr>"
  note K = noise_xx.axioms(1) [OF N(1)]
  obtain s where key: "keypair_from ?R (env_rand E) = (Inr (key_of ?R s), ?rnd)"
    using ristretto_group.keypair_from_ok [OF R, of "env_rand E"] rnd(1) by auto
  let ?a = "key_of ?R s"
  have gen: "GenerateKeypair ?R (None, env_rand E) = (Inr ?a, (None, ?rnd))" using key by (simp add: GenerateKeypair_def)
  have grk: "GenerateRistrettoKeypair ?R (env_rand E) = (Inr ?a, ?rnd)" using key by (simp add: GenerateRistrettoKeypair_eq)
  obtain b rnd' frame where b: "ourPeerIdentityMsgBytes ?R ?h ?P now_peer kb (opt_Features opts_peer)
      (opt_Addresses opts_peer) rnd_peer = (Inr b, rnd')" "encodeIdentityProtocolFrame b = Inr frame" "length frame \<le> 1027"
    using our_identity_ok [where ?blake2b_512.0 = ?h, OF R P hash responder rnd(2) addrs] by blast
  have fits: "fits_frame frame" using b(3) by (simp add: fits_frame_def maxFrameLength_def)
  show ?thesis
  proof (rule noise_xx.handshake_then_frame [OF N(1) keys [rule_format, OF gen] keys [rule_format, OF responder] nb N(2) fits])
    fix to_responder m2 w c1 c2 d1 d2 t'
    assume one: "paired 1 c1 d1" "paired 1 d2 c2"
      and ini: "\<And>rest. InitiatorHandshake (env_noise E) None ?a ?nb \<lparr>inb = m2 @ rest, outb = [], room = None\<rparr> =
        (Inr (fresh_session rest (?nb # to_responder) c1 c2 (Public kb) ?a), \<lparr>inb = rest, outb = ?nb # to_responder, room = None\<rparr>)"
      and res: "\<And>rest. ResponderHandshake (env_noise E) None kb \<lparr>inb = ?nb # to_responder @ rest, outb = [], room = None\<rparr> =
        (Inr (fresh_session rest m2 d2 d1 (Public ?a) kb), \<lparr>inb = rest, outb = m2, room = None\<rparr>)"
      and send: "\<And>rest. Session_SendFrame ?K frame (fresh_session rest m2 d2 d1 (Public ?a) kb) =
        (Inr (), fresh_session rest (m2 @ w) t' d1 (Public ?a) kb)"
    let ?peer = "fresh_session [] m2 d2 d1 (Public ?a) kb" and ?us = "fresh_session w (?nb # to_responder) c1 c2 (Public kb) ?a"
    have l: "64 \<le> length (inb ?rnd)" using rnd(1) by simp
    have arr: "m2 @ w = m2 @ w" ..
    have us: "InitiatorHandshake (env_noise E) (Some False) ?a ?nb \<lparr>inb = m2 @ w, outb = [], room = None\<rparr> =
        (Inr ?us, \<lparr>inb = w, outb = ?nb # to_responder, room = None\<rparr>)"
      using ini by (simp add: InitiatorHandshake_live_context)
    have sel: "env_ristretto (E\<lparr>env_net := net\<rparr>) = ?R" "env_cipher (E\<lparr>env_net := net\<rparr>) = ?K"
      "env_identity (E\<lparr>env_net := net\<rparr>) = ?P" "env_blake2b_512 (E\<lparr>env_net := net\<rparr>) = ?h"
      "env_noise (E\<lparr>env_net := net\<rparr>) = env_noise E" "env_rand (E\<lparr>env_net := net\<rparr>) = env_rand E"
      "env_net (E\<lparr>env_net := net\<rparr>) = net" for net by simp_all
    note second = probe_after_handshake [where us = ?us and peer = ?peer and ctx = False
        and peer' = "fresh_session [] (m2 @ w) t' d1 (Public ?a) kb" and E = "E\<lparr>env_net := net\<rparr>" for net,
        unfolded sel fresh_session_sel conn.select_convs,
        OF R P K hash gen responder l rnd(2) addrs one refl refl b(1,2) send arr grk _ us]
    have first: "\<exists>peer d b rnd' frame peer'. ResponderHandshake (env_noise E) None kb
          \<lparr>inb = ?nb # to_responder @ rest, outb = [], room = None\<rparr> = (Inr peer, d) \<and>
        ourPeerIdentityMsgBytes ?R ?h ?P now_peer kb (opt_Features opts_peer) (opt_Addresses opts_peer) rnd_peer = (Inr b, rnd') \<and>
        encodeIdentityProtocolFrame b = Inr frame \<and> Session_SendFrame ?K frame peer = (Inr (), peer') \<and>
        outb (session_conn peer') = m2 @ w" for rest
      using res b(1,2) send by fastforce
    show ?thesis using first second by blast
  qed
qed


definition sample_env :: "(residue, residue, plain_state, nat) probe_env" where
  "sample_env = \<lparr>env_ristretto = residue_lib, env_blake2b_512 = (\<lambda>x. replicate 64 0), env_noise = plain_xx,
     env_cipher = counter_cipher, env_identity = identity_proto3,
     env_net = \<lparr>DialContext = (\<lambda>a. Inl EOF), SOCKS5 = (\<lambda>p. Inl EOF)\<rparr>, env_now = 1700000000,
     env_rand = reader_of (replicate 128 3)\<rparr>"

lemma sample_env_sel:
  "env_ristretto sample_env = residue_lib" "env_blake2b_512 sample_env = (\<lambda>x. replicate 64 0)"
  "env_noise sample_env = plain_xx" "env_cipher sample_env = counter_cipher"
  "env_identity sample_env = identity_proto3" "env_rand sample_env = reader_of (replicate 128 3)"
  by (simp_all add: sample_env_def)


end
