(* ===== verification/Responder.thy ===== *)
theory Responder
  imports Probe
begin

text \<open>
  \<^verbatim>\<open>src/p2p/responder.go\<close>: the accept loop, the life of a connection and of its substreams. Every
  goroutine is an entry of the state and every event a step, so that all interleavings of the
  connections are covered. Logging is not modelled, and deadlines only by the failures they cause.
\<close>

section \<open>Configuration\<close>

definition responderHandshakeTimeout :: int where "responderHandshakeTimeout = identityExchangeTimeout"

text \<open>The two callbacks act on a state of their owner.\<close>

record 'p ResponderConfig =
  StaticKeypair :: DHKey
  OurFeatures :: u32
  OurAddresses :: "bytes list"
  PeerListProvider :: "('p \<Rightarrow> pb_PeerInfo option list \<times> 'p) option"
  OnPeerIdentity :: "(bytes \<Rightarrow> PeerInfo \<Rightarrow> 'p \<Rightarrow> 'p) option"
  ConnectionTimeout :: int

definition connectionTimeout :: "'p ResponderConfig \<Rightarrow> int" where
  "connectionTimeout cfg = (if ConnectionTimeout cfg > 0 then ConnectionTimeout cfg else responderHandshakeTimeout)"

definition knownPeers :: "'p ResponderConfig \<Rightarrow> 'p \<Rightarrow> pb_PeerInfo option list \<times> 'p" where
  "knownPeers cfg p = (case PeerListProvider cfg of None \<Rightarrow> ([], p) | Some provide \<Rightarrow> provide p)"

definition report_identity :: "'p ResponderConfig \<Rightarrow> bytes \<Rightarrow> PeerInfo \<Rightarrow> 'p \<Rightarrow> 'p" where
  "report_identity cfg key info p = (case OnPeerIdentity cfg of None \<Rightarrow> p | Some report \<Rightarrow> report key info p)"

text \<open>A substream is served once and closed, whatever the outcome.\<close>

definition handleResponderSubstream ::
  "proto_lib \<Rightarrow> 'p ResponderConfig \<Rightarrow> conn \<Rightarrow> 'p \<Rightarrow> (go_error + unit) \<times> conn \<times> 'p" where
  "handleResponderSubstream P cfg substream p =
     (case knownPeers cfg p of (peers, p') \<Rightarrow>
        (case ServeGetPeers P stream_transport peers (NewStreamTransport substream) of
           (r, transport) \<Rightarrow> (r, stream transport, p')))"

section \<open>The server\<close>

text \<open>How far the goroutine of a connection has come.\<close>

datatype 'k phase = Accepted conn | Handshaken "'k Session" | Identified "'k Session" PeerInfo | Multiplexing | Closed

record ('k, 'p) server =
  accepting :: bool
  outcome :: "go_error + unit"
  wg :: nat
  conns :: "'k phase list"
  substreams :: "conn list"
  owner :: 'p
  reported :: "(bytes \<times> PeerInfo) list"
  serve_returned :: "(go_error + unit) option"

definition serve_start :: "'p \<Rightarrow> ('k, 'p) server" where
  "serve_start p = \<lparr>accepting = True, outcome = Inr (), wg = 0, conns = [], substreams = [], owner = p,
     reported = [], serve_returned = None\<rparr>"

definition set_phase :: "nat \<Rightarrow> 'k phase \<Rightarrow> ('k, 'p) server \<Rightarrow> ('k, 'p) server" where
  "set_phase i ph s = s\<lparr>conns := (conns s)[i := ph]\<rparr>"

text \<open>The end of a connection's goroutine: the deferred \<^verbatim>\<open>conn.Close\<close> and \<^verbatim>\<open>wg.Done\<close>.\<close>

definition close_conn :: "nat \<Rightarrow> ('k, 'p) server \<Rightarrow> ('k, 'p) server" where
  "close_conn i s = (set_phase i Closed s)\<lparr>wg := wg s - 1\<rparr>"

definition accept_outcome :: "bool \<Rightarrow> go_error \<Rightarrow> go_error + unit" where
  "accept_outcome cancelled e = (if cancelled then Inr () else Inl (Wrap ''p2p: accepting inbound connection: %w'' e))"

definition responder_options :: "'p ResponderConfig \<Rightarrow> IdentityOptions" where
  "responder_options cfg = \<lparr>opt_Features = OurFeatures cfg, opt_Addresses = OurAddresses cfg\<rparr>"

text \<open>\<open>handleResponderConn\<close> one event at a time, and the accept loop of \<open>Serve\<close>, which returns when it has
  left the loop and the wait group is down to zero.\<close>

inductive serve_step ::
  "('sc, 'pt, 'h, 'k) probe_env \<Rightarrow> proto_lib \<Rightarrow> 'p ResponderConfig \<Rightarrow> ('k, 'p) server \<Rightarrow> ('k, 'p) server \<Rightarrow> bool"
  for E P cfg where
  accept: "accepting s \<Longrightarrow> serve_step E P cfg s (s\<lparr>conns := conns s @ [Accepted c], wg := wg s + 1\<rparr>)"
| accept_fails: "accepting s \<Longrightarrow> serve_step E P cfg s (s\<lparr>accepting := False, outcome := accept_outcome cancelled e\<rparr>)"
| deadline_fails: "i < length (conns s) \<Longrightarrow> conns s ! i = Accepted c \<Longrightarrow> serve_step E P cfg s (close_conn i s)"
| handshake_fails: "i < length (conns s) \<Longrightarrow> conns s ! i = Accepted c \<Longrightarrow>
    ResponderHandshake (env_noise E) (Some ctx) (StaticKeypair cfg) c = (Inl e, c') \<Longrightarrow>
    serve_step E P cfg s (close_conn i s)"
| handshake: "i < length (conns s) \<Longrightarrow> conns s ! i = Accepted c \<Longrightarrow>
    ResponderHandshake (env_noise E) (Some ctx) (StaticKeypair cfg) c = (Inr sess, c') \<Longrightarrow>
    serve_step E P cfg s (set_phase i (Handshaken sess) s)"
| identity_fails: "i < length (conns s) \<Longrightarrow> conns s ! i = Handshaken sess \<Longrightarrow>
    ExchangeIdentityWithOptions (env_ristretto E) (env_blake2b_512 E) (env_cipher E) (env_identity E) now
      (responder_options cfg) rnd sess (Inl e) sess' \<Longrightarrow>
    serve_step E P cfg s (close_conn i s)"
| identity: "i < length (conns s) \<Longrightarrow> conns s ! i = Handshaken sess \<Longrightarrow>
    ExchangeIdentityWithOptions (env_ristretto E) (env_blake2b_512 E) (env_cipher E) (env_identity E) now
      (responder_options cfg) rnd sess (Inr info) sess' \<Longrightarrow>
    serve_step E P cfg s ((set_phase i (Identified sess' info) s)
      \<lparr>owner := report_identity cfg (PeerStaticKey sess) info (owner s),
       reported := reported s @ [(PeerStaticKey sess, info)]\<rparr>)"
| upgrade_fails: "i < length (conns s) \<Longrightarrow> conns s ! i = Identified sess info \<Longrightarrow> serve_step E P cfg s (close_conn i s)"
| upgrade: "i < length (conns s) \<Longrightarrow> conns s ! i = Identified sess info \<Longrightarrow>
    serve_step E P cfg s (set_phase i Multiplexing s)"
| substream: "i < length (conns s) \<Longrightarrow> conns s ! i = Multiplexing \<Longrightarrow>
    serve_step E P cfg s (s\<lparr>substreams := substreams s @ [c], wg := wg s + 1\<rparr>)"
| session_ends: "i < length (conns s) \<Longrightarrow> conns s ! i = Multiplexing \<Longrightarrow> serve_step E P cfg s (close_conn i s)"
| substream_served: "substreams s = xs @ c # ys \<Longrightarrow> handleResponderSubstream P cfg c (owner s) = (r, c', p) \<Longrightarrow>
    serve_step E P cfg s (s\<lparr>substreams := xs @ ys, wg := wg s - 1, owner := p\<rparr>)"
| serve_returns: "\<not> accepting s \<Longrightarrow> wg s = 0 \<Longrightarrow> serve_returned s = None \<Longrightarrow>
    serve_step E P cfg s (s\<lparr>serve_returned := Some (outcome s)\<rparr>)"

section \<open>The wait group counts what is running\<close>

definition open_conns :: "'k phase list \<Rightarrow> nat" where
  "open_conns cs = length (filter (\<lambda>ph. ph \<noteq> Closed) cs)"

lemma open_conns_update:
  assumes "i < length cs" "cs ! i \<noteq> Closed"
  shows "open_conns (cs[i := ph]) = (if ph = Closed then open_conns cs - 1 else open_conns cs)"
    and "0 < open_conns cs"
proof -
  have cs: "cs = take i cs @ cs ! i # drop (Suc i) cs" using assms(1) by (simp add: id_take_nth_drop)
  have upd: "cs[i := ph] = take i cs @ ph # drop (Suc i) cs" using assms(1) by (simp add: upd_conv_take_nth_drop)
  have o: "open_conns cs = open_conns (take i cs) + 1 + open_conns (drop (Suc i) cs)"
    by (subst cs) (use assms(2) in \<open>simp add: open_conns_def\<close>)
  show "0 < open_conns cs" using o by simp
  show "open_conns (cs[i := ph]) = (if ph = Closed then open_conns cs - 1 else open_conns cs)"
    unfolding o upd by (simp add: open_conns_def)
qed

text \<open>Where a session and a reported identity come from.\<close>

definition shook_hands :: "('sc, 'pt, 'h, 'k) probe_env \<Rightarrow> 'p ResponderConfig \<Rightarrow> 'k Session \<Rightarrow> bool" where
  "shook_hands E cfg sess \<longleftrightarrow>
     (\<exists>ctx c c'. ResponderHandshake (env_noise E) (Some ctx) (StaticKeypair cfg) c = (Inr sess, c'))"

definition identified :: "('sc, 'pt, 'h, 'k) probe_env \<Rightarrow> 'p ResponderConfig \<Rightarrow> 'k Session \<Rightarrow> PeerInfo \<Rightarrow> bool" where
  "identified E cfg sess info \<longleftrightarrow>
     (\<exists>now rnd sess'. ExchangeIdentityWithOptions (env_ristretto E) (env_blake2b_512 E) (env_cipher E) (env_identity E) now
        (responder_options cfg) rnd sess (Inr info) sess')"

definition serve_inv :: "('sc, 'pt, 'h, 'k) probe_env \<Rightarrow> 'p ResponderConfig \<Rightarrow> ('k, 'p) server \<Rightarrow> bool" where
  "serve_inv E cfg s \<longleftrightarrow> wg s = open_conns (conns s) + length (substreams s) \<and>
     (serve_returned s \<noteq> None \<longrightarrow> \<not> accepting s \<and> wg s = 0) \<and>
     list_all (\<lambda>ph. case ph of Handshaken sess \<Rightarrow> shook_hands E cfg sess | _ \<Rightarrow> True) (conns s) \<and>
     list_all (\<lambda>(key, info). \<exists>sess. shook_hands E cfg sess \<and> identified E cfg sess info \<and> PeerStaticKey sess = key) (reported s)"

lemma serve_inv_phase:
  assumes "serve_inv E cfg s" "i < length (conns s)" "conns s ! i \<noteq> Closed" "ph \<noteq> Closed"
    and "\<And>sess. ph = Handshaken sess \<Longrightarrow> shook_hands E cfg sess"
  shows "serve_inv E cfg (set_phase i ph s)"
  using assms open_conns_update(1) [OF assms(2,3), of ph]
  by (auto simp: serve_inv_def set_phase_def list_all_length nth_list_update split: phase.split)

lemma serve_inv_close:
  assumes "serve_inv E cfg s" "i < length (conns s)" "conns s ! i \<noteq> Closed"
  shows "serve_inv E cfg (close_conn i s)"
  using assms open_conns_update(1) [OF assms(2,3), of Closed] open_conns_update(2) [OF assms(2,3)]
  by (auto simp: serve_inv_def set_phase_def close_conn_def list_all_length nth_list_update)

lemma responder_messages_peer:
  "responder_messages N k st = (Inr s, st') \<Longrightarrow> length (PeerStaticKey s) = 32"
proof -
  assume "responder_messages N k st = (Inr s, st')"
  then obtain cs1 cs2 st1 where "responder_finish N k cs1 cs2 st1 = (Inr s, st')"
    by (auto simp: responder_messages_def io_bind_Inr)
  then obtain t r where "make_session N k t r st1 = (Inr s, st')"
    by (auto simp: responder_finish_def split: option.splits)
  then show ?thesis by (cases st1) (auto dest: make_session_Inr)
qed

lemma ResponderHandshake_peer:
  "ResponderHandshake N ctx k c = (Inr s, c') \<Longrightarrow> length (PeerStaticKey s) = 32"
  by (auto simp: ResponderHandshake_def io_bind_Inr run_handshake_eq split: if_splits dest: responder_messages_peer)

lemma ExchangeIdentityWithOptions_info:
  assumes "ExchangeIdentityWithOptions R h K P now opts rnd s (Inr info) s'"
  shows "Reachable info \<and> RemoteStaticPubKey info = PeerStaticKey s"
  using assms
proof cases
  case (exchanged b rnd' frame x)
  from exchange_outcome [OF exchanged(4,5)] show ?thesis by (auto simp: outcome_of_def)
qed

lemma serve_inv_step:
  assumes "serve_step E P cfg s s'" "serve_inv E cfg s"
  shows "serve_inv E cfg s'"
  using assms
proof (induction rule: serve_step.induct)
  case (accept s c)
  then show ?case by (auto simp: serve_inv_def open_conns_def)
next
  case (accept_fails s cancelled e)
  then show ?case by (auto simp: serve_inv_def)
next
  case (deadline_fails i s c)
  then show ?case by (intro serve_inv_close) auto
next
  case (handshake_fails i s c ctx e c')
  then show ?case by (intro serve_inv_close) auto
next
  case (handshake i s c ctx sess c')
  then show ?case by (intro serve_inv_phase) (auto simp: shook_hands_def)
next
  case (identity_fails i s sess now rnd e sess')
  then show ?case by (intro serve_inv_close) auto
next
  case (identity i s sess now rnd info sess')
  then have "serve_inv E cfg (set_phase i (Identified sess' info) s)" by (intro serve_inv_phase) auto
  moreover have "shook_hands E cfg sess" using identity by (auto simp: serve_inv_def list_all_length)
  moreover have "identified E cfg sess info" using identity(3) by (auto simp: identified_def)
  ultimately show ?case by (auto simp: serve_inv_def set_phase_def)
next
  case (upgrade_fails i s sess info)
  then show ?case by (intro serve_inv_close) auto
next
  case (upgrade i s sess info)
  then show ?case by (intro serve_inv_phase) auto
next
  case (substream i s c)
  then have "0 < wg s" using open_conns_update(2) [of i "conns s"] by (simp add: serve_inv_def)
  with substream show ?case by (auto simp: serve_inv_def)
next
  case (session_ends i s)
  then show ?case by (intro serve_inv_close) auto
next
  case (substream_served s xs c ys r c' p)
  then show ?case by (auto simp: serve_inv_def)
next
  case (serve_returns s)
  then show ?case by (auto simp: serve_inv_def)
qed

lemma serve_inv_start: "serve_inv E cfg (serve_start p)"
  by (simp add: serve_inv_def serve_start_def open_conns_def)

lemma serve_inv_reachable: "(serve_step E P cfg)\<^sup>*\<^sup>* (serve_start p) s \<Longrightarrow> serve_inv E cfg s"
  by (induction rule: rtranclp_induct) (auto intro: serve_inv_start serve_inv_step)

section \<open>Properties\<close>

text \<open>
  C19. Once \<^verbatim>\<open>Serve\<close> has returned nothing of it is left running: the accept loop has ended, every
  connection it accepted is closed and no substream is being served; and it never returns before.
  Whatever the order of events, the wait group counts exactly the goroutines that are running.
\<close>

theorem serve_waits_for_all:
  assumes "(serve_step E P cfg)\<^sup>*\<^sup>* (serve_start p) s"
  shows "wg s = length (filter (\<lambda>ph. ph \<noteq> Closed) (conns s)) + length (substreams s) \<and>
    (serve_returned s = None \<or> \<not> accepting s \<and> set (conns s) \<subseteq> {Closed} \<and> substreams s = [])"
  using serve_inv_reachable [OF assms]
  by (fastforce simp: serve_inv_def open_conns_def filter_empty_conv)

definition sample_config :: "DHKey \<Rightarrow> unit ResponderConfig" where
  "sample_config k = \<lparr>StaticKeypair = k, OurFeatures = FeaturesCommunicationNode, OurAddresses = [],
     PeerListProvider = None, OnPeerIdentity = None, ConnectionTimeout = 0\<rparr>"

lemma sample_serve_run:
  "(serve_step sample_env P cfg)\<^sup>*\<^sup>* (serve_start ()) \<lparr>accepting = False, outcome = Inr (), wg = 0,
     conns = [Closed], substreams = [], owner = (), reported = [], serve_returned = Some (Inr ())\<rparr>"
proof -
  let ?c = "reader_of []"
  let ?s0 = "serve_start () :: (nat, unit) server"
  let ?s1 = "?s0\<lparr>conns := conns ?s0 @ [Accepted ?c], wg := wg ?s0 + 1\<rparr>"
  let ?s2 = "close_conn 0 ?s1"
  let ?s3 = "?s2\<lparr>accepting := False, outcome := accept_outcome True EOF\<rparr>"
  let ?s4 = "?s3\<lparr>serve_returned := Some (outcome ?s3)\<rparr>"
  have "serve_step sample_env P cfg ?s0 ?s1" by (rule serve_step.accept) (simp add: serve_start_def)
  moreover have "serve_step sample_env P cfg ?s1 ?s2"
    by (rule serve_step.deadline_fails [where c = ?c]) (simp_all add: serve_start_def)
  moreover have "serve_step sample_env P cfg ?s2 ?s3"
    by (rule serve_step.accept_fails) (simp add: serve_start_def close_conn_def set_phase_def)
  moreover have "serve_step sample_env P cfg ?s3 ?s4"
    by (rule serve_step.serve_returns) (simp_all add: serve_start_def close_conn_def set_phase_def)
  moreover have "?s4 = \<lparr>accepting = False, outcome = Inr (), wg = 0, conns = [Closed], substreams = [], owner = (),
     reported = [], serve_returned = Some (Inr ())\<rparr>"
    by (simp add: serve_start_def close_conn_def set_phase_def accept_outcome_def)
  ultimately show ?thesis by (metis (no_types, lifting) converse_rtranclp_into_rtranclp rtranclp.rtrancl_refl)
qed

theorem serve_waits_for_all_witness:
  "\<exists>s :: (nat, unit) server. serve_returned s = Some (Inr ()) \<and> conns s = [Closed] \<and> substreams s = [] \<and>
    wg s = length (filter (\<lambda>ph. ph \<noteq> Closed) (conns s)) + length (substreams s) \<and>
    (serve_returned s = None \<or> \<not> accepting s \<and> set (conns s) \<subseteq> {Closed} \<and> substreams s = [])"
proof (intro exI conjI)
  let ?s = "\<lparr>accepting = False, outcome = Inr (), wg = 0, conns = [Closed], substreams = [], owner = (),
     reported = [], serve_returned = Some (Inr ())\<rparr> :: (nat, unit) server"
  note w = serve_waits_for_all [OF sample_serve_run [of proto3 "sample_config \<lparr>Private = [], Public = []\<rparr>"]]
  show "wg ?s = length (filter (\<lambda>ph. ph \<noteq> Closed) (conns ?s)) + length (substreams ?s)"
    "serve_returned ?s = None \<or> \<not> accepting ?s \<and> set (conns ?s) \<subseteq> {Closed} \<and> substreams ?s = []"
    using w by blast+
qed simp_all


lemma ResponderHandshake_live_context: "ResponderHandshake N (Some False) k = ResponderHandshake N None k"
  by (rule ext) (simp add: ResponderHandshake_def checkContext_def)

text \<open>An initiator with the key pair \<open>ka\<close> connects to a responder with a generated key pair and sends its
  identity.\<close>

lemma sample_meeting:
  assumes kb: "GenerateKeypair residue_lib su0 = (Inr (StaticKeypair cfg), su)"
    and fits: "sum_list (map (\<lambda>a. 6 + length a) (OurAddresses cfg)) \<le> 800"
  obtains c us c' info us' where
    "ResponderHandshake (env_noise sample_env) (Some False) (StaticKeypair cfg) c = (Inr us, c')"
    "ExchangeIdentityWithOptions (env_ristretto sample_env) (env_blake2b_512 sample_env)
        (env_cipher sample_env) (env_identity sample_env) 5 (responder_options cfg)
        (reader_of (replicate 64 9)) us (Inr info) us'"
proof -
  let ?hash = "\<lambda>x :: bytes. replicate 64 (0 :: u8)" and ?rnd = "reader_of (replicate 64 9)"
  let ?kb = "StaticKeypair cfg"
  obtain ka st where ka: "GenerateKeypair residue_lib (None, reader_of (replicate 64 1)) = (Inr ka, st)"
    using residues.keypair_from_ok [of "reader_of (replicate 64 1)"]
    by (auto simp: reader_of_def GenerateKeypair_def)
  note k = ka kb
  have keys: "key_of_32 ka" "key_of_32 ?kb"
    using k [THEN GenerateKeypair_Inr [OF residues.ristretto_group_axioms]] residues.element_length
    by (auto simp: key_of_32_def)
  have len: "length (?hash x) = 64" for x by simp
  have rnd: "64 \<le> length (inb ?rnd)" by (simp add: reader_of_def)
  have addrs: "sum_list (map (\<lambda>a. 6 + length a) (opt_Addresses (responder_options cfg))) \<le> 800"
    using fits by (simp add: responder_options_def)
  obtain b r frame where sent: "ourPeerIdentityMsgBytes residue_lib ?hash identity_proto3 5 ka
      (opt_Features (responder_options cfg)) (opt_Addresses (responder_options cfg)) ?rnd = (Inr b, r)"
    "encodeIdentityProtocolFrame b = Inr frame" "length frame \<le> 1027"
    using our_identity_ok [where ?blake2b_512.0 = ?hash, OF residues.ristretto_group_axioms
        identity_proto3.identity_codec_axioms len k(1) rnd addrs] by blast
  have live: "NetworkByteMainNet \<noteq> liveWireMode" by (simp add: NetworkByteMainNet_def liveWireMode_def)
  show ?thesis
  proof (rule plain.handshake_completes [OF keys live])
    fix m1 m2 m3 c1 c2 d1 d2
    assume pair: "counter_paired 1000 c1 d1" "counter_paired 1000 d2 c2"
      and res: "\<And>c rest. room c = None \<Longrightarrow> inb c = NetworkByteMainNet # noise_frame m1 @ noise_frame m3 @ rest \<Longrightarrow>
        ResponderHandshake plain_xx None ?kb c = (Inr \<lparr>session_conn = c\<lparr>inb := rest, outb := outb c @ noise_frame m2\<rparr>,
          tx = d2, rx = d1, PeerStaticKey = Public ka, LocalStaticKeypair = ?kb\<rparr>,
          c\<lparr>inb := rest, outb := outb c @ noise_frame m2\<rparr>)"
    let ?peer = "fresh_session [] [] c1 c2 (Public ?kb) ka"
    have one: "counter_paired 1 d2 c2" "counter_paired 1 c1 d1" "counter_paired (Suc 0) c1 d1"
      using pair by (simp_all add: counter_paired_def)
    obtain c t' where send: "Session_SendFrame counter_cipher frame ?peer = (Inr (), ?peer\<lparr>tx := t',
        session_conn := \<lparr>inb = [], outb = noise_frame c, room = None\<rparr>\<rparr>)"
      by (rule counters.Session_SendFrame_ok [of 0 ?peer d1 frame])
        (use one(3) sent(3) in \<open>simp_all add: fits_frame_def maxFrameLength_def\<close>)
    let ?us = "fresh_session (noise_frame c) (noise_frame m2) d2 d1 (Public ka) ?kb"
    let ?c = "reader_of (NetworkByteMainNet # noise_frame m1 @ noise_frame m3 @ noise_frame c)"
    have hs: "ResponderHandshake (env_noise sample_env) (Some False) (StaticKeypair cfg) ?c =
        (Inr ?us, session_conn ?us)"
      using res [of ?c "noise_frame c"]
      by (simp add: ResponderHandshake_live_context sample_env_sel reader_of_def fresh_session_def)
    have arr: "outb (session_conn (?peer\<lparr>tx := t', session_conn := \<lparr>inb = [], outb = noise_frame c, room = None\<rparr>\<rparr>)) =
        [] @ noise_frame c" by simp
    from identity_exchange_ok [where ?blake2b_512.0 = ?hash and us = ?us and peer = ?peer,
        unfolded fresh_session_sel conn.select_convs, OF residues.ristretto_group_axioms
        identity_proto3.identity_codec_axioms counters.noise_cipher_axioms len k(2,1) rnd rnd addrs addrs one(1,2)
        refl refl sent(1,2) send arr, where now = 5]
    obtain info us' where ex: "ExchangeIdentityWithOptions (env_ristretto sample_env) (env_blake2b_512 sample_env)
        (env_cipher sample_env) (env_identity sample_env) 5 (responder_options cfg) ?rnd ?us (Inr info) us'"
      unfolding sample_env_sel by blast
    from hs ex show ?thesis by (rule that)
  qed
qed

lemma sample_identified_run:
  fixes cfg :: "'p ResponderConfig"
  assumes "GenerateKeypair residue_lib su0 = (Inr (StaticKeypair cfg), su)"
    and "sum_list (map (\<lambda>a. 6 + length a) (OurAddresses cfg)) \<le> 800"
  obtains key info s where "(serve_step sample_env P cfg)\<^sup>*\<^sup>* (serve_start p) s" "reported s = [(key, info)]"
    "owner s = report_identity cfg key info p"
proof (rule sample_meeting [OF assms])
  fix c us c' info us'
  assume hs: "ResponderHandshake (env_noise sample_env) (Some False) (StaticKeypair cfg) c = (Inr us, c')"
    and ex: "ExchangeIdentityWithOptions (env_ristretto sample_env) (env_blake2b_512 sample_env)
        (env_cipher sample_env) (env_identity sample_env) 5 (responder_options cfg)
        (reader_of (replicate 64 9)) us (Inr info) us'"
  let ?s0 = "serve_start p :: (nat, 'p) server"
  let ?s1 = "?s0\<lparr>conns := conns ?s0 @ [Accepted c], wg := wg ?s0 + 1\<rparr>"
  let ?s2 = "set_phase 0 (Handshaken us) ?s1"
  let ?s3 = "(set_phase 0 (Identified us' info) ?s2)\<lparr>owner := report_identity cfg (PeerStaticKey us) info (owner ?s2),
     reported := reported ?s2 @ [(PeerStaticKey us, info)]\<rparr>"
  have "serve_step sample_env P cfg ?s0 ?s1" by (rule serve_step.accept) (simp add: serve_start_def)
  moreover have "serve_step sample_env P cfg ?s1 ?s2"
    by (rule serve_step.handshake [OF _ _ hs]) (simp_all add: serve_start_def)
  moreover have "serve_step sample_env P cfg ?s2 ?s3"
    by (rule serve_step.identity [OF _ _ ex]) (simp_all add: serve_start_def set_phase_def)
  ultimately have "(serve_step sample_env P cfg)\<^sup>*\<^sup>* ?s0 ?s3"
    by (meson converse_rtranclp_into_rtranclp rtranclp.rtrancl_refl)
  moreover have "reported ?s3 = [(PeerStaticKey us, info)]" "owner ?s3 = report_identity cfg (PeerStaticKey us) info p"
    by (simp_all add: serve_start_def set_phase_def)
  ultimately show ?thesis by (rule that)
qed


end
