(* ===== verification/Probe_Rpc.thy ===== *)
theory Probe_Rpc
  imports Responder
begin

text \<open>
  The RPC probes against the responder: \<^verbatim>\<open>ProbeGetPeersWithOptions\<close> on one side, \<^verbatim>\<open>ResponderHandshake\<close>, the
  identity exchange and \<^verbatim>\<open>handleResponderSubstream\<close> on the other. Of the multiplexer only this is used, that a
  substream of the one side is a fresh byte stream to a substream of the other.
\<close>

section \<open>Calls on a substream\<close>

text \<open>A multiplexer whose next substream delivers the given bytes.\<close>

definition delivers :: "('k, 'y) yamux_lib \<Rightarrow> bytes \<Rightarrow> bool" where
  "delivers Y bs \<longleftrightarrow>
     (\<forall>rwc. \<exists>y. yamux_Client Y rwc = Inr y \<and> yamux_Open Y y = Inr \<lparr>inb = bs, outb = [], room = None\<rparr>)"

lemma open_substream_delivers: "delivers Y bs \<Longrightarrow> open_substream Y sess = Inr (peer_sends bs)"
proof -
  assume "delivers Y bs"
  then obtain y where "yamux_Client Y (newSessionReadWriteCloser sess) = Inr y"
    "yamux_Open Y y = Inr \<lparr>inb = bs, outb = [], room = None\<rparr>" unfolding delivers_def by blast
  then show ?thesis by (simp add: open_substream_def peer_sends_def)
qed

text \<open>An RPC probe fails as the plain probe does, and otherwise returns what the call returns.\<close>

lemma rpc_probe_outcome:
  assumes k: "GenerateRistrettoKeypair (env_ristretto E) (env_rand E) = (Inr k, rnd)"
    and Y: "delivers Y bs" and call: "fst (call (peer_sends bs)) = Inr a"
    and only: "\<forall>r. ProbeWithOptions E ctx ctx_first elapsed addr opts r \<longrightarrow> r = Inr info \<or> r = Inl e"
    and can: "ProbeWithOptions E ctx ctx_first elapsed addr opts (Inr info)"
  shows "\<forall>q. establish E ctx ctx_first msg addr opts q \<longrightarrow>
      rpc_result Y msg' call q = Inr a \<or> rpc_result Y msg' call q = Inl e"
    and "\<exists>q. establish E ctx ctx_first msg addr opts q \<and> rpc_result Y msg' call q = Inr a"
proof -
  have result: "rpc_result Y msg' call q = (case q of Inl e \<Rightarrow> Inl e | Inr _ \<Rightarrow> Inr a)" for q
    using call by (auto simp: rpc_result_def open_substream_delivers [OF Y] split: sum.split prod.split)
  show "\<forall>q. establish E ctx ctx_first msg addr opts q \<longrightarrow>
      rpc_result Y msg' call q = Inr a \<or> rpc_result Y msg' call q = Inl e"
  proof (intro allI impI)
    fix q assume "establish E ctx ctx_first msg addr opts q"
    from establish_other_message [OF k this] only
    have "probe_result elapsed q = Inr info \<or> probe_result elapsed q = Inl e" by (auto simp: ProbeWithOptions_def)
    then show "rpc_result Y msg' call q = Inr a \<or> rpc_result Y msg' call q = Inl e"
      by (auto simp: result probe_result_def split: sum.splits prod.splits)
  qed
  from can obtain q where q: "establish E ctx ctx_first ''p2p: generating ephemeral static keypair for probe: %w'' addr opts q"
    "Inr info = probe_result elapsed q" by (auto simp: ProbeWithOptions_def)
  from q(2) have "rpc_result Y msg' call q = Inr a" by (auto simp: result probe_result_def split: sum.splits)
  with establish_other_message [OF k q(1)] show "\<exists>q. establish E ctx ctx_first msg addr opts q \<and> rpc_result Y msg' call q = Inr a"
    by blast
qed

section \<open>The probe for peers against the responder\<close>

lemma substream_meets_client:
  assumes P: "proto_codec P" and peers: "knownPeers cfg p = (peers, p')"
    and ok: "list_all (sendable P) (boundPeersForRequest peers (wire_request req))"
      "length (boundPeersForRequest peers (wire_request req)) \<le> 100000"
  obtains asked answered c d where
    "GetPeers P False stream_transport req (peer_sends answered)
      = (Inr (List.map_filter id (boundPeersForRequest peers (wire_request req))), c)"
    "outb (stream c) = asked"
    "handleResponderSubstream P cfg \<lparr>inb = asked, outb = [], room = None\<rparr> p = (Inr (), d, p')" "outb d = answered"
proof -
  obtain asked answered c s where
    "GetPeers P False stream_transport req (peer_sends answered)
      = (Inr (List.map_filter id (boundPeersForRequest peers (wire_request req))), c)" "outb (stream c) = asked"
    and s: "ServeGetPeers P stream_transport peers (peer_sends asked) = (Inr (), s)" "outb (stream s) = answered"
    using get_peers_meets_server [OF P ok] by blast
  moreover have "handleResponderSubstream P cfg \<lparr>inb = asked, outb = [], room = None\<rparr> p = (Inr (), stream s, p')"
    using s(1) by (simp add: handleResponderSubstream_def peers peer_sends_def)
  ultimately show ?thesis using that s(2) by blast
qed


text \<open>A responder with two entries in its list, one of them nil, asked for one.\<close>

definition serving_config :: "DHKey \<Rightarrow> unit ResponderConfig" where
  "serving_config k = (sample_config k)\<lparr>PeerListProvider := Some (\<lambda>p. ([sample_peer, None], p))\<rparr>"


end
