(* ===== verification/Pipe_Exchange.thy ===== *)
theory Pipe_Exchange
  imports Identity_Exchange
begin

text \<open>
  Why \<^verbatim>\<open>ExchangeIdentityWithOptions\<close> of \<^verbatim>\<open>src/p2p/session.go\<close> sends and receives in two goroutines: on an
  unbuffered connection such as \<^verbatim>\<open>net.Pipe\<close> a write returns only when a reader has taken all of it. Here the
  two sides are joined by such a pipe and move the bytes of their frames between them, read by read.
\<close>

section \<open>One direction of a pipe\<close>

text \<open>The \<^verbatim>\<open>Write\<close> calls of \<^verbatim>\<open>writeFrame\<close>.\<close>

definition frame_writes :: "bytes \<Rightarrow> bytes list" where
  "frame_writes payload = put_be16 (word_of_nat (length payload)) # (if length payload = 0 then [] else [payload])"

text \<open>What the \<^verbatim>\<open>ReadFull\<close> that \<^verbatim>\<open>readFrame\<close> is in still asks for, given what it has got; zero when it has a frame.\<close>

definition wants :: "bytes \<Rightarrow> nat" where
  "wants got = (if length got < 2 then 2 - length got else 2 + unat (get_be16 got) - length got)"

text \<open>\<open>pending\<close> are the writes the sender has not come back from, the first of them what is left of it.\<close>

record direction =
  pending :: "bytes list"
  got :: bytes

text \<open>One read of the receiver meets the write the sender is in: it takes what it asked for or what there
  is, and the write returns when nothing is left of it.\<close>

inductive pipe_move :: "direction \<Rightarrow> direction \<Rightarrow> bool" where
  "pending d = w # ws \<Longrightarrow> 0 < wants (got d) \<Longrightarrow> n = min (wants (got d)) (length w) \<Longrightarrow>
   pipe_move d (d\<lparr>pending := (if n < length w then drop n w # ws else ws), got := got d @ take n w\<rparr>)"

inductive_cases pipe_moveE: "pipe_move d e"

section \<open>Two sides\<close>

record pipe_exchange =
  to_peer :: direction
  from_peer :: direction

definition exchange_begin :: "bytes \<Rightarrow> bytes \<Rightarrow> pipe_exchange" where
  "exchange_begin p q = \<lparr>to_peer = \<lparr>pending = frame_writes p, got = []\<rparr>, from_peer = \<lparr>pending = frame_writes q, got = []\<rparr>\<rparr>"

text \<open>The goroutines of the code: both sides write and read at the same time.\<close>

inductive concurrent_step :: "pipe_exchange \<Rightarrow> pipe_exchange \<Rightarrow> bool" where
  outward: "pipe_move (to_peer x) d \<Longrightarrow> concurrent_step x (x\<lparr>to_peer := d\<rparr>)"
| inward: "pipe_move (from_peer x) d \<Longrightarrow> concurrent_step x (x\<lparr>from_peer := d\<rparr>)"

text \<open>The alternative that the comment of the code rejects: each side reads only after its own writes have
  returned.\<close>

inductive sequential_step :: "pipe_exchange \<Rightarrow> pipe_exchange \<Rightarrow> bool" where
  outward_after: "pending (from_peer x) = [] \<Longrightarrow> pipe_move (to_peer x) d \<Longrightarrow> sequential_step x (x\<lparr>to_peer := d\<rparr>)"
| inward_after: "pending (to_peer x) = [] \<Longrightarrow> pipe_move (from_peer x) d \<Longrightarrow> sequential_step x (x\<lparr>from_peer := d\<rparr>)"

inductive_cases sequential_stepE: "sequential_step x y"

section \<open>What has been moved\<close>

definition carries_frame :: "bytes \<Rightarrow> direction \<Rightarrow> bool" where
  "carries_frame p d \<longleftrightarrow> got d @ concat (pending d) = noise_frame p \<and> [] \<notin> set (pending d)"

lemma carries_frame_begin: "carries_frame p \<lparr>pending = frame_writes p, got = []\<rparr>"
proof -
  have "put_be16 (word_of_nat (length p)) \<noteq> []" using length_put(1) by (metis list.size(3) zero_neq_numeral)
  then show ?thesis by (auto simp: carries_frame_def frame_writes_def noise_frame_def)
qed

lemma carries_frame_move: "pipe_move d e \<Longrightarrow> carries_frame p d \<Longrightarrow> carries_frame p e"
proof (induction rule: pipe_move.induct)
  case (1 d w ws n)
  have split: "take k w @ drop k w @ r = w @ r" for k and r :: bytes by (metis append.assoc append_take_drop_id)
  from 1 show ?case by (auto simp: carries_frame_def split)
qed

text \<open>A receiver never stops before the frame of the sender is complete.\<close>

lemma wants_more:
  assumes "frameable p" "carries_frame p d" "pending d \<noteq> []"
  shows "0 < wants (got d)"
proof (cases "length (got d) < 2")
  case False
  from assms(2,3) have more: "0 < length (concat (pending d))" by (cases "pending d") (auto simp: carries_frame_def)
  have eq: "got d @ concat (pending d) = put_be16 (word_of_nat (length p)) @ p"
    using assms(2) by (simp add: carries_frame_def noise_frame_def)
  have "take 2 (got d @ concat (pending d)) = put_be16 (word_of_nat (length p))" unfolding eq by simp
  then have "take 2 (got d) = put_be16 (word_of_nat (length p))" using False by simp
  then have "get_be16 (got d) = word_of_nat (length p)"
    by (metis append_take_drop_id get_put(1))
  then have "unat (get_be16 (got d)) = length p" using frame_length_word [OF assms(1)] by simp
  moreover have "length (got d) + length (concat (pending d)) = 2 + length p"
    using arg_cong [OF eq, of length] by simp
  ultimately have "length (got d) < 2 + unat (get_be16 (got d))" using more by linarith
  then show ?thesis using False by (simp add: wants_def)
qed (simp add: wants_def)

lemma pipe_move_enabled:
  assumes "frameable p" "carries_frame p d" "pending d \<noteq> []"
  shows "\<exists>e. pipe_move d e"
  using assms(3) pipe_move.intros [OF _ wants_more [OF assms] refl] by (cases "pending d") auto

lemma carries_frame_done: "carries_frame p d \<Longrightarrow> pending d = [] \<Longrightarrow> got d = noise_frame p"
  by (simp add: carries_frame_def)

definition exchange_carries :: "bytes \<Rightarrow> bytes \<Rightarrow> pipe_exchange \<Rightarrow> bool" where
  "exchange_carries p q x \<longleftrightarrow> carries_frame p (to_peer x) \<and> carries_frame q (from_peer x)"

lemma exchange_carries_begin: "exchange_carries p q (exchange_begin p q)"
  by (simp add: exchange_carries_def exchange_begin_def carries_frame_begin)

lemma exchange_carries_step: "concurrent_step x y \<Longrightarrow> exchange_carries p q x \<Longrightarrow> exchange_carries p q y"
  by (induction rule: concurrent_step.induct) (auto simp: exchange_carries_def intro: carries_frame_move)

lemma exchange_carries_reachable:
  "concurrent_step\<^sup>*\<^sup>* (exchange_begin p q) x \<Longrightarrow> exchange_carries p q x"
  by (induction rule: rtranclp_induct) (auto intro: exchange_carries_begin exchange_carries_step)

section \<open>Every run comes to its end\<close>

definition direction_rank :: "direction \<Rightarrow> nat" where
  "direction_rank d = length (concat (pending d)) + length (pending d)"

lemma pipe_move_decreases: "pipe_move d e \<Longrightarrow> direction_rank e < direction_rank d"
  by (induction rule: pipe_move.induct) (auto simp: direction_rank_def)

definition pipe_rank :: "pipe_exchange \<Rightarrow> nat" where
  "pipe_rank x = direction_rank (to_peer x) + direction_rank (from_peer x)"

interpretation pipe_runs: bounded_steps concurrent_step pipe_rank
proof
  fix x y
  assume "concurrent_step x y"
  then show "pipe_rank y < pipe_rank x"
    by (induction rule: concurrent_step.induct) (auto simp: pipe_rank_def dest: pipe_move_decreases)
qed

lemma pipe_rank_begin: "pipe_rank (exchange_begin p q) \<le> length p + length q + 8"
  by (simp add: pipe_rank_def direction_rank_def exchange_begin_def frame_writes_def)

lemma exchange_stuck:
  assumes "frameable p" "frameable q" "exchange_carries p q x" "\<nexists>y. concurrent_step x y"
  shows "x = \<lparr>to_peer = \<lparr>pending = [], got = noise_frame p\<rparr>, from_peer = \<lparr>pending = [], got = noise_frame q\<rparr>\<rparr>"
proof -
  have c: "carries_frame p (to_peer x)" "carries_frame q (from_peer x)"
    using assms(3) by (simp_all add: exchange_carries_def)
  have e: "pending (to_peer x) = []" "pending (from_peer x) = []"
    using assms(4) pipe_move_enabled [OF assms(1) c(1)] pipe_move_enabled [OF assms(2) c(2)]
      concurrent_step.intros by blast+
  then show ?thesis using carries_frame_done [OF c(1)] carries_frame_done [OF c(2)]
    by (intro pipe_exchange.equality direction.equality) simp_all
qed

lemma Session_SendFrame_frame:
  assumes "Session_SendFrame K plaintext s = (Inr (), s')" "Encrypt K plaintext (tx s) = (Inr c, t)" "room (session_conn s) = None"
  shows "frameable c" "outb (session_conn s') = outb (session_conn s) @ noise_frame c"
proof -
  have "writeFrame c (session_conn s) = (Inr (), session_conn s')"
    using assms(1,2) by (auto simp: Session_SendFrame_def io_bind_Inr on_part_eq)
  moreover from this show f: "frameable c"
    by (auto simp: writeFrame_def frameable_def maxFrameLength_def split: if_splits)
  ultimately show "outb (session_conn s') = outb (session_conn s) @ noise_frame c"
    using writeFrame_ok [OF f assms(3)] by (metis conn.select_convs(2) conn.surjective conn.update_convs(2) prod.inject)
qed

text \<open>
  C14. The identity exchange cannot deadlock on an unbuffered connection. Two sessions send their
  identity frames to each other over a pipe whose writes wait for reads. However the reads and writes
  of the four goroutines interleave, the run ends after at most as many steps as there are bytes, and
  four more for each frame, and it ends nowhere but with all writes returned and each side having read exactly
  what the other has written. Were each side to write before it reads, nothing could ever move.
\<close>

theorem pipe_exchange_completes:
  assumes us: "Session_SendFrame K f us = (Inr (), us')" "Encrypt K f (tx us) = (Inr p, t)" "room (session_conn us) = None"
    and peer: "Session_SendFrame K g peer = (Inr (), peer')" "Encrypt K g (tx peer) = (Inr q, u)" "room (session_conn peer) = None"
  shows "(\<exists>y. concurrent_step\<^sup>*\<^sup>* (exchange_begin p q) y \<and> (\<nexists>z. concurrent_step y z)) \<and>
    ((concurrent_step ^^ n) (exchange_begin p q) y \<longrightarrow> n \<le> length p + length q + 8 \<and>
      ((\<nexists>z. concurrent_step y z) \<longrightarrow>
        pending (to_peer y) = [] \<and> pending (from_peer y) = [] \<and>
        outb (session_conn us') = outb (session_conn us) @ got (to_peer y) \<and>
        outb (session_conn peer') = outb (session_conn peer) @ got (from_peer y))) \<and>
    (\<nexists>z. sequential_step (exchange_begin p q) z)"
proof (intro conjI impI)
  note p = Session_SendFrame_frame [OF us] and q = Session_SendFrame_frame [OF peer]
  show "\<exists>y. concurrent_step\<^sup>*\<^sup>* (exchange_begin p q) y \<and> (\<nexists>z. concurrent_step y z)"
    by (rule pipe_runs.run_ends)
  show "\<nexists>z. sequential_step (exchange_begin p q) z"
    by (auto simp: exchange_begin_def frame_writes_def elim!: sequential_stepE)
  assume run: "(concurrent_step ^^ n) (exchange_begin p q) y"
  show "n \<le> length p + length q + 8"
    using pipe_runs.run_bounded [OF run] pipe_rank_begin [of p q] by simp
  assume "\<nexists>z. concurrent_step y z"
  from exchange_stuck [OF p(1) q(1) exchange_carries_reachable [OF relpowp_imp_rtranclp [OF run]] this]
  have y: "pending (to_peer y) = []" "pending (from_peer y) = []" "got (to_peer y) = noise_frame p"
    "got (from_peer y) = noise_frame q" by simp_all
  show "pending (to_peer y) = []" "pending (from_peer y) = []" by (fact y)+
  show "outb (session_conn us') = outb (session_conn us) @ got (to_peer y)"
    "outb (session_conn peer') = outb (session_conn peer) @ got (from_peer y)" using y p(2) q(2) by simp_all
qed

theorem pipe_exchange_completes_witness:
  "\<exists>p q y. concurrent_step\<^sup>*\<^sup>* (exchange_begin p q) y \<and> (\<nexists>z. concurrent_step y z) \<and>
     (\<nexists>z. sequential_step (exchange_begin p q) z)"
proof -
  let ?us = "session sample_adapter"
  have enc: "Encrypt counter_cipher [1] (tx ?us) = (Inr (1 # counter_tag 0), 1)"
    by (simp add: sample_adapter_def newSessionReadWriteCloser_def counter_cipher_def MaxNonce_def)
  have room: "room (session_conn ?us) = None"
    by (simp add: sample_adapter_def newSessionReadWriteCloser_def reader_of_def)
  obtain us' where "Session_SendFrame counter_cipher [1] ?us = (Inr (), us')"
    using enc room writeFrame_ok [of "1 # counter_tag 0" "session_conn ?us"]
    by (auto simp: Session_SendFrame_def io_bind_def wrap_err_def on_tx_def on_conn_def frameable_def counter_tag_def)
  from pipe_exchange_completes [OF this enc room this enc room, of 0 "exchange_begin _ _"] show ?thesis by blast
qed

end
