(* ===== verification/Peer_Store.thy ===== *)
theory Peer_Store
  imports Responder Multiaddr "HOL-Library.Multiset"
begin

text \<open>
  \<^verbatim>\<open>src/cmd/p2p-responder-spike/main.go\<close>: the addresses to advertise, the key file and the store of
  peers seen in the last hour. The file system and the clock are arguments; the order in which Go
  iterates over a map is an argument too, any rearrangement of the entries.
\<close>

section \<open>Advertised addresses\<close>

definition parseAdvertisedAddresses :: "string \<Rightarrow> string \<Rightarrow> go_error + bytes list" where
  "parseAdvertisedAddresses publicTCPAddr onion3Addr =
     (if publicTCPAddr = [] \<and> onion3Addr = [] then
        Inl (Errorf ''at least one of -public-tcp-addr or -onion3-addr must be set: a COMMUNICATION_NODE peer with no advertised addresses is rejected by real Tari nodes' peer validation and would start unreachable'')
      else
        case (if publicTCPAddr = [] then Inr []
              else case EncodeMultiaddrString publicTCPAddr of
                Inl e \<Rightarrow> Inl (Wrap ''-public-tcp-addr %q: %w'' e)
              | Inr encoded \<Rightarrow> Inr [encoded]) of
          Inl e \<Rightarrow> Inl e
        | Inr out \<Rightarrow>
            if onion3Addr = [] then Inr out
            else case EncodeMultiaddrString onion3Addr of
              Inl e \<Rightarrow> Inl (Wrap ''-onion3-addr %q: %w'' e)
            | Inr encoded \<Rightarrow> Inr (out @ [encoded]))"

section \<open>The key file\<close>

record machine =
  files :: "string \<rightharpoonup> bytes"
  unreadable :: "string \<Rightarrow> bool"
  unwritable :: "string \<Rightarrow> bool"
  rand_Reader :: conn

definition keyFileSize :: nat where "keyFileSize = 64"

datatype read_result = NotExist | ReadError go_error | Contents bytes

definition ReadFile :: "machine \<Rightarrow> string \<Rightarrow> read_result" where
  "ReadFile m path =
     (case files m path of
        None \<Rightarrow> NotExist
      | Some raw \<Rightarrow> if unreadable m path then ReadError (Errorf ''permission denied'') else Contents raw)"

definition WriteFile :: "string \<Rightarrow> bytes \<Rightarrow> (machine, unit) io" where
  "WriteFile path raw m =
     (if unwritable m path then (Inl (Errorf ''permission denied''), m)
      else (Inr (), m\<lparr>files := (files m)(path \<mapsto> raw)\<rparr>))"

definition generate_and_save :: "('sc, 'pt) ristretto_lib \<Rightarrow> string \<Rightarrow> (machine, DHKey) io" where
  "generate_and_save R path m =
     (case GenerateRistrettoKeypair R (rand_Reader m) of
        (Inl e, rnd) \<Rightarrow> (Inl (Wrap ''generating a fresh keypair: %w'' e), m\<lparr>rand_Reader := rnd\<rparr>)
      | (Inr keypair, rnd) \<Rightarrow>
          if path = [] then (Inr keypair, m\<lparr>rand_Reader := rnd\<rparr>)
          else (case WriteFile path (Private keypair @ Public keypair) (m\<lparr>rand_Reader := rnd\<rparr>) of
                  (Inl e, m') \<Rightarrow> (Inl (Wrap ''saving fresh keypair to %s: %w'' e), m')
                | (Inr _, m') \<Rightarrow> (Inr keypair, m')))"

definition loadOrGenerateKeypair :: "('sc, 'pt) ristretto_lib \<Rightarrow> string \<Rightarrow> (machine, DHKey) io" where
  "loadOrGenerateKeypair R path m =
     (if path = [] then generate_and_save R path m
      else case ReadFile m path of
        Contents raw \<Rightarrow>
          if length raw \<noteq> keyFileSize then (Inl (Errorf ''key file %s has %d bytes, want %d''), m)
          else (Inr \<lparr>Private = take 32 raw, Public = drop 32 raw\<rparr>, m)
      | ReadError e \<Rightarrow> (Inl (Wrap ''reading key file %s: %w'' e), m)
      | NotExist \<Rightarrow> generate_and_save R path m)"

section \<open>The peer store\<close>

definition seenPeerWindow :: int where "seenPeerWindow = 3600 * 1000000000"
definition maxServedPeers :: nat where "maxServedPeers = 200"

record seenPeer =
  info :: "pb_PeerInfo option"
  seenAt :: int

type_synonym peerStore = "(string \<times> seenPeer) list"

definition newPeerStore :: peerStore where
  "newPeerStore = []"

text \<open>A map as a list of its entries; assigning to a key replaces its entry.\<close>

fun assign :: "'a \<Rightarrow> 'b \<Rightarrow> ('a \<times> 'b) list \<Rightarrow> ('a \<times> 'b) list" where
  "assign k v [] = [(k, v)]"
| "assign k v ((k', v') # xs) = (if k = k' then (k, v) # xs else (k', v') # assign k v xs)"

definition peer_record :: "bytes \<Rightarrow> PeerInfo \<Rightarrow> pb_PeerInfo" where
  "peer_record peerStaticKey identity = \<lparr>peer_PublicKey = peerStaticKey,
     peer_Claims = [Some \<lparr>claim_Addresses = Addresses identity, claim_PeerFeatures = Features identity,
       claim_IdentitySignature = None\<rparr>]\<rparr>"

definition Record :: "int \<Rightarrow> bytes \<Rightarrow> PeerInfo \<Rightarrow> peerStore \<Rightarrow> peerStore" where
  "Record now peerStaticKey identity s =
     assign (hex_encode peerStaticKey) \<lparr>info = Some (peer_record peerStaticKey identity), seenAt = now\<rparr> s"

definition prune :: "int \<Rightarrow> peerStore \<Rightarrow> peerStore" where
  "prune now s = filter (\<lambda>(key, p). \<not> now - seenAt p > seenPeerWindow) s"

fun collect :: "pb_PeerInfo option list \<Rightarrow> peerStore \<Rightarrow> pb_PeerInfo option list" where
  "collect out [] = out"
| "collect out ((key, p) # ps) =
     (let out = out @ [info p] in if length out \<ge> maxServedPeers then out else collect out ps)"

text \<open>\<open>order\<close> is the order of the iteration that collects the result; the one that deletes can be in any.\<close>

definition List :: "(peerStore \<Rightarrow> peerStore) \<Rightarrow> int \<Rightarrow> peerStore \<Rightarrow> pb_PeerInfo option list \<times> peerStore" where
  "List order now s = (let s' = prune now s in (collect [] (order s'), s'))"

section \<open>The configuration the program serves with\<close>

text \<open>The callbacks of \<^verbatim>\<open>run\<close>; \<open>now\<close> gives the clock at each call from the state of a clock beside the
  store.\<close>

definition spike_config :: "(peerStore \<Rightarrow> peerStore) \<Rightarrow> DHKey \<Rightarrow> bytes list \<Rightarrow> (int \<times> peerStore) ResponderConfig" where
  "spike_config order staticKeypair ourAddresses = \<lparr>StaticKeypair = staticKeypair,
     OurFeatures = FeaturesCommunicationNode, OurAddresses = ourAddresses,
     PeerListProvider = Some (\<lambda>(now, s). case List order now s of (out, s') \<Rightarrow> (out, (now, s'))),
     OnPeerIdentity = Some (\<lambda>key identity (now, s). (now, Record now key identity s)),
     ConnectionTimeout = 0\<rparr>"

section \<open>What the store holds\<close>

datatype store_event = Recorded int bytes PeerInfo | Listed int

fun event_time :: "store_event \<Rightarrow> int" where
  "event_time (Recorded t k i) = t"
| "event_time (Listed t) = t"

fun apply_event :: "(peerStore \<Rightarrow> peerStore) \<Rightarrow> peerStore \<Rightarrow> store_event \<Rightarrow> peerStore" where
  "apply_event order s (Recorded t k i) = Record t k i s"
| "apply_event order s (Listed t) = snd (List order t s)"

text \<open>The abstract store: for each peer, when and with what identity it was last recorded.\<close>

fun last_seen :: "(bytes \<rightharpoonup> int \<times> PeerInfo) \<Rightarrow> store_event \<Rightarrow> (bytes \<rightharpoonup> int \<times> PeerInfo)" where
  "last_seen m (Recorded t k i) = m(k \<mapsto> (t, i))"
| "last_seen m (Listed t) = m"

text \<open>The concrete entry of a peer.\<close>

definition entry :: "bytes \<Rightarrow> int \<Rightarrow> PeerInfo \<Rightarrow> string \<times> seenPeer" where
  "entry k t i = (hex_encode k, \<lparr>info = Some (peer_record k i), seenAt = t\<rparr>)"

definition implements :: "int \<Rightarrow> peerStore \<Rightarrow> (bytes \<rightharpoonup> int \<times> PeerInfo) \<Rightarrow> bool" where
  "implements now s m \<longleftrightarrow> distinct (map fst s) \<and>
     (\<forall>e \<in> set s. \<exists>k t i. e = entry k t i \<and> m k = Some (t, i)) \<and>
     (\<forall>k t i. m k = Some (t, i) \<and> now - t \<le> seenPeerWindow \<longrightarrow> entry k t i \<in> set s)"

lemma hex_encode_inject [simp]: "hex_encode a = hex_encode b \<longleftrightarrow> a = b"
  by (metis hex_decode_encode option.inject)

lemma entry_sel [simp]: "fst (entry k t i) = hex_encode k" "seenAt (snd (entry k t i)) = t"
  "info (snd (entry k t i)) = Some (peer_record k i)"
  by (simp_all add: entry_def)

lemma assign_keys: "set (map fst (assign k v xs)) = insert k (set (map fst xs))"
proof (induction xs)
  case (Cons a xs)
  then show ?case by (cases a) (simp add: insert_commute)
qed simp

lemma distinct_assign: "distinct (map fst xs) \<Longrightarrow> distinct (map fst (assign k v xs))"
proof (induction xs)
  case (Cons a xs)
  then show ?case using assign_keys [of k v xs] by (cases a) (simp del: set_map)
qed simp

lemma set_assign: "distinct (map fst xs) \<Longrightarrow> set (assign k v xs) = insert (k, v) {e \<in> set xs. fst e \<noteq> k}"
proof (induction xs)
  case (Cons a xs)
  then show ?case by (cases a; cases "k = fst a") (auto simp: image_iff)
qed simp

lemma Record_entry: "Record t k i s = assign (fst (entry k t i)) (snd (entry k t i)) s"
  by (simp add: Record_def entry_def)

lemma implements_Record:
  assumes "implements now s m" "now \<le> t"
  shows "implements t (Record t k i s) (m(k \<mapsto> (t, i)))"
proof -
  have d: "distinct (map fst s)" using assms(1) by (simp add: implements_def)
  have set: "set (Record t k i s) = insert (entry k t i) {e \<in> set s. fst e \<noteq> hex_encode k}"
    unfolding Record_entry set_assign [OF d] by (simp add: entry_def)
  show ?thesis unfolding implements_def
  proof (intro conjI allI impI ballI)
    show "distinct (map fst (Record t k i s))" unfolding Record_entry by (rule distinct_assign [OF d])
    fix e assume "e \<in> set (Record t k i s)"
    then show "\<exists>k' t' i'. e = entry k' t' i' \<and> (m(k \<mapsto> (t, i))) k' = Some (t', i')"
      using assms(1) unfolding set implements_def by fastforce
  next
    fix k' t' i' assume h: "(m(k \<mapsto> (t, i))) k' = Some (t', i') \<and> t - t' \<le> seenPeerWindow"
    show "entry k' t' i' \<in> set (Record t k i s)"
    proof (cases "k' = k")
      case False
      with h assms(2) have "m k' = Some (t', i')" "now - t' \<le> seenPeerWindow" by auto
      then have "entry k' t' i' \<in> set s" using assms(1) by (auto simp: implements_def)
      with False show ?thesis by (simp add: set)
    next
      case True
      with h have "t' = t" "i' = i" by auto
      with True show ?thesis by (simp only: set insertI1)
    qed
  qed
qed

lemma implements_prune:
  assumes "implements now s m" "now \<le> t"
  shows "implements t (prune t s) m"
  unfolding implements_def
proof (intro conjI allI impI ballI)
  show "distinct (map fst (prune t s))"
    using assms(1) by (simp add: implements_def prune_def distinct_map_filter)
  fix e assume "e \<in> set (prune t s)"
  then show "\<exists>k t' i. e = entry k t' i \<and> m k = Some (t', i)"
    using assms(1) by (simp add: implements_def prune_def)
next
  fix k t' i assume h: "m k = Some (t', i) \<and> t - t' \<le> seenPeerWindow"
  with assms have "entry k t' i \<in> set s" by (simp add: implements_def)
  with h show "entry k t' i \<in> set (prune t s)" by (simp add: prune_def entry_def)
qed

lemma implements_run:
  assumes "sorted (map event_time es)" "\<forall>e \<in> set es. now0 \<le> event_time e" "implements now0 s m"
    "now = (if es = [] then now0 else event_time (last es))"
  shows "implements now (foldl (apply_event order) s es) (foldl last_seen m es)"
  using assms
proof (induction es arbitrary: now0 s m)
  case (Cons e es)
  have step: "implements (event_time e) (apply_event order s e) (last_seen m e)"
    using Cons.prems by (cases e) (simp_all add: implements_Record List_def Let_def implements_prune)
  have "implements now (foldl (apply_event order) (apply_event order s e) es) (foldl last_seen (last_seen m e) es)"
    by (rule Cons.IH [OF _ _ step]) (use Cons.prems in auto)
  then show ?case by simp
qed simp

lemma implements_later:
  assumes "implements now s m" "now \<le> t"
  shows "implements t s m"
proof -
  have "now - t' \<le> seenPeerWindow" if "t - t' \<le> seenPeerWindow" for t' using that assms(2) by linarith
  with assms(1) show ?thesis unfolding implements_def by blast
qed

lemma collect_take: "length out < maxServedPeers \<Longrightarrow>
  collect out xs = out @ map (\<lambda>e. info (snd e)) (take (maxServedPeers - length out) xs)"
proof (induction xs arbitrary: out)
  case (Cons e xs)
  then show ?case
  proof (cases "Suc (length out) = maxServedPeers")
    case True
    then have "maxServedPeers - length out = 1" by simp
    with True show ?thesis by (cases e) (simp add: Let_def)
  next
    case False
    with Cons have "collect (out @ [info (snd e)]) xs = (out @ [info (snd e)]) @
        map (\<lambda>e. info (snd e)) (take (maxServedPeers - Suc (length out)) xs)" by simp
    moreover have "maxServedPeers - length out = Suc (maxServedPeers - Suc (length out))" using Cons.prems by simp
    ultimately show ?thesis using False Cons.prems by (cases e) (simp add: Let_def)
  qed
qed simp

section \<open>Properties\<close>

text \<open>The peers that were last recorded at most an hour before \<open>now\<close>.\<close>

definition recent :: "int \<Rightarrow> (bytes \<rightharpoonup> int \<times> PeerInfo) \<Rightarrow> pb_PeerInfo option set" where
  "recent now m = {Some (peer_record k i) | k t i. m k = Some (t, i) \<and> now - t \<le> seenPeerWindow}"

lemma implements_recent:
  assumes "implements now s m"
  shows "(\<lambda>e. info (snd e)) ` set (prune now s) = recent now m" "distinct (map (\<lambda>e. info (snd e)) (prune now s))"
proof -
  note p = implements_prune [OF assms order_refl]
  show "(\<lambda>e. info (snd e)) ` set (prune now s) = recent now m"
  proof (intro equalityI subsetI)
    fix x assume "x \<in> (\<lambda>e. info (snd e)) ` set (prune now s)"
    then obtain e where e: "e \<in> set (prune now s)" "x = info (snd e)" by auto
    then obtain k t i where k: "e = entry k t i" "m k = Some (t, i)" using p by (auto simp: implements_def)
    moreover have "now - t \<le> seenPeerWindow" using e(1) k(1) by (simp add: prune_def entry_def)
    ultimately show "x \<in> recent now m" using e(2) by (auto simp: recent_def)
  next
    fix x assume "x \<in> recent now m"
    then obtain k t i where k: "x = Some (peer_record k i)" "m k = Some (t, i)" "now - t \<le> seenPeerWindow"
      by (auto simp: recent_def)
    then have "entry k t i \<in> set (prune now s)" using p by (auto simp: implements_def)
    then have "info (snd (entry k t i)) \<in> (\<lambda>e. info (snd e)) ` set (prune now s)" by (rule imageI)
    with k(1) show "x \<in> (\<lambda>e. info (snd e)) ` set (prune now s)" by simp
  qed
  have "inj_on (\<lambda>e. info (snd e)) (set (prune now s))"
  proof (rule inj_onI)
    fix e e' assume h: "e \<in> set (prune now s)" "e' \<in> set (prune now s)" "info (snd e) = info (snd e')"
    then obtain k t i k' t' i' where k: "e = entry k t i" "m k = Some (t, i)" "e' = entry k' t' i'" "m k' = Some (t', i')"
      using p unfolding implements_def by meson
    with h(3) have "k = k'" by (simp add: peer_record_def)
    with k show "e = e'" by simp
  qed
  moreover have "distinct (prune now s)" using p by (auto simp: implements_def distinct_map)
  ultimately show "distinct (map (\<lambda>e. info (snd e)) (prune now s))" by (simp add: distinct_map)
qed

text \<open>
  C10. The peer store refines its specification. After any history of records and lists in the order
  of time, the list of peers served at a later time, in whatever order Go iterates over the map,
  has no duplicates and at most 200 entries, each the last recorded identity of a peer recorded
  within the last hour; it is all of these if there are at most 200 of them, and 200 otherwise.
\<close>

theorem peer_store_refines:
  assumes "sorted (map event_time es)" "\<forall>e \<in> set es. event_time e \<le> now" "\<And>s. mset (order s) = mset s"
  shows "\<exists>out s'. List order now (foldl (apply_event order) newPeerStore es) = (out, s') \<and> distinct out \<and>
    length out = min maxServedPeers (card (recent now (foldl last_seen Map.empty es))) \<and>
    set out \<subseteq> recent now (foldl last_seen Map.empty es) \<and>
    (set out = recent now (foldl last_seen Map.empty es) \<or>
      \<not> card (recent now (foldl last_seen Map.empty es)) \<le> maxServedPeers)"
proof -
  let ?s = "foldl (apply_event order) newPeerStore es" and ?m = "foldl last_seen Map.empty es"
  have "implements (if es = [] then now else event_time (last es)) ?s ?m"
  proof (cases es)
    case (Cons e es')
    have "implements (event_time e) newPeerStore Map.empty" by (simp add: implements_def newPeerStore_def)
    from implements_run [OF assms(1) _ this refl, of order] assms(1) Cons show ?thesis by auto
  qed (simp add: implements_def newPeerStore_def)
  moreover have "(if es = [] then now else event_time (last es)) \<le> now" using assms(2) by auto
  ultimately have "implements now ?s ?m" by (rule implements_later)
  note r = implements_recent [OF this]
  let ?f = "\<lambda>e :: string \<times> seenPeer. info (snd e)" and ?p = "prune now ?s"
  let ?all = "map ?f (order ?p)"
  have ms: "mset ?all = mset (map ?f ?p)" using assms(3) [of ?p] by simp
  then have all: "set ?all = recent now ?m" "distinct ?all"
    using r by (metis image_set set_mset_mset, metis mset_eq_imp_distinct_iff)
  then have card: "card (recent now ?m) = length ?all" using distinct_card by metis
  have out: "fst (List order now ?s) = take maxServedPeers ?all"
    using collect_take [of "[]" "order ?p"] by (simp add: List_def Let_def take_map maxServedPeers_def)
  have "set (take maxServedPeers ?all) = recent now ?m" if "card (recent now ?m) \<le> maxServedPeers"
    using that all card by simp
  moreover have "distinct (take maxServedPeers ?all)" "set (take maxServedPeers ?all) \<subseteq> recent now ?m"
    "length (take maxServedPeers ?all) = min maxServedPeers (card (recent now ?m))"
    using all card set_take_subset [of maxServedPeers ?all] by auto
  moreover obtain s' where "List order now ?s = (take maxServedPeers ?all, s')"
    using out by (metis prod.collapse)
  ultimately show ?thesis by blast
qed

definition sample_identity :: "u32 \<Rightarrow> PeerInfo" where
  "sample_identity f = \<lparr>Reachable = True, RemoteStaticPubKey = [], Addresses = [], Features = f, SupportedProtocols = [],
     UserAgent = [], info_IdentitySignature = None, Latency = 0\<rparr>"

definition sample_events :: "store_event list" where
  "sample_events = [Recorded 0 [1] (sample_identity 1), Listed 1, Recorded 2 [2] (sample_identity 2),
     Recorded 3600000000001 [1] (sample_identity 3)]"

theorem peer_store_refines_witness:
  "\<exists>out s'. List rev 3600000000003 (foldl (apply_event rev) newPeerStore sample_events) = (out, s') \<and> distinct out \<and>
    length out = min maxServedPeers (card (recent 3600000000003 (foldl last_seen Map.empty sample_events))) \<and>
    set out \<subseteq> recent 3600000000003 (foldl last_seen Map.empty sample_events) \<and>
    (set out = recent 3600000000003 (foldl last_seen Map.empty sample_events) \<or>
      \<not> card (recent 3600000000003 (foldl last_seen Map.empty sample_events)) \<le> maxServedPeers)"
  by (rule peer_store_refines) (simp_all add: sample_events_def)

text \<open>
  C26. The key of a responder is stable: whatever key pair the program starts with when a key file is
  configured, loaded or freshly generated, starting it again gives the same key pair, without using
  any randomness or changing the file.
\<close>

theorem key_file_stable:
  assumes "ristretto_group R" "path \<noteq> []" "\<not> unreadable m path" "loadOrGenerateKeypair R path m = (Inr k, m')"
  shows "loadOrGenerateKeypair R path m' = (Inr k, m')"
proof (cases "files m path")
  case None
  with assms(2,4) have g: "generate_and_save R path m = (Inr k, m')"
    by (simp add: loadOrGenerateKeypair_def ReadFile_def)
  then obtain rnd where k: "GenerateRistrettoKeypair R (rand_Reader m) = (Inr k, rnd)"
    and m': "m' = m\<lparr>rand_Reader := rnd, files := (files m)(path \<mapsto> Private k @ Public k)\<rparr>"
    using assms(2) by (auto simp: generate_and_save_def WriteFile_def split: prod.splits sum.splits if_splits)
  from ristretto_group.keypair_from_Inr [OF assms(1) k [unfolded GenerateRistrettoKeypair_eq]]
  obtain s where s: "k = key_of R s" by blast
  then have len: "length (Private k) = 32" "length (Public k) = 32"
    using ristretto_group.scalar_length [OF assms(1)] ristretto_group.element_length [OF assms(1)] by simp_all
  have "k = \<lparr>Private = Private k, Public = Public k\<rparr>" by simp
  with len show ?thesis
    using assms(2,3) by (simp add: m' loadOrGenerateKeypair_def ReadFile_def keyFileSize_def)
next
  case (Some raw)
  with assms show ?thesis by (auto simp: loadOrGenerateKeypair_def ReadFile_def split: if_splits)
qed

definition sample_machine :: machine where
  "sample_machine = \<lparr>files = Map.empty, unreadable = (\<lambda>_. False), unwritable = (\<lambda>_. False),
     rand_Reader = reader_of (replicate 64 7)\<rparr>"

theorem key_file_stable_witness:
  "\<exists>k m'. loadOrGenerateKeypair residue_lib ''key'' sample_machine = (Inr k, m') \<and>
     loadOrGenerateKeypair residue_lib ''key'' m' = (Inr k, m')"
proof -
  have "64 \<le> length (inb (rand_Reader sample_machine))" by (simp add: sample_machine_def reader_of_def)
  from residues.keypair_from_ok [OF this] obtain k m' where
    "loadOrGenerateKeypair residue_lib ''key'' sample_machine = (Inr k, m')"
    by (auto simp: loadOrGenerateKeypair_def ReadFile_def generate_and_save_def GenerateRistrettoKeypair_eq
        WriteFile_def sample_machine_def)
  moreover from this have "loadOrGenerateKeypair residue_lib ''key'' m' = (Inr k, m')"
    by (rule key_file_stable [OF residues.ristretto_group_axioms, rotated 2]) (simp_all add: sample_machine_def)
  ultimately show ?thesis by blast
qed

text \<open>
  The program never starts unreachable and what it advertises always fits: if the addresses are
  accepted there is at least one and at most two, and together they take at most 90 of the 800
  bytes an identity message has room for.
\<close>

theorem advertised_addresses_fit:
  assumes "parseAdvertisedAddresses publicTCPAddr onion3Addr = Inr out"
  shows "out \<noteq> [] \<and> length out \<le> 2 \<and> sum_list (map (\<lambda>a. 6 + length a) out) \<le> 90"
proof -
  have len: "length w \<le> 39" if "EncodeMultiaddrString s = Inr w" for s w
    using EncodeMultiaddrString_shape [OF that] by auto
  show ?thesis
    using assms by (auto simp: parseAdvertisedAddresses_def split: if_splits sum.splits dest!: len)
qed

theorem advertised_addresses_fit_witness:
  "\<exists>out. parseAdvertisedAddresses (''/ip4/'' @ dotted 203 0 113 7 @ ''/tcp/'' @ decimal (unat (18189 :: u16))) [] = Inr out \<and>
     out \<noteq> [] \<and> length out \<le> 2 \<and> sum_list (map (\<lambda>a. 6 + length a) out) \<le> 90"
proof -
  have "parseAdvertisedAddresses (''/ip4/'' @ dotted 203 0 113 7 @ ''/tcp/'' @ decimal (unat (18189 :: u16))) [] =
      Inr [[4, 203, 0, 113, 7, 6] @ put_be16 18189]"
    using EncodeMultiaddrString_ip4 [of 203 0 113 7 18189] by (simp add: parseAdvertisedAddresses_def)
  with advertised_addresses_fit [OF this] show ?thesis by blast
qed

end
