(* ===== verification/Responder_Program.thy ===== *)
theory Responder_Program
  imports Peer_Store
begin

text \<open>
  \<^verbatim>\<open>run\<close> of \<^verbatim>\<open>src/cmd/p2p-responder-spike/main.go\<close>: the responder loop of \<^verbatim>\<open>Serve\<close> with the peer store behind its
  callbacks, while time passes. The flags are arguments, listening is a parameter, a signal is the
  cancelled context with which \<^verbatim>\<open>Accept\<close> may fail at any time.
\<close>

section \<open>The program\<close>

record flags =
  flag_addr :: string
  flag_key :: string
  flag_public_tcp_addr :: string
  flag_onion3_addr :: string

definition net_ErrClosed :: go_error where "net_ErrClosed = Errorf ''use of closed network connection''"

text \<open>Up to the call of \<^verbatim>\<open>Serve\<close>: addresses, key pair, listener, configuration.\<close>

definition run_start ::
  "('sc, 'pt) ristretto_lib \<Rightarrow> (peerStore \<Rightarrow> peerStore) \<Rightarrow> (string \<Rightarrow> go_error + unit) \<Rightarrow> flags \<Rightarrow>
     (machine, (int \<times> peerStore) ResponderConfig) io" where
  "run_start R order Listen fl =
     (case parseAdvertisedAddresses (flag_public_tcp_addr fl) (flag_onion3_addr fl) of
        Inl err \<Rightarrow> io_fail err
      | Inr ourAddresses \<Rightarrow>
          io_bind (wrap_err ''setting up static keypair: %w'' (loadOrGenerateKeypair R (flag_key fl))) (\<lambda>staticKeypair.
          io_bind (wrap_result ''listening on %s: %w'' (Listen (flag_addr fl))) (\<lambda>_.
          io_return (spike_config order staticKeypair ourAddresses))))"

text \<open>A step of the running program: one of the responder loop, or of the clock.\<close>

inductive spike_step ::
  "('sc, 'pt, 'h, 'k) probe_env \<Rightarrow> proto_lib \<Rightarrow> (int \<times> peerStore) ResponderConfig \<Rightarrow>
     ('k, int \<times> peerStore) server \<Rightarrow> ('k, int \<times> peerStore) server \<Rightarrow> bool"
  for E P cfg where
  serves: "serve_step E P cfg s s' \<Longrightarrow> spike_step E P cfg s s'"
| tick: "owner s = (now, store) \<Longrightarrow> now \<le> later \<Longrightarrow> spike_step E P cfg s (s\<lparr>owner := (later, store)\<rparr>)"

text \<open>The error of a closed listener is no error of the program.\<close>

definition run_result :: "go_error + unit \<Rightarrow> go_error + unit" where
  "run_result r =
     (case r of
        Inl err \<Rightarrow> if \<not> errors_Is err net_ErrClosed then Inl (Wrap ''serving: %w'' err) else Inr ()
      | Inr _ \<Rightarrow> Inr ())"

inductive run ::
  "('sc, 'pt, 'h, 'k) probe_env \<Rightarrow> proto_lib \<Rightarrow> (peerStore \<Rightarrow> peerStore) \<Rightarrow> (string \<Rightarrow> go_error + unit) \<Rightarrow> flags \<Rightarrow> int \<Rightarrow>
     machine \<Rightarrow> go_error + unit \<Rightarrow> bool"
  for E P order Listen fl now m where
  not_started: "run_start (env_ristretto E) order Listen fl m = (Inl err, m') \<Longrightarrow> run E P order Listen fl now m (Inl err)"
| stopped: "run_start (env_ristretto E) order Listen fl m = (Inr cfg, m') \<Longrightarrow>
    (spike_step E P cfg)\<^sup>*\<^sup>* (serve_start (now, newPeerStore)) s \<Longrightarrow> serve_returned s = Some r \<Longrightarrow>
    run E P order Listen fl now m (run_result r)"

text \<open>The process: \<^verbatim>\<open>log.Fatalf\<close> ends it with status 1.\<close>

definition exit_status :: "go_error + unit \<Rightarrow> int" where
  "exit_status r = (case r of Inl err \<Rightarrow> 1 | Inr _ \<Rightarrow> 0)"

definition main ::
  "('sc, 'pt, 'h, 'k) probe_env \<Rightarrow> proto_lib \<Rightarrow> (peerStore \<Rightarrow> peerStore) \<Rightarrow> (string \<Rightarrow> go_error + unit) \<Rightarrow> flags \<Rightarrow> int \<Rightarrow>
     machine \<Rightarrow> int \<Rightarrow> bool" where
  "main E P order Listen fl now m status \<longleftrightarrow> (\<exists>r. run E P order Listen fl now m r \<and> status = exit_status r)"

lemma main_not_started:
  assumes "run_start (env_ristretto E) order Listen fl m = (Inl err, m')"
  shows "main E P order Listen fl now m status \<longleftrightarrow> status = 1"
proof -
  have "run E P order Listen fl now m r \<longleftrightarrow> r = Inl err" for r
    using assms by (auto elim: run.cases intro: run.not_started)
  then show ?thesis by (auto simp: main_def exit_status_def)
qed

lemma main_without_address:
  "flag_public_tcp_addr fl = [] \<Longrightarrow> flag_onion3_addr fl = [] \<Longrightarrow> main E P order Listen fl now m status \<longleftrightarrow> status = 1"
  by (rule main_not_started) (simp add: run_start_def parseAdvertisedAddresses_def io_fail_def)

section \<open>What the store holds while the program runs\<close>

text \<open>Every entry of the store is the record of an identity that has been reported.\<close>

definition store_inv :: "('k, int \<times> peerStore) server \<Rightarrow> bool" where
  "store_inv s \<longleftrightarrow> (\<forall>e \<in> set (snd (owner s)). \<exists>key i t. e = entry key t i \<and> (key, i) \<in> set (reported s))"

lemma assign_subset: "set (assign k v xs) \<subseteq> insert (k, v) (set xs)"
  by (induction k v xs rule: assign.induct) auto

lemma store_inv_record:
  assumes "store_inv s"
  shows "store_inv (s\<lparr>owner := (now, Record now key i (snd (owner s))), reported := reported s @ [(key, i)]\<rparr>)"
  unfolding store_inv_def
proof
  fix e assume "e \<in> set (snd (owner (s\<lparr>owner := (now, Record now key i (snd (owner s))), reported := reported s @ [(key, i)]\<rparr>)))"
  then have "e = entry key now i \<or> e \<in> set (snd (owner s))"
    using assign_subset by (fastforce simp: Record_def entry_def)
  then show "\<exists>key' i' t. e = entry key' t i' \<and>
      (key', i') \<in> set (reported (s\<lparr>owner := (now, Record now key i (snd (owner s))), reported := reported s @ [(key, i)]\<rparr>))"
    using assms by (auto simp: store_inv_def) blast
qed

lemma knownPeers_spike:
  "knownPeers (spike_config order k addrs) (now, st) = (collect [] (order (prune now st)), (now, prune now st))"
  by (simp add: knownPeers_def spike_config_def List_def Let_def)

lemma handleResponderSubstream_owner:
  assumes "handleResponderSubstream P (spike_config order k addrs) c (owner s) = (r, c', p)"
  shows "p = (fst (owner s), prune (fst (owner s)) (snd (owner s)))"
  using assms by (cases "owner s") (auto simp: handleResponderSubstream_def knownPeers_spike split: prod.splits)

lemma store_inv_subset:
  "store_inv s \<Longrightarrow> set (snd (owner s')) \<subseteq> set (snd (owner s)) \<Longrightarrow> set (reported s) \<subseteq> set (reported s') \<Longrightarrow> store_inv s'"
  unfolding store_inv_def by blast

lemma report_identity_spike:
  "report_identity (spike_config order k addrs) key i (now, st) = (now, Record now key i st)"
  by (simp add: report_identity_def spike_config_def)

lemma store_inv_serve:
  assumes "serve_step E P (spike_config order k addrs) s s'" "store_inv s"
  shows "store_inv s'"
  using assms
proof (induction rule: serve_step.induct)
  case (identity i s sess now rnd info sess')
  obtain t st where own: "owner s = (t, st)" by (cases "owner s")
  have "store_inv (set_phase i (Identified sess' info) s)"
    using identity by (auto simp: store_inv_def set_phase_def)
  from store_inv_record [OF this, where now = t and key = "PeerStaticKey sess" and i = info] show ?case
    by (simp add: own report_identity_spike set_phase_def)
next
  case (substream_served s xs c ys r c' p)
  from handleResponderSubstream_owner [OF substream_served(2)] substream_served(3) show ?case
    by (elim store_inv_subset) (auto simp: prune_def)
qed (auto simp: store_inv_def set_phase_def close_conn_def)

lemma spike_inv_reachable:
  assumes "(spike_step E P (spike_config order k addrs))\<^sup>*\<^sup>* (serve_start (now, newPeerStore)) s"
  shows "store_inv s \<and> serve_inv E (spike_config order k addrs) s"
  using assms
proof (induction rule: rtranclp_induct)
  case base
  show ?case by (simp add: serve_inv_start) (simp add: store_inv_def serve_start_def newPeerStore_def)
next
  case (step s s')
  from step.hyps(2) show ?case
  proof cases
    case serves
    with step.IH show ?thesis using store_inv_serve serve_inv_step by blast
  next
    case (tick now store later)
    with step.IH show ?thesis by (auto simp: store_inv_def serve_inv_def)
  qed
qed

section \<open>What the program serves\<close>

lemma run_start_Inr:
  assumes "run_start R order Listen fl m = (Inr cfg, m')"
  obtains k addrs where "cfg = spike_config order k addrs"
    "parseAdvertisedAddresses (flag_public_tcp_addr fl) (flag_onion3_addr fl) = Inr addrs"
    "loadOrGenerateKeypair R (flag_key fl) m = (Inr k, m')"
  using assms by (auto simp: run_start_def io_bind_Inr split: sum.splits)

lemma served_in_store:
  assumes "\<forall>st. mset (order st) = mset st" "peer \<in> set (fst (knownPeers (spike_config order k addrs) (now, st)))"
  shows "\<exists>e \<in> set st. peer = info (snd e)"
proof -
  have "set (order (prune now st)) = set (prune now st)" using assms(1) by (metis set_mset_mset)
  then have "set (order (prune now st)) \<subseteq> set st" by (auto simp: prune_def)
  moreover have "peer \<in> (\<lambda>e. info (snd e)) ` set (order (prune now st))"
    using assms(2) by (auto simp: knownPeers_spike collect_take maxServedPeers_def dest!: in_set_takeD)
  ultimately show ?thesis by blast
qed

text \<open>C7. The program passes on only peers it has authenticated itself. Started with any flags, at any point
  of its run, with time passing and connections coming and going as they like, the answer to
  \<^verbatim>\<open>get_peers\<close> has at most 200 entries, and each is the record of an identity that its own identity
  exchange returned on a session of a completed handshake, under the static key of that session. It
  runs only with at least one address to advertise.\<close>

theorem served_peers_authenticated:
  assumes "run_start (env_ristretto E) order Listen fl m = (Inr cfg, m')" "\<forall>st. mset (order st) = mset st"
    and "(spike_step E P cfg)\<^sup>*\<^sup>* (serve_start (now, newPeerStore)) s"
    and "peer \<in> set (fst (knownPeers cfg (owner s)))"
  shows "OurAddresses cfg \<noteq> [] \<and> length (fst (knownPeers cfg (owner s))) \<le> 200 \<and>
    (\<exists>key i sess ctx c c' t rnd sess'. peer = Some (peer_record key i) \<and>
      ResponderHandshake (env_noise E) (Some ctx) (StaticKeypair cfg) c = (Inr sess, c') \<and>
      ExchangeIdentityWithOptions (env_ristretto E) (env_blake2b_512 E) (env_cipher E) (env_identity E) t
        (responder_options cfg) rnd sess (Inr i) sess' \<and>
      PeerStaticKey sess = key)"
proof (rule run_start_Inr [OF assms(1)])
  fix k addrs
  assume cfg: "cfg = spike_config order k addrs"
    and addrs: "parseAdvertisedAddresses (flag_public_tcp_addr fl) (flag_onion3_addr fl) = Inr addrs"
  obtain t st where own: "owner s = (t, st)" by (cases "owner s")
  note inv = spike_inv_reachable [OF assms(3) [unfolded cfg]]
  have "length (fst (knownPeers cfg (owner s))) \<le> 200"
    by (simp add: cfg own knownPeers_spike collect_take maxServedPeers_def)
  moreover have "OurAddresses cfg \<noteq> []"
    using addrs by (auto simp: cfg spike_config_def parseAdvertisedAddresses_def split: if_splits sum.splits)
  moreover obtain key i where peer: "peer = Some (peer_record key i)" "(key, i) \<in> set (reported s)"
  proof -
    obtain e where "e \<in> set st" "peer = info (snd e)"
      using served_in_store [OF assms(2) assms(4) [unfolded cfg own]] by blast
    moreover from this inv obtain key i t where "e = entry key t i" "(key, i) \<in> set (reported s)"
      by (auto simp: store_inv_def own)
    ultimately show ?thesis using that by simp
  qed
  moreover obtain sess where "shook_hands E cfg sess" "identified E cfg sess i" "PeerStaticKey sess = key"
    using inv peer(2) unfolding cfg serve_inv_def list_all_iff by fast
  ultimately show ?thesis unfolding shook_hands_def identified_def by blast
qed

text \<open>The program started with one address and a fresh key, met by one peer.\<close>

definition sample_flags :: flags where
  "sample_flags = \<lparr>flag_addr = '':18189'', flag_key = [], flag_public_tcp_addr = ''/ip4/'' @ dotted 1 2 3 4 @ ''/tcp/'' @ decimal (unat (80 :: u16)),
     flag_onion3_addr = []\<rparr>"

lemma sample_start:
  obtains k m' where "run_start residue_lib id (\<lambda>_. Inr ()) sample_flags sample_machine =
      (Inr (spike_config id k [[4, 1, 2, 3, 4, 6] @ put_be16 80]), m')"
    "GenerateKeypair residue_lib (None, rand_Reader sample_machine) = (Inr k, (None, rand_Reader m'))"
proof -
  have "64 \<le> length (inb (rand_Reader sample_machine))" by (simp add: sample_machine_def reader_of_def)
  from residues.keypair_from_ok [OF this] obtain k r where
    k: "keypair_from residue_lib (rand_Reader sample_machine) = (Inr k, r)" by blast
  have "parseAdvertisedAddresses (flag_public_tcp_addr sample_flags) (flag_onion3_addr sample_flags) =
      Inr [[4, 1, 2, 3, 4, 6] @ put_be16 80]"
    using EncodeMultiaddrString_ip4 [of 1 2 3 4 80] by (simp add: parseAdvertisedAddresses_def sample_flags_def)
  then have "run_start residue_lib id (\<lambda>_. Inr ()) sample_flags sample_machine =
      (Inr (spike_config id k [[4, 1, 2, 3, 4, 6] @ put_be16 80]), sample_machine\<lparr>rand_Reader := r\<rparr>)"
    using k by (simp add: run_start_def io_bind_def wrap_err_def loadOrGenerateKeypair_def generate_and_save_def
        GenerateRistrettoKeypair_eq sample_flags_def)
  moreover have "GenerateKeypair residue_lib (None, rand_Reader sample_machine) =
      (Inr k, (None, rand_Reader (sample_machine\<lparr>rand_Reader := r\<rparr>)))"
    using k by (simp add: GenerateKeypair_def)
  ultimately show ?thesis by (rule that)
qed

theorem served_peers_authenticated_witness:
  "\<exists>cfg m' (s :: (nat, int \<times> peerStore) server) peer. run_start (env_ristretto sample_env) id (\<lambda>_. Inr ()) sample_flags sample_machine = (Inr cfg, m') \<and>
    peer \<in> set (fst (knownPeers cfg (owner s))) \<and> OurAddresses cfg \<noteq> [] \<and>
    length (fst (knownPeers cfg (owner s))) \<le> 200 \<and>
    (\<exists>key i sess ctx c c'. peer = Some (peer_record key i) \<and>
      ResponderHandshake (env_noise sample_env) (Some ctx) (StaticKeypair cfg) c = (Inr sess, c') \<and>
      PeerStaticKey (sess :: nat Session) = key)"
proof (rule sample_start)
  fix k m'
  assume start: "run_start residue_lib id (\<lambda>_. Inr ()) sample_flags sample_machine =
      (Inr (spike_config id k [[4, 1, 2, 3, 4, 6] @ put_be16 80]), m')"
    and k: "GenerateKeypair residue_lib (None, rand_Reader sample_machine) = (Inr k, (None, rand_Reader m'))"
  let ?cfg = "spike_config id k [[4, 1, 2, 3, 4, 6] @ put_be16 80]"
  have key: "GenerateKeypair residue_lib (None, rand_Reader sample_machine) = (Inr (StaticKeypair ?cfg), (None, rand_Reader m'))"
    and fits: "sum_list (map (\<lambda>a. 6 + length a) (OurAddresses ?cfg)) \<le> 800"
    using k by (simp_all add: spike_config_def put_be16_def)
  obtain key i s where run: "(serve_step sample_env proto3 ?cfg)\<^sup>*\<^sup>* (serve_start (7, newPeerStore)) s"
    "owner s = report_identity ?cfg key i (7, newPeerStore)"
    using sample_identified_run [OF key fits, of proto3 "(7, newPeerStore)"] by metis
  have steps: "(spike_step sample_env proto3 ?cfg)\<^sup>*\<^sup>* (serve_start (7, newPeerStore)) s"
    by (rule rtranclp_mono [THEN predicate2D, OF _ run(1)]) (auto intro: spike_step.serves)
  have peer: "Some (peer_record key i) \<in> set (fst (knownPeers ?cfg (owner s)))"
    by (simp add: run(2) report_identity_spike knownPeers_spike newPeerStore_def Record_def prune_def seenPeerWindow_def
        maxServedPeers_def)
  have start': "run_start (env_ristretto sample_env) id (\<lambda>_. Inr ()) sample_flags sample_machine = (Inr ?cfg, m')"
    using start by (simp add: sample_env_sel)
  have any: "\<forall>st :: peerStore. mset (id st) = mset st" by simp
  from served_peers_authenticated [OF start' any steps peer] have
    "OurAddresses ?cfg \<noteq> []" "length (fst (knownPeers ?cfg (owner s))) \<le> 200"
    "\<exists>key' i' sess ctx c c'. Some (peer_record key i) = Some (peer_record key' i') \<and>
      ResponderHandshake (env_noise sample_env) (Some ctx) (StaticKeypair ?cfg) c = (Inr sess, c') \<and>
      PeerStaticKey sess = key'"
    by blast+
  with start' peer show ?thesis
    by (intro exI [of _ ?cfg] exI [of _ m'] exI [of _ s] exI [of _ "Some (peer_record key i)"] conjI)
qed

end
