(* ===== verification/Responder_Shutdown.thy ===== *)
theory Responder_Shutdown
  imports Responder_Program
begin

text \<open>
  How \<^verbatim>\<open>Serve\<close> of \<^verbatim>\<open>src/p2p/responder.go\<close> comes to its end: once no new connection and no new substream
  arrives, whatever the goroutines do brings it nearer to its return, and nothing else stops them.
\<close>

section \<open>Steps without arrivals\<close>

definition quiet_step ::
  "('sc, 'pt, 'h, 'k) probe_env \<Rightarrow> proto_lib \<Rightarrow> 'p ResponderConfig \<Rightarrow> ('k, 'p) server \<Rightarrow> ('k, 'p) server \<Rightarrow> bool" where
  "quiet_step E P cfg s s' \<longleftrightarrow> serve_step E P cfg s s' \<and>
     length (conns s') = length (conns s) \<and> length (substreams s') \<le> length (substreams s)"

text \<open>How many events the goroutine of a connection can still see.\<close>

fun phase_rank :: "'k phase \<Rightarrow> nat" where
  "phase_rank (Accepted c) = 4"
| "phase_rank (Handshaken sess) = 3"
| "phase_rank (Identified sess i) = 2"
| "phase_rank Multiplexing = 1"
| "phase_rank Closed = 0"

definition serve_rank :: "('k, 'p) server \<Rightarrow> nat" where
  "serve_rank s = sum_list (map phase_rank (conns s)) + length (substreams s) +
     (if accepting s then 1 else 0) + (if serve_returned s = None then 1 else 0)"

lemma sum_list_rank_update:
  assumes "i < length cs" "phase_rank ph < phase_rank (cs ! i)"
  shows "sum_list (map phase_rank (cs[i := ph])) < sum_list (map phase_rank cs)"
proof -
  have "cs = take i cs @ cs ! i # drop (Suc i) cs" using assms(1) by (simp add: id_take_nth_drop)
  then have "sum_list (map phase_rank cs) =
      sum_list (map phase_rank (take i cs)) + phase_rank (cs ! i) + sum_list (map phase_rank (drop (Suc i) cs))"
    by (metis (no_types, lifting) add.assoc list.simps(9) map_append sum_list.Cons sum_list.append)
  moreover have "sum_list (map phase_rank (cs[i := ph])) =
      sum_list (map phase_rank (take i cs)) + phase_rank ph + sum_list (map phase_rank (drop (Suc i) cs))"
    using assms(1) by (simp add: upd_conv_take_nth_drop)
  ultimately show ?thesis using assms(2) by simp
qed

lemma quiet_step_decreases:
  assumes "quiet_step E P cfg s s'"
  shows "serve_rank s' < serve_rank s"
proof -
  have "serve_step E P cfg s s'" "length (conns s') = length (conns s)" "length (substreams s') \<le> length (substreams s)"
    using assms by (auto simp: quiet_step_def)
  then show ?thesis
    by (induction rule: serve_step.induct)
      (use sum_list_rank_update in \<open>fastforce simp: serve_rank_def close_conn_def set_phase_def\<close>)+
qed

interpretation quiet_runs: bounded_steps "quiet_step E P cfg" serve_rank for E P cfg
  by unfold_locales (rule quiet_step_decreases)

section \<open>No goroutine is stuck\<close>

lemma ExchangeIdentityWithOptions_returns:
  "\<exists>r s'. ExchangeIdentityWithOptions R h K I now opts rnd s r s'"
proof (cases "ourPeerIdentityMsgBytes R h I now (LocalStaticKeypair s) (opt_Features opts) (opt_Addresses opts) rnd")
  case (Pair q rnd')
  show ?thesis
  proof (cases q)
    case (Inl e)
    with Pair show ?thesis by (blast intro: ExchangeIdentityWithOptions.build_fails)
  next
    case (Inr b)
    show ?thesis
    proof (cases "encodeIdentityProtocolFrame b")
      case (Inl e)
      with Pair Inr show ?thesis by (blast intro: ExchangeIdentityWithOptions.encode_fails)
    next
      case frame: (Inr frame)
      obtain x r where "(exchange_step K I frame)\<^sup>*\<^sup>* (exchange_start s) x" "returned x = Some r"
        using exchange_can_return [OF exchange_inv_reachable [of K I frame s "exchange_start s", OF rtranclp.rtrancl_refl]]
        by (auto simp: exchange_start_def)
      with Pair Inr frame show ?thesis by (blast intro: ExchangeIdentityWithOptions.exchanged)
    qed
  qed
qed

text \<open>While a connection is open its goroutine has something to do that is not the start of a substream.\<close>

lemma open_conn_moves:
  assumes "i < length (conns s)" "conns s ! i \<noteq> Closed"
  shows "\<exists>s'. quiet_step E P cfg s s'"
proof -
  have close: "quiet_step E P cfg s (close_conn i s)" if "serve_step E P cfg s (close_conn i s)"
    using that by (simp add: quiet_step_def close_conn_def set_phase_def)
  show ?thesis
  proof (cases "conns s ! i")
    case (Handshaken sess)
    obtain r sess' where r: "ExchangeIdentityWithOptions (env_ristretto E) (env_blake2b_512 E) (env_cipher E)
        (env_identity E) 0 (responder_options cfg) (reader_of []) sess r sess'"
      using ExchangeIdentityWithOptions_returns by blast
    show ?thesis
    proof (cases r)
      case (Inl e)
      with r show ?thesis using serve_step.identity_fails [OF assms(1) Handshaken] close by blast
    next
      case (Inr i')
      with r serve_step.identity [OF assms(1) Handshaken] show ?thesis
        by (fastforce simp: quiet_step_def set_phase_def)
    qed
  qed (use assms close in \<open>blast intro: serve_step.deadline_fails serve_step.upgrade_fails serve_step.session_ends\<close>)+
qed

lemma substream_moves:
  assumes "substreams s \<noteq> []"
  shows "\<exists>s'. quiet_step E P cfg s s'"
proof -
  obtain c ys where xs: "substreams s = [] @ c # ys" using assms by (cases "substreams s") auto
  obtain r c' p where h: "handleResponderSubstream P cfg c (owner s) = (r, c', p)" by (metis prod_cases3)
  from serve_step.substream_served [OF xs h] show ?thesis
    by (intro exI [of _ "s\<lparr>substreams := [] @ ys, wg := wg s - 1, owner := p\<rparr>"]) (simp add: quiet_step_def xs)
qed

lemma stuck_has_returned:
  assumes inv: "serve_inv E cfg s" and stuck: "\<nexists>s'. quiet_step E P cfg s s'"
  shows "serve_returned s \<noteq> None"
proof
  assume open_: "serve_returned s = None"
  have "\<not> accepting s"
    using stuck serve_step.accept_fails by (fastforce simp: quiet_step_def)
  moreover have "substreams s = []" using stuck substream_moves by blast
  moreover have "conns s ! i = Closed" if "i < length (conns s)" for i using stuck open_conn_moves that by blast
  then have "open_conns (conns s) = 0" by (auto simp: open_conns_def filter_empty_conv in_set_conv_nth)
  ultimately have "serve_step E P cfg s (s\<lparr>serve_returned := Some (outcome s)\<rparr>)"
    using inv open_ by (intro serve_step.serve_returns) (simp_all add: serve_inv_def)
  then have "quiet_step E P cfg s (s\<lparr>serve_returned := Some (outcome s)\<rparr>)" by (simp add: quiet_step_def)
  with stuck show False by blast
qed

lemma quiet_inv:
  assumes "(quiet_step E P cfg)\<^sup>*\<^sup>* s y" "serve_inv E cfg s"
  shows "serve_inv E cfg y"
  using assms by (induction rule: rtranclp_induct) (auto simp: quiet_step_def intro: serve_inv_step)

lemma serve_inv_returned:
  assumes "serve_inv E cfg s" "serve_returned s \<noteq> None"
  shows "set (conns s) \<subseteq> {Closed} \<and> substreams s = []"
  using assms by (auto simp: serve_inv_def open_conns_def filter_empty_conv)

lemma serve_rank_bound: "serve_rank s \<le> 4 * length (conns s) + length (substreams s) + 2"
proof -
  have "phase_rank ph \<le> 4" for ph :: "'k phase" by (cases ph) simp_all
  then have "sum_list (map phase_rank cs) \<le> 4 * length cs" for cs :: "'k phase list"
    by (induction cs) (simp, force intro: add_mono)
  from this [of "conns s"] show ?thesis by (simp add: serve_rank_def)
qed



section \<open>A peer that stays holds it up\<close>

text \<open>The goroutine of a multiplexed connection waits for its peer alone.\<close>

lemma multiplexing_ends:
  assumes "serve_step E P cfg s s'" "i < length (conns s)" "conns s ! i = Multiplexing"
  shows "conns s' ! i = Multiplexing \<or> s' = close_conn i s"
  using assms by (induction rule: serve_step.induct) (auto simp: close_conn_def set_phase_def nth_append nth_list_update)

lemma conns_grow: "serve_step E P cfg s s' \<Longrightarrow> length (conns s) \<le> length (conns s')"
  by (induction rule: serve_step.induct) (simp_all add: close_conn_def set_phase_def)

text \<open>
  The cancelled context stops the accept loop but not a multiplexed connection: whatever else happens after it, \<^verbatim>\<open>Serve\<close> has
  not returned as long as the peer of that connection has not ended its session. The comment on \<^verbatim>\<open>Serve\<close> says that it runs
  until the context is cancelled.
\<close>

theorem cancelled_serve_waits_for_peer:
  assumes "(serve_step E P cfg)\<^sup>*\<^sup>* (serve_start p) s" "accepting s" "i < length (conns s)" "conns s ! i = Multiplexing"
    and stopped_def: "stopped = s\<lparr>accepting := False, outcome := accept_outcome True e\<rparr>"
  shows "serve_step E P cfg s stopped \<and> outcome stopped = Inr () \<and>
    (\<forall>y. (serve_step E P cfg)\<^sup>*\<^sup>* stopped y \<longrightarrow>
      serve_returned y = None \<or> (\<exists>t. (serve_step E P cfg)\<^sup>*\<^sup>* stopped t \<and> conns t ! i = Multiplexing \<and>
        (serve_step E P cfg)\<^sup>*\<^sup>* (close_conn i t) y))"
proof (intro conjI allI impI)
  show first: "serve_step E P cfg s stopped" unfolding stopped_def by (rule serve_step.accept_fails [OF assms(2)])
  show "outcome stopped = Inr ()" by (simp add: stopped_def accept_outcome_def)
  fix y assume run: "(serve_step E P cfg)\<^sup>*\<^sup>* stopped y"
  then have "i < length (conns y) \<and> (conns y ! i = Multiplexing \<or> (\<exists>t. (serve_step E P cfg)\<^sup>*\<^sup>* stopped t \<and>
      conns t ! i = Multiplexing \<and> (serve_step E P cfg)\<^sup>*\<^sup>* (close_conn i t) y))"
  proof (induction rule: rtranclp_induct)
    case base
    then show ?case using assms(3,4) by (simp add: stopped_def)
  next
    case (step y z)
    have grown: "i < length (conns z)" using conns_grow [OF step.hyps(2)] step.IH by simp
    from step.IH consider "conns y ! i = Multiplexing" | t where "(serve_step E P cfg)\<^sup>*\<^sup>* stopped t"
      "conns t ! i = Multiplexing" "(serve_step E P cfg)\<^sup>*\<^sup>* (close_conn i t) y" by blast
    then show ?case
    proof cases
      case 1
      from multiplexing_ends [OF step.hyps(2) _ 1] step.IH have "conns z ! i = Multiplexing \<or> z = close_conn i y" by blast
      with 1 grown step.hyps(1) show ?thesis by blast
    next
      case (2 t)
      from rtranclp.rtrancl_into_rtrancl [OF 2(3) step.hyps(2)] 2(1,2) grown show ?thesis by blast
    qed
  qed
  moreover have "serve_inv E cfg y"
    using serve_inv_reachable [OF rtranclp_trans [OF rtranclp.rtrancl_into_rtrancl [OF assms(1) first] run]] .
  moreover have "conns y ! i \<noteq> Multiplexing" if "serve_returned y \<noteq> None" "i < length (conns y)"
    using serve_inv_returned [OF \<open>serve_inv E cfg y\<close> that(1)] that(2) by (metis nth_mem phase.distinct(19) singletonD subsetD)
  ultimately show "serve_returned y = None \<or> (\<exists>t. (serve_step E P cfg)\<^sup>*\<^sup>* stopped t \<and> conns t ! i = Multiplexing \<and>
        (serve_step E P cfg)\<^sup>*\<^sup>* (close_conn i t) y)"
    by blast
qed

section \<open>The exit of the program\<close>

lemma run_result_ok: "exit_status (run_result r) = 0 \<longleftrightarrow> (\<forall>err. r = Inl err \<longrightarrow> errors_Is err net_ErrClosed)"
  by (auto simp: exit_status_def run_result_def split: sum.split)

text \<open>
  A program that has started ends when its loop does: from any point of its run, once no more connections and substreams
  arrive, the events that are left bring it to an exit, with status 0 when the context was cancelled or the listener closed and
  1 otherwise.
\<close>

theorem main_exits:
  assumes start: "run_start (env_ristretto E) order Listen fl m = (Inr cfg, m')"
    and reach: "(spike_step E P cfg)\<^sup>*\<^sup>* (serve_start (now, newPeerStore)) s"
  shows "\<exists>y r. (quiet_step E P cfg)\<^sup>*\<^sup>* s y \<and> serve_returned y = Some r \<and>
    main E P order Listen fl now m (if \<forall>err. r = Inl err \<longrightarrow> errors_Is err net_ErrClosed then 0 else 1)"
proof -
  from quiet_runs.run_ends [where E = E and P = P and cfg = cfg] obtain y where
    y: "(quiet_step E P cfg)\<^sup>*\<^sup>* s y" "\<nexists>z. quiet_step E P cfg y z" by metis
  have "serve_inv E cfg s" using run_start_Inr [OF start] spike_inv_reachable reach by metis
  from stuck_has_returned [OF quiet_inv [OF y(1) this] y(2)] obtain r where r: "serve_returned y = Some r" by blast
  have "(spike_step E P cfg)\<^sup>*\<^sup>* s y"
    by (rule rtranclp_mono [THEN predicate2D, OF _ y(1)]) (auto simp: quiet_step_def intro: spike_step.serves)
  from run.stopped [OF start rtranclp_trans [OF reach this] r]
  have "main E P order Listen fl now m (exit_status (run_result r))" unfolding main_def by blast
  moreover have "exit_status (run_result r) = (if \<forall>err. r = Inl err \<longrightarrow> errors_Is err net_ErrClosed then 0 else 1)"
    using run_result_ok [of r] by (auto simp: exit_status_def split: sum.splits)
  ultimately show ?thesis using y(1) r by (intro exI [of _ y] exI [of _ r] conjI) simp_all
qed

end
