(* ===== verification/Grpc_Calls.thy ===== *)
theory Grpc_Calls
  imports Go_IO
begin

text \<open>
  What the gRPC clients of \<^verbatim>\<open>src/walletGRPC\<close> and \<^verbatim>\<open>src/nodeGRPC\<close> share. The generated stubs and the gRPC
  library are parameters: a connection is a value, and a stub a record of its methods over the state
  of the server. The answers of a server stream are the list of what its \<^verbatim>\<open>Recv\<close> will return; after
  them it blocks.
\<close>

section \<open>Server streams\<close>

type_synonym 'a recvs = "(go_error + 'a) list"

text \<open>The loop that collects one field of every message of a stream; \<open>None\<close> while it is blocked in
  \<^verbatim>\<open>Recv\<close>. A call that opens a stream and drains it fails at once when the stream cannot be opened.\<close>

fun drain_loop :: "('m \<Rightarrow> 'a) \<Rightarrow> 'a list \<Rightarrow> 'm recvs \<Rightarrow> (go_error + 'a list) option" where
  "drain_loop field resp [] = None"
| "drain_loop field resp (Inl err # rs) = Some (if err = EOF then Inr resp else Inl err)"
| "drain_loop field resp (Inr m # rs) = drain_loop field (resp @ [field m]) rs"

definition drained :: "('m \<Rightarrow> 'a) \<Rightarrow> ('s, 'm recvs) io \<Rightarrow> 's \<Rightarrow> ((go_error + 'a list) \<times> 's) option" where
  "drained field call s =
     (case call s of
        (Inl err, s') \<Rightarrow> Some (Inl err, s')
      | (Inr rs, s') \<Rightarrow> map_option (\<lambda>r. (r, s')) (drain_loop field [] rs))"

lemma drain_loop_prefix: "drain_loop field resp (map Inr ms @ rs) = drain_loop field (resp @ map field ms) rs"
  by (induction ms arbitrary: resp) simp_all

lemma drain_loop_end:
  "drain_loop field resp (map Inr ms @ Inl err # rs) =
     Some (if err = EOF then Inr (resp @ map field ms) else Inl err)"
  by (simp add: drain_loop_prefix)

lemma drain_loop_open: "drain_loop field resp (map Inr ms) = None"
  using drain_loop_prefix [of field resp ms "[]"] by simp

text \<open>Every sequence of answers is a run of values that has not ended yet or that an error ends.\<close>

lemma recvs_cases:
  obtains (open_stream) xs where "rs = map Inr xs" | (ended) xs err rest where "rs = map Inr xs @ Inl err # rest"
proof (induction rs arbitrary: thesis)
  case Nil
  then show ?case by (metis list.map(1))
next
  case (Cons r rs)
  show ?case
  proof (cases r)
    case (Inl e)
    then show ?thesis using Cons.prems(2) [of "[]"] by simp
  next
    case (Inr a)
    show ?thesis
    proof (rule Cons.IH)
      fix xs assume "rs = map Inr xs"
      then show ?thesis using Cons.prems(1) [of "a # xs"] Inr by simp
    next
      fix xs err rest assume "rs = map Inr xs @ Inl err # rest"
      then show ?thesis using Cons.prems(2) [of "a # xs"] Inr by simp
    qed
  qed
qed

lemma first_error_unique:
  "map Inr xs @ Inl err # rest = map Inr ms @ Inl err' # rest' \<longleftrightarrow> xs = ms \<and> err = err' \<and> rest = rest'"
proof (induction xs arbitrary: ms)
  case Nil
  show ?case by (cases ms) auto
next
  case (Cons x xs)
  show ?case using Cons.IH by (cases ms) auto
qed

section \<open>Dialling\<close>

text \<open>Credentials, and \<^verbatim>\<open>grpc.NewClient\<close>, which makes no connection yet.\<close>

datatype DialOption = InsecureCredentials | OtherOption string

type_synonym 'c dialer = "string \<Rightarrow> DialOption list \<Rightarrow> go_error + 'c"

text \<open>A call on the connection of a package-level variable, which is nil before it is set and after a
  failed dial whose error was dropped.\<close>

definition with_conn :: "'c option \<Rightarrow> ('c \<Rightarrow> ('s, 'a) io) \<Rightarrow> ('s, 'a) io" where
  "with_conn conn f = (case conn of None \<Rightarrow> io_fail NilPanic | Some c \<Rightarrow> f c)"

text \<open>What a drained call returns: the error of opening the stream, the fields of all messages before
  the end of the stream, or the first error and nothing else; it waits exactly while no error has come.\<close>

lemma drained_result:
  "drained field call s = Some (r, s') \<longleftrightarrow>
     (\<exists>err. call s = (Inl err, s') \<and> r = Inl err) \<or>
     (\<exists>ms err rest. call s = (Inr (map Inr ms @ Inl err # rest), s') \<and>
        r = (if err = EOF then Inr (map field ms) else Inl err))"
proof (cases "call s")
  case (Pair out t)
  show ?thesis
  proof (cases out)
    case (Inl err)
    then show ?thesis using Pair by (auto simp: drained_def)
  next
    case (Inr rs)
    show ?thesis
    proof (cases rs rule: recvs_cases)
      case (open_stream xs)
      have "map Inr xs \<noteq> map Inr ms @ Inl err # rest" for ms rest and err :: go_error
      proof
        assume "map Inr xs = map Inr ms @ Inl err # rest"
        then have "Inl err \<in> Inr ` set xs" by (metis in_set_conv_decomp set_map)
        then show False by auto
      qed
      then show ?thesis using Pair Inr open_stream by (simp add: drained_def drain_loop_open)
    next
      case (ended xs err rest)
      have "drained field call s = Some (if err = EOF then Inr (map field xs) else Inl err, t)"
        using Pair Inr ended by (simp add: drained_def drain_loop_end)
      moreover have "map Inr xs @ Inl err # rest = map Inr ms @ Inl err' # rest' \<longleftrightarrow> xs = ms \<and> err = err' \<and> rest = rest'"
        for ms err' rest'
        by (rule first_error_unique)
      ultimately show ?thesis using Pair Inr ended by auto
    qed
  qed
qed

end
