(* ===== verification/Wallet_Client.thy ===== *)
theory Wallet_Client
  imports Grpc_Calls
begin

text \<open>
  \<^verbatim>\<open>src/walletGRPC/client.go\<close> and the deprecated twins of its methods in \<^verbatim>\<open>wallet.go\<close>. Messages the sources
  only pass on are of a type variable; those they build or look into are records.
\<close>

section \<open>Messages and the stub\<close>

record 'r TransferRequest =
  Recipients :: "'r list"
  SingleTx :: bool

record TransferResult =
  IsSuccess :: bool
  FailureMessage :: string
  TransactionId :: u64

record TransferResponse =
  Results :: "TransferResult option list"

record CoinSplitRequest =
  AmountPerSplit :: u64
  SplitCount :: u64
  FeePerGram :: u64
  LockHeight :: u64
  PaymentId :: bytes

record 't CompletedTransactionsResponse =
  Transaction :: "'t option"

datatype wallet_query = GetBalance | RevalidateAll | ValidateAll | GetState | CheckConnectivity | GetCompleteAddress
  | IdentifyWallet | PaymentIdAddress bytes

text \<open>The methods of the generated \<^verbatim>\<open>WalletClient\<close> over the state of the wallet: transfers answer with a
  response and an error, either of which may be nil; \<open>Query\<close> stands for the calls whose answer is
  passed on. \<open>GetCompletedTransactions\<close> takes nil or the payment id to filter by.\<close>

record ('s, 'r, 't, 'e, 'm) wallet_stub =
  Transfer :: "'r TransferRequest \<Rightarrow> 's \<Rightarrow> (TransferResponse option \<times> go_error option) \<times> 's"
  GetCompletedTransactions :: "string option \<Rightarrow> ('s, 't CompletedTransactionsResponse recvs) io"
  GetBlockHeightTransactions :: "u64 \<Rightarrow> ('s, 't option list) io"
  GetTransactionInfo :: "u64 list \<Rightarrow> ('s, 't option list) io"
  CoinSplit :: "CoinSplitRequest \<Rightarrow> ('s, 'm) io"
  Query :: "wallet_query \<Rightarrow> ('s, 'm) io"
  TransactionEvents :: "('s, 'e recvs) io"

section \<open>The client\<close>

record 'c Client =
  client_conn :: 'c

definition New :: "'c dialer \<Rightarrow> string \<Rightarrow> DialOption list \<Rightarrow> go_error + 'c Client" where
  "New dial walletAddress opts =
     (case dial walletAddress (if length opts = 0 then [InsecureCredentials] else opts) of
        Inl err \<Rightarrow> Inl err
      | Inr conn \<Rightarrow> Inr \<lparr>client_conn = conn\<rparr>)"

text \<open>Closing a connection is the library's.\<close>

definition Close :: "('c \<Rightarrow> ('s, unit) io) \<Rightarrow> 'c Client \<Rightarrow> ('s, unit) io" where
  "Close conn_close c = conn_close (client_conn c)"

text \<open>\<^verbatim>\<open>status.FromError\<close> is a parameter: the code of a status error, \<open>None\<close> for any other error.\<close>

definition codes_Canceled :: nat where "codes_Canceled = 1"
definition codes_DeadlineExceeded :: nat where "codes_DeadlineExceeded = 4"
definition codes_Unavailable :: nat where "codes_Unavailable = 14"

definition classifyTransferErr :: "(go_error \<Rightarrow> nat option) \<Rightarrow> go_error option \<Rightarrow> go_error option" where
  "classifyTransferErr FromError err =
     (case err of
        None \<Rightarrow> None
      | Some err \<Rightarrow>
          (case FromError err of
             None \<Rightarrow> Some (WrapBoth ErrAmbiguousBroadcast err)
           | Some code \<Rightarrow>
               if code = codes_DeadlineExceeded \<or> code = codes_Unavailable \<or> code = codes_Canceled
               then Some (WrapBoth ErrAmbiguousBroadcast err) else Some err))"

definition SendTransactions ::
  "(go_error \<Rightarrow> nat option) \<Rightarrow> ('c \<Rightarrow> ('s, 'r, 't, 'e, 'm) wallet_stub) \<Rightarrow> 'c Client \<Rightarrow> 'r list \<Rightarrow> bool \<Rightarrow> 's \<Rightarrow>
     (TransferResponse option \<times> go_error option) \<times> 's" where
  "SendTransactions FromError stub c transactions singleTx s =
     (case Transfer (stub (client_conn c)) \<lparr>Recipients = transactions, SingleTx = singleTx\<rparr> s of
        ((resp, err), s') \<Rightarrow>
          if err \<noteq> None then ((resp, classifyTransferErr FromError err), s') else ((resp, None), s'))"

text \<open>\<^verbatim>\<open>GetIsSuccess\<close> of a nil result is false.\<close>

definition GetIsSuccess :: "TransferResult option \<Rightarrow> bool" where
  "GetIsSuccess r = (case r of None \<Rightarrow> False | Some r \<Rightarrow> IsSuccess r)"

fun split_loop ::
  "TransferResult option list \<Rightarrow> TransferResult option list \<times> TransferResult option list \<Rightarrow>
     TransferResult option list \<times> TransferResult option list" where
  "split_loop [] acc = acc"
| "split_loop (r # rs) (succeeded, failed) =
     (if GetIsSuccess r then split_loop rs (succeeded @ [r], failed) else split_loop rs (succeeded, failed @ [r]))"

definition SplitTransferResults ::
  "TransferResponse option \<Rightarrow> TransferResult option list \<times> TransferResult option list" where
  "SplitTransferResults resp =
     (case resp of None \<Rightarrow> ([], []) | Some resp \<Rightarrow> split_loop (Results resp) ([], []))"

text \<open>Calls that drain a stream are \<open>None\<close> while they wait for it.\<close>

definition GetTransactionsInBlock ::
  "('c \<Rightarrow> ('s, 'r, 't, 'e, 'm) wallet_stub) \<Rightarrow> 'c Client \<Rightarrow> u64 \<Rightarrow> 's \<Rightarrow> ((go_error + 't option list) \<times> 's) option" where
  "GetTransactionsInBlock stub c blockHeight s =
     (if blockHeight = 0 then drained Transaction (GetCompletedTransactions (stub (client_conn c)) None) s
      else Some (GetBlockHeightTransactions (stub (client_conn c)) blockHeight s))"

definition GetCompletedTransactionsByPaymentID ::
  "('c \<Rightarrow> ('s, 'r, 't, 'e, 'm) wallet_stub) \<Rightarrow> 'c Client \<Rightarrow> string \<Rightarrow> 's \<Rightarrow> ((go_error + 't option list) \<times> 's) option" where
  "GetCompletedTransactionsByPaymentID stub c paymentID s =
     drained Transaction (GetCompletedTransactions (stub (client_conn c)) (Some paymentID)) s"

text \<open>\<^verbatim>\<open>uint64(splitAmt)\<close> of a signed number wraps.\<close>

definition SubmitCoinSplitRequest ::
  "('c \<Rightarrow> ('s, 'r, 't, 'e, 'm) wallet_stub) \<Rightarrow> 'c Client \<Rightarrow> int \<Rightarrow> int \<Rightarrow> ('s, 'm) io" where
  "SubmitCoinSplitRequest stub c splitAmt numSplits =
     CoinSplit (stub (client_conn c)) \<lparr>AmountPerSplit = word_of_int splitAmt, SplitCount = word_of_int numSplits,
       FeePerGram = 5, LockHeight = 0, PaymentId = []\<rparr>"

text \<open>The transaction, or nil, beside a nil error, when the wallet knows none.\<close>

definition GetTransactionInfoByID ::
  "('c \<Rightarrow> ('s, 'r, 't, 'e, 'm) wallet_stub) \<Rightarrow> 'c Client \<Rightarrow> u64 \<Rightarrow> ('s, 't option) io" where
  "GetTransactionInfoByID stub c transactionID s =
     (case GetTransactionInfo (stub (client_conn c)) [transactionID] s of
        (Inl err, s') \<Rightarrow> (Inl err, s')
      | (Inr txns, s') \<Rightarrow> (Inr (case txns of [] \<Rightarrow> None | t # _ \<Rightarrow> t), s'))"

definition GetBalances :: "('c \<Rightarrow> ('s, 'r, 't, 'e, 'm) wallet_stub) \<Rightarrow> 'c Client \<Rightarrow> ('s, 'm) io" where
  "GetBalances stub c = Query (stub (client_conn c)) GetBalance"
definition RevalidateAllTransactions :: "('c \<Rightarrow> ('s, 'r, 't, 'e, 'm) wallet_stub) \<Rightarrow> 'c Client \<Rightarrow> ('s, 'm) io" where
  "RevalidateAllTransactions stub c = Query (stub (client_conn c)) RevalidateAll"
definition ValidateAllTransactions :: "('c \<Rightarrow> ('s, 'r, 't, 'e, 'm) wallet_stub) \<Rightarrow> 'c Client \<Rightarrow> ('s, 'm) io" where
  "ValidateAllTransactions stub c = Query (stub (client_conn c)) ValidateAll"
definition GetWalletState :: "('c \<Rightarrow> ('s, 'r, 't, 'e, 'm) wallet_stub) \<Rightarrow> 'c Client \<Rightarrow> ('s, 'm) io" where
  "GetWalletState stub c = Query (stub (client_conn c)) GetState"
definition GetWalletConnectivity :: "('c \<Rightarrow> ('s, 'r, 't, 'e, 'm) wallet_stub) \<Rightarrow> 'c Client \<Rightarrow> ('s, 'm) io" where
  "GetWalletConnectivity stub c = Query (stub (client_conn c)) CheckConnectivity"
definition GetAddresses :: "('c \<Rightarrow> ('s, 'r, 't, 'e, 'm) wallet_stub) \<Rightarrow> 'c Client \<Rightarrow> ('s, 'm) io" where
  "GetAddresses stub c = Query (stub (client_conn c)) GetCompleteAddress"
definition Identify :: "('c \<Rightarrow> ('s, 'r, 't, 'e, 'm) wallet_stub) \<Rightarrow> 'c Client \<Rightarrow> ('s, 'm) io" where
  "Identify stub c = Query (stub (client_conn c)) IdentifyWallet"
definition GetPaymentIdAddress :: "('c \<Rightarrow> ('s, 'r, 't, 'e, 'm) wallet_stub) \<Rightarrow> 'c Client \<Rightarrow> string \<Rightarrow> ('s, 'm) io" where
  "GetPaymentIdAddress stub c paymentID = Query (stub (client_conn c)) (PaymentIdAddress (string_bytes paymentID))"

section \<open>The deprecated package-level functions\<close>

record 'c wallet_globals =
  grpcWalletAddress :: string
  wallet_grpcConn :: "'c option"

definition InitWalletGRPC :: "'c dialer \<Rightarrow> string \<Rightarrow> 'c wallet_globals \<Rightarrow> 'c wallet_globals" where
  "InitWalletGRPC dial walletAddress g = g\<lparr>grpcWalletAddress := walletAddress,
     wallet_grpcConn := (case dial walletAddress [InsecureCredentials] of Inl _ \<Rightarrow> None | Inr c \<Rightarrow> Some c)\<rparr>"

definition old_SendTransactions ::
  "('c \<Rightarrow> ('s, 'r, 't, 'e, 'm) wallet_stub) \<Rightarrow> 'c wallet_globals \<Rightarrow> 'r list \<Rightarrow> bool \<Rightarrow> 's \<Rightarrow>
     (TransferResponse option \<times> go_error option) \<times> 's" where
  "old_SendTransactions stub g transactions singleTx s =
     (case wallet_grpcConn g of
        None \<Rightarrow> ((None, Some NilPanic), s)
      | Some conn \<Rightarrow> Transfer (stub conn) \<lparr>Recipients = transactions, SingleTx = singleTx\<rparr> s)"

definition old_GetTransactionsInBlock ::
  "('c \<Rightarrow> ('s, 'r, 't, 'e, 'm) wallet_stub) \<Rightarrow> 'c wallet_globals \<Rightarrow> u64 \<Rightarrow> 's \<Rightarrow> ((go_error + 't option list) \<times> 's) option" where
  "old_GetTransactionsInBlock stub g blockHeight s =
     (if blockHeight = 0 then drained Transaction (with_conn (wallet_grpcConn g) (\<lambda>conn. GetCompletedTransactions (stub conn) None)) s
      else Some (with_conn (wallet_grpcConn g) (\<lambda>conn. GetBlockHeightTransactions (stub conn) blockHeight) s))"

definition old_GetCompletedTransactionsByPaymentID ::
  "('c \<Rightarrow> ('s, 'r, 't, 'e, 'm) wallet_stub) \<Rightarrow> 'c wallet_globals \<Rightarrow> string \<Rightarrow> 's \<Rightarrow> ((go_error + 't option list) \<times> 's) option" where
  "old_GetCompletedTransactionsByPaymentID stub g paymentID s =
     drained Transaction (with_conn (wallet_grpcConn g) (\<lambda>conn. GetCompletedTransactions (stub conn) (Some paymentID))) s"

definition old_SubmitCoinSplitRequest ::
  "('c \<Rightarrow> ('s, 'r, 't, 'e, 'm) wallet_stub) \<Rightarrow> 'c wallet_globals \<Rightarrow> int \<Rightarrow> int \<Rightarrow> ('s, 'm) io" where
  "old_SubmitCoinSplitRequest stub g splitAmt numSplits = with_conn (wallet_grpcConn g) (\<lambda>conn.
     CoinSplit (stub conn) \<lparr>AmountPerSplit = word_of_int splitAmt, SplitCount = word_of_int numSplits,
       FeePerGram = 5, LockHeight = 0, PaymentId = []\<rparr>)"

definition old_GetTransactionInfoByID ::
  "('c \<Rightarrow> ('s, 'r, 't, 'e, 'm) wallet_stub) \<Rightarrow> 'c wallet_globals \<Rightarrow> u64 \<Rightarrow> ('s, 't option) io" where
  "old_GetTransactionInfoByID stub g transactionID s =
     (case with_conn (wallet_grpcConn g) (\<lambda>conn. GetTransactionInfo (stub conn) [transactionID]) s of
        (Inl err, s') \<Rightarrow> (Inl err, s')
      | (Inr txns, s') \<Rightarrow> (Inr (case txns of [] \<Rightarrow> None | t # _ \<Rightarrow> t), s'))"

definition old_GetBalances :: "('c \<Rightarrow> ('s, 'r, 't, 'e, 'm) wallet_stub) \<Rightarrow> 'c wallet_globals \<Rightarrow> ('s, 'm) io" where
  "old_GetBalances stub g = with_conn (wallet_grpcConn g) (\<lambda>conn. Query (stub conn) GetBalance)"
definition old_RevalidateAllTransactions :: "('c \<Rightarrow> ('s, 'r, 't, 'e, 'm) wallet_stub) \<Rightarrow> 'c wallet_globals \<Rightarrow> ('s, 'm) io" where
  "old_RevalidateAllTransactions stub g = with_conn (wallet_grpcConn g) (\<lambda>conn. Query (stub conn) RevalidateAll)"
definition old_ValidateAllTransactions :: "('c \<Rightarrow> ('s, 'r, 't, 'e, 'm) wallet_stub) \<Rightarrow> 'c wallet_globals \<Rightarrow> ('s, 'm) io" where
  "old_ValidateAllTransactions stub g = with_conn (wallet_grpcConn g) (\<lambda>conn. Query (stub conn) ValidateAll)"
definition old_GetWalletState :: "('c \<Rightarrow> ('s, 'r, 't, 'e, 'm) wallet_stub) \<Rightarrow> 'c wallet_globals \<Rightarrow> ('s, 'm) io" where
  "old_GetWalletState stub g = with_conn (wallet_grpcConn g) (\<lambda>conn. Query (stub conn) GetState)"
definition old_GetWalletConnectivity :: "('c \<Rightarrow> ('s, 'r, 't, 'e, 'm) wallet_stub) \<Rightarrow> 'c wallet_globals \<Rightarrow> ('s, 'm) io" where
  "old_GetWalletConnectivity stub g = with_conn (wallet_grpcConn g) (\<lambda>conn. Query (stub conn) CheckConnectivity)"
definition old_GetAddresses :: "('c \<Rightarrow> ('s, 'r, 't, 'e, 'm) wallet_stub) \<Rightarrow> 'c wallet_globals \<Rightarrow> ('s, 'm) io" where
  "old_GetAddresses stub g = with_conn (wallet_grpcConn g) (\<lambda>conn. Query (stub conn) GetCompleteAddress)"
definition old_Identify :: "('c \<Rightarrow> ('s, 'r, 't, 'e, 'm) wallet_stub) \<Rightarrow> 'c wallet_globals \<Rightarrow> ('s, 'm) io" where
  "old_Identify stub g = with_conn (wallet_grpcConn g) (\<lambda>conn. Query (stub conn) IdentifyWallet)"
definition old_GetPaymentIdAddress :: "('c \<Rightarrow> ('s, 'r, 't, 'e, 'm) wallet_stub) \<Rightarrow> 'c wallet_globals \<Rightarrow> string \<Rightarrow> ('s, 'm) io" where
  "old_GetPaymentIdAddress stub g paymentID =
     with_conn (wallet_grpcConn g) (\<lambda>conn. Query (stub conn) (PaymentIdAddress (string_bytes paymentID)))"

section \<open>Sending\<close>

definition ambiguous_code :: "nat option \<Rightarrow> bool" where
  "ambiguous_code code \<longleftrightarrow> code \<in> {None, Some codes_Canceled, Some codes_DeadlineExceeded, Some codes_Unavailable}"

lemma classifyTransferErr_unfold:
  "classifyTransferErr FromError (Some err) =
     Some (if ambiguous_code (FromError err) then WrapBoth ErrAmbiguousBroadcast err else err)"
  by (auto simp: classifyTransferErr_def ambiguous_code_def split: option.splits)

lemma classifyTransferErr_None [simp]: "classifyTransferErr FromError None = None"
  by (simp add: classifyTransferErr_def)

lemma SendTransactions_alt:
  "SendTransactions FromError stub c transactions singleTx s =
     (case Transfer (stub (client_conn c)) \<lparr>Recipients = transactions, SingleTx = singleTx\<rparr> s of
        ((resp, err), s') \<Rightarrow> ((resp, classifyTransferErr FromError err), s'))"
  by (auto simp: SendTransactions_def split: prod.splits)

text \<open>C12. \<^verbatim>\<open>SendTransactions\<close> hands the response of the wallet on with the wallet's error, which stays
  findable by \<^verbatim>\<open>errors.Is\<close>, and marks it with \<^verbatim>\<open>ErrAmbiguousBroadcast\<close> exactly when the call ended in a way
  that leaves open whether the wallet has broadcast: no gRPC status, or Canceled, DeadlineExceeded,
  Unavailable. A call without an error stays without one.\<close>

theorem transfer_ambiguity:
  assumes "Transfer (stub (client_conn c)) \<lparr>Recipients = transactions, SingleTx = singleTx\<rparr> s = ((resp, err), s')"
    and "err \<noteq> Some e \<or> \<not> errors_Is e ErrAmbiguousBroadcast"
  shows "\<exists>err'. SendTransactions FromError stub c transactions singleTx s = ((resp, err'), s') \<and>
    (err = None \<longrightarrow> err' = None) \<and>
    (err = Some e \<longrightarrow> (\<exists>e'. err' = Some e' \<and> errors_Is e' e \<and>
       (errors_Is e' ErrAmbiguousBroadcast \<longleftrightarrow> FromError e \<in> {None, Some 1, Some 4, Some 14})))"
  using assms
  by (auto simp: SendTransactions_alt classifyTransferErr_unfold ambiguous_code_def codes_Canceled_def
      codes_DeadlineExceeded_def codes_Unavailable_def)

text \<open>A wallet whose transfers run into a deadline.\<close>

definition slow_wallet :: "unit \<Rightarrow> (nat, string, string, string, string) wallet_stub" where
  "slow_wallet conn = \<lparr>
     Transfer = (\<lambda>req n. ((None, Some ContextError), n + length (Recipients req))),
     GetCompletedTransactions = (\<lambda>pid n. (Inr (map (\<lambda>t. Inr \<lparr>Transaction = Some t\<rparr>) [''a'', ''b''] @ [Inl EOF]), n)),
     GetBlockHeightTransactions = (\<lambda>h n. (Inr [Some ''a''], n)),
     GetTransactionInfo = (\<lambda>ids n. (Inr [], n)),
     CoinSplit = (\<lambda>req n. (Inl ContextError, n)),
     Query = (\<lambda>q n. (Inr ''ok'', n)),
     TransactionEvents = (\<lambda>n. (Inr [Inl EOF], n))\<rparr>"

theorem transfer_ambiguity_witness:
  "SendTransactions (\<lambda>e. Some 4) slow_wallet \<lparr>client_conn = ()\<rparr> [''x''] True 0 =
     ((None, Some (WrapBoth ErrAmbiguousBroadcast ContextError)), 1) \<and>
   errors_Is (WrapBoth ErrAmbiguousBroadcast ContextError) ErrAmbiguousBroadcast"
proof -
  have run: "SendTransactions (\<lambda>e. Some 4) slow_wallet \<lparr>client_conn = ()\<rparr> [''x''] True 0 =
     ((None, Some (WrapBoth ErrAmbiguousBroadcast ContextError)), 1)"
    by (simp add: SendTransactions_alt classifyTransferErr_unfold ambiguous_code_def codes_Canceled_def
        codes_DeadlineExceeded_def codes_Unavailable_def slow_wallet_def)
  show ?thesis
    using transfer_ambiguity [where stub = slow_wallet and c = "\<lparr>client_conn = ()\<rparr>" and transactions = "[''x'']"
        and singleTx = True and s = 0 and resp = None and err = "Some ContextError" and s' = 1 and e = ContextError
        and FromError = "\<lambda>e. Some 4"] run
    by (simp add: slow_wallet_def)
qed

lemma split_loop_filter:
  "split_loop rs (succeeded, failed) =
     (succeeded @ filter GetIsSuccess rs, failed @ filter (\<lambda>r. \<not> GetIsSuccess r) rs)"
  by (induction rs arbitrary: succeeded failed) simp_all

text \<open>\<^verbatim>\<open>SplitTransferResults\<close> loses and invents nothing: every result of the response is in exactly one
  of the two lists as often as in the response, in the order of the response; the first holds the
  results that report success and the second, with the nil entries, all others; so a batch has
  succeeded as a whole exactly when the second is empty. A nil response has neither.\<close>

theorem split_partition:
  "SplitTransferResults None = ([], []) \<and>
   (case SplitTransferResults (Some resp) of (succeeded, failed) \<Rightarrow>
      Results resp \<in> shuffles succeeded failed \<and>
      (\<forall>r. r \<in> set succeeded \<longleftrightarrow> r \<in> set (Results resp) \<and> (\<exists>x. r = Some x \<and> IsSuccess x)) \<and>
      (\<forall>r. r \<in> set failed \<longleftrightarrow> r \<in> set (Results resp) \<and> (\<nexists>x. r = Some x \<and> IsSuccess x)) \<and>
      length succeeded + length failed = length (Results resp) \<and>
      (failed = [] \<longleftrightarrow> list_all (\<lambda>r. \<exists>x. r = Some x \<and> IsSuccess x) (Results resp)))"
proof -
  have split: "SplitTransferResults (Some resp) =
      (filter GetIsSuccess (Results resp), filter (\<lambda>r. \<not> GetIsSuccess r) (Results resp))"
    by (simp add: SplitTransferResults_def split_loop_filter)
  have success: "GetIsSuccess r \<longleftrightarrow> (\<exists>x. r = Some x \<and> IsSuccess x)" for r
    by (cases r) (simp_all add: GetIsSuccess_def)
  show ?thesis
    unfolding split success [symmetric]
    by (simp add: SplitTransferResults_def partition_in_shuffles sum_length_filter_compl filter_empty_conv list_all_iff)
qed

section \<open>Collecting\<close>

text \<open>C27. The two calls that drain the stream of completed transactions return exactly when the stream
  cannot be opened or has delivered an error. They then return all transactions before a clean end, in
  order, or the error alone: never a list cut short.\<close>

theorem completed_transactions_all_or_error:
  fixes stub :: "'c \<Rightarrow> ('s, 'r, 't, 'e, 'm) wallet_stub"
  defines "open_stream \<equiv> \<lambda>c filter. GetCompletedTransactions (stub (client_conn c)) filter"
  shows "(GetTransactionsInBlock stub c 0 s = Some (r, s') \<longleftrightarrow>
      (\<exists>err. open_stream c None s = (Inl err, s') \<and> r = Inl err) \<or>
      (\<exists>ms err rest. open_stream c None s = (Inr (map Inr ms @ Inl err # rest), s') \<and>
         r = (if err = EOF then Inr (map Transaction ms) else Inl err))) \<and>
    (GetCompletedTransactionsByPaymentID stub c paymentID s = Some (r, s') \<longleftrightarrow>
      (\<exists>err. open_stream c (Some paymentID) s = (Inl err, s') \<and> r = Inl err) \<or>
      (\<exists>ms err rest. open_stream c (Some paymentID) s = (Inr (map Inr ms @ Inl err # rest), s') \<and>
         r = (if err = EOF then Inr (map Transaction ms) else Inl err)))"
  by (simp only: GetTransactionsInBlock_def GetCompletedTransactionsByPaymentID_def open_stream_def drained_result
      simp_thms if_True)

section \<open>The two interfaces\<close>

lemmas deprecated_defs =
  old_GetTransactionsInBlock_def old_GetCompletedTransactionsByPaymentID_def old_SubmitCoinSplitRequest_def
  old_GetTransactionInfoByID_def old_GetBalances_def old_RevalidateAllTransactions_def
  old_ValidateAllTransactions_def old_GetWalletState_def old_GetWalletConnectivity_def old_GetAddresses_def
  old_Identify_def old_GetPaymentIdAddress_def old_SendTransactions_def

lemmas method_defs =
  GetTransactionsInBlock_def GetCompletedTransactionsByPaymentID_def SubmitCoinSplitRequest_def
  GetTransactionInfoByID_def GetBalances_def RevalidateAllTransactions_def
  ValidateAllTransactions_def GetWalletState_def GetWalletConnectivity_def GetAddresses_def
  Identify_def GetPaymentIdAddress_def

text \<open>The calls of one interface, by name, so that the two can be compared as a whole.\<close>

record ('s, 't, 'm) wallet_calls =
  call_block :: "u64 \<Rightarrow> 's \<Rightarrow> ((go_error + 't option list) \<times> 's) option"
  call_by_payment :: "string \<Rightarrow> 's \<Rightarrow> ((go_error + 't option list) \<times> 's) option"
  call_coin_split :: "int \<Rightarrow> int \<Rightarrow> ('s, 'm) io"
  call_info :: "u64 \<Rightarrow> ('s, 't option) io"
  call_queries :: "('s, 'm) io list"
  call_payment_address :: "string \<Rightarrow> ('s, 'm) io"

definition client_calls :: "('c \<Rightarrow> ('s, 'r, 't, 'e, 'm) wallet_stub) \<Rightarrow> 'c Client \<Rightarrow> ('s, 't, 'm) wallet_calls" where
  "client_calls stub c = \<lparr>call_block = GetTransactionsInBlock stub c,
     call_by_payment = GetCompletedTransactionsByPaymentID stub c,
     call_coin_split = SubmitCoinSplitRequest stub c,
     call_info = GetTransactionInfoByID stub c,
     call_queries = [GetBalances stub c, RevalidateAllTransactions stub c, ValidateAllTransactions stub c,
       GetWalletState stub c, GetWalletConnectivity stub c, GetAddresses stub c, Identify stub c],
     call_payment_address = GetPaymentIdAddress stub c\<rparr>"

definition deprecated_calls ::
  "('c \<Rightarrow> ('s, 'r, 't, 'e, 'm) wallet_stub) \<Rightarrow> 'c wallet_globals \<Rightarrow> ('s, 't, 'm) wallet_calls" where
  "deprecated_calls stub g = \<lparr>call_block = old_GetTransactionsInBlock stub g,
     call_by_payment = old_GetCompletedTransactionsByPaymentID stub g,
     call_coin_split = old_SubmitCoinSplitRequest stub g,
     call_info = old_GetTransactionInfoByID stub g,
     call_queries = [old_GetBalances stub g, old_RevalidateAllTransactions stub g, old_ValidateAllTransactions stub g,
       old_GetWalletState stub g, old_GetWalletConnectivity stub g, old_GetAddresses stub g, old_Identify stub g],
     call_payment_address = old_GetPaymentIdAddress stub g\<rparr>"


end
