(* ===== verification/Wallet_Events.thy ===== *)
theory Wallet_Events
  imports Wallet_Client
begin

text \<open>
  \<^verbatim>\<open>StreamTransactionEvents\<close> of \<^verbatim>\<open>src/walletGRPC/client.go\<close> and its twin in \<^verbatim>\<open>wallet.go\<close>: a goroutine that
  forwards the events of a stream into a channel of sixteen places and its error into one of one
  place, run against a consumer of the channels that may cancel the context at any time. The steps of
  the goroutine and those of the consumer are two relations; a run interleaves them freely.
\<close>

section \<open>The goroutine and its channels\<close>

definition events_capacity :: nat where "events_capacity = 16"
definition errs_capacity :: nat where "errs_capacity = 1"

text \<open>Where the goroutine is: in \<^verbatim>\<open>Recv\<close>, in the select that sends an event, at the send of an error, or
  running its deferred calls, which close \<^verbatim>\<open>errs\<close> first.\<close>

datatype 'e position = Receiving | SendingEvent 'e | SendingError go_error | Returning | ErrsClosed | Exited

text \<open>\<open>incoming\<close> is what \<^verbatim>\<open>Recv\<close> will still return. \<open>taken_events\<close> and \<open>taken_errs\<close> are what the consumer has
  received.\<close>

record 'e event_stream =
  position :: "'e position"
  incoming :: "'e recvs"
  events :: "'e list"
  errs :: "go_error list"
  events_closed :: bool
  errs_closed :: bool
  cancelled :: bool
  taken_events :: "'e list"
  taken_errs :: "go_error list"

definition stream_failed :: "go_error \<Rightarrow> 'e event_stream" where
  "stream_failed err = \<lparr>position = Exited, incoming = [], events = [], errs = [err], events_closed = True,
     errs_closed = True, cancelled = False, taken_events = [], taken_errs = []\<rparr>"

definition stream_opened :: "'e recvs \<Rightarrow> 'e event_stream" where
  "stream_opened rs = \<lparr>position = Receiving, incoming = rs, events = [], errs = [], events_closed = False,
     errs_closed = False, cancelled = False, taken_events = [], taken_errs = []\<rparr>"

definition start_stream :: "('s, 'e recvs) io \<Rightarrow> 's \<Rightarrow> 'e event_stream \<times> 's" where
  "start_stream call s =
     (case call s of (Inl err, s') \<Rightarrow> (stream_failed err, s') | (Inr rs, s') \<Rightarrow> (stream_opened rs, s'))"

definition StreamTransactionEvents ::
  "('c \<Rightarrow> ('s, 'r, 't, 'e, 'm) wallet_stub) \<Rightarrow> 'c Client \<Rightarrow> 's \<Rightarrow> 'e event_stream \<times> 's" where
  "StreamTransactionEvents stub c = start_stream (TransactionEvents (stub (client_conn c)))"

text \<open>The twin panics in the caller when there is no connection.\<close>

definition old_StreamTransactionEvents ::
  "('c \<Rightarrow> ('s, 'r, 't, 'e, 'm) wallet_stub) \<Rightarrow> 'c wallet_globals \<Rightarrow> ('s, 'e event_stream) io" where
  "old_StreamTransactionEvents stub g =
     with_conn (wallet_grpcConn g) (\<lambda>conn s. map_prod Inr id (start_stream (TransactionEvents (stub conn)) s))"

text \<open>The steps of the goroutine. Once the context is cancelled, \<^verbatim>\<open>Recv\<close> may return its error instead of
  what was to come, and the select may take its second case.\<close>

inductive worker_step :: "'e event_stream \<Rightarrow> 'e event_stream \<Rightarrow> bool" where
  recv_event: "position x = Receiving \<Longrightarrow> incoming x = Inr e # rs \<Longrightarrow>
     worker_step x (x\<lparr>position := SendingEvent e, incoming := rs\<rparr>)"
| recv_eof: "position x = Receiving \<Longrightarrow> incoming x = Inl EOF # rs \<Longrightarrow>
     worker_step x (x\<lparr>position := Returning, incoming := rs\<rparr>)"
| recv_error: "position x = Receiving \<Longrightarrow> incoming x = Inl err # rs \<Longrightarrow> err \<noteq> EOF \<Longrightarrow>
     worker_step x (x\<lparr>position := SendingError err, incoming := rs\<rparr>)"
| recv_cancelled: "position x = Receiving \<Longrightarrow> cancelled x \<Longrightarrow>
     worker_step x (x\<lparr>position := SendingError ContextError\<rparr>)"
| send_error: "position x = SendingError err \<Longrightarrow> length (errs x) < errs_capacity \<Longrightarrow>
     worker_step x (x\<lparr>position := Returning, errs := errs x @ [err]\<rparr>)"
| send_event: "position x = SendingEvent e \<Longrightarrow> length (events x) < events_capacity \<Longrightarrow>
     worker_step x (x\<lparr>position := Receiving, events := events x @ [e]\<rparr>)"
| select_done: "position x = SendingEvent e \<Longrightarrow> cancelled x \<Longrightarrow>
     worker_step x (x\<lparr>position := Returning\<rparr>)"
| close_errs: "position x = Returning \<Longrightarrow>
     worker_step x (x\<lparr>position := ErrsClosed, errs_closed := True\<rparr>)"
| close_events: "position x = ErrsClosed \<Longrightarrow>
     worker_step x (x\<lparr>position := Exited, events_closed := True\<rparr>)"

text \<open>The caller: it takes what the channels hold, and cancels.\<close>

inductive caller_step :: "'e event_stream \<Rightarrow> 'e event_stream \<Rightarrow> bool" where
  take_event: "events x = e # es \<Longrightarrow>
     caller_step x (x\<lparr>events := es, taken_events := taken_events x @ [e]\<rparr>)"
| take_err: "errs x = err # es \<Longrightarrow>
     caller_step x (x\<lparr>errs := es, taken_errs := taken_errs x @ [err]\<rparr>)"
| cancel: "caller_step x (x\<lparr>cancelled := True\<rparr>)"

definition stream_step :: "'e event_stream \<Rightarrow> 'e event_stream \<Rightarrow> bool" where
  "stream_step x y \<longleftrightarrow> worker_step x y \<or> caller_step x y"

inductive_cases worker_stepE: "worker_step x y"

section \<open>What has been handed over\<close>

definition handed :: "'e event_stream \<Rightarrow> 'e list" where
  "handed x = taken_events x @ events x"

definition reported :: "'e event_stream \<Rightarrow> go_error list" where
  "reported x = taken_errs x @ errs x"

text \<open>The four ways a stream ends, with the errors that are reported: a clean end, an error, a cancelled
  \<^verbatim>\<open>Recv\<close>, and a cancelled send, which drops the event it was for.\<close>

definition stream_ending :: "'e recvs \<Rightarrow> 'e event_stream \<Rightarrow> go_error list \<Rightarrow> bool" where
  "stream_ending rs x es \<longleftrightarrow>
     es = [] \<and> rs = map Inr (handed x) @ Inl EOF # incoming x \<or>
     (\<exists>err. es = [err] \<and> err \<noteq> EOF \<and> rs = map Inr (handed x) @ Inl err # incoming x) \<or>
     cancelled x \<and> es = [ContextError] \<and> rs = map Inr (handed x) @ incoming x \<or>
     cancelled x \<and> es = [] \<and> (\<exists>e. rs = map Inr (handed x @ [e]) @ incoming x)"

definition stream_inv :: "'e recvs \<Rightarrow> 'e event_stream \<Rightarrow> bool" where
  "stream_inv rs x \<longleftrightarrow>
     length (events x) \<le> events_capacity \<and>
     (errs_closed x \<longleftrightarrow> position x \<in> {ErrsClosed, Exited}) \<and>
     (events_closed x \<longleftrightarrow> position x = Exited) \<and>
     (case position x of
        Receiving \<Rightarrow> reported x = [] \<and> rs = map Inr (handed x) @ incoming x
      | SendingEvent e \<Rightarrow> reported x = [] \<and> rs = map Inr (handed x @ [e]) @ incoming x
      | SendingError err \<Rightarrow> reported x = [] \<and> stream_ending rs x [err]
      | _ \<Rightarrow> stream_ending rs x (reported x))"

lemma stream_inv_start: "stream_inv rs (stream_opened rs)"
  by (simp add: stream_inv_def stream_opened_def handed_def reported_def)

lemma stream_inv_worker: "worker_step x y \<Longrightarrow> stream_inv rs x \<Longrightarrow> stream_inv rs y"
  by (induction rule: worker_step.induct)
    (auto simp: stream_inv_def stream_ending_def handed_def reported_def)

text \<open>The steps of the caller leave the sequences and the position as they are.\<close>

lemma stream_inv_caller:
  assumes "caller_step x y" "stream_inv rs x"
  shows "stream_inv rs y"
proof -
  from assms(1) have same: "handed y = handed x" "reported y = reported x" "position y = position x"
    "incoming y = incoming x" "errs_closed y = errs_closed x" "events_closed y = events_closed x"
    "length (events y) \<le> length (events x)" "cancelled x \<longrightarrow> cancelled y"
    by (induction rule: caller_step.induct) (simp_all add: handed_def reported_def)
  then have "stream_ending rs x es \<Longrightarrow> stream_ending rs y es" for es by (auto simp: stream_ending_def)
  with same assms(2) show ?thesis by (auto simp: stream_inv_def split: position.splits)
qed

lemma stream_inv_reachable:
  "stream_step\<^sup>*\<^sup>* (stream_opened rs) x \<Longrightarrow> stream_inv rs x"
  by (induction rule: rtranclp_induct)
    (auto simp: stream_step_def intro: stream_inv_start stream_inv_worker stream_inv_caller)

lemma stream_failed_stays:
  assumes "stream_step\<^sup>*\<^sup>* (stream_failed err) x"
  shows "position x = Exited \<and> events_closed x \<and> errs_closed x \<and> handed x = [] \<and> reported x = [err]"
  using assms
proof (induction rule: rtranclp_induct)
  case base
  show ?case by (simp add: stream_failed_def handed_def reported_def)
next
  case (step y z)
  from step.hyps(2) have "worker_step y z \<or> caller_step y z" by (simp add: stream_step_def)
  with step.IH show ?case
    by (auto simp: handed_def reported_def elim!: worker_step.cases caller_step.cases)
qed

lemma reported_one: "stream_inv rs x \<Longrightarrow> length (reported x) \<le> 1"
  by (auto simp: stream_inv_def stream_ending_def split: position.splits)

lemma handed_prefix: "stream_inv rs x \<Longrightarrow> \<exists>rest. rs = map Inr (handed x) @ rest"
  by (auto simp: stream_inv_def stream_ending_def split: position.splits)

lemma forwarded_inv:
  assumes "stream_inv rs x"
  shows "length (events x) \<le> 16 \<and> length (errs x) \<le> 1 \<and> (events_closed x \<longrightarrow> errs_closed x) \<and>
    (\<exists>rest. rs = map Inr (handed x) @ rest) \<and>
    (errs_closed x \<and> \<not> cancelled x \<longrightarrow>
       (\<exists>err rest. rs = map Inr (handed x) @ Inl err # rest \<and> reported x = (if err = EOF then [] else [err])))"
proof -
  have "length (errs x) \<le> 1" using reported_one [OF assms] by (simp add: reported_def)
  moreover have "errs_closed x \<and> \<not> cancelled x \<longrightarrow>
       (\<exists>err rest. rs = map Inr (handed x) @ Inl err # rest \<and> reported x = (if err = EOF then [] else [err]))"
    using assms by (fastforce simp: stream_inv_def stream_ending_def)
  ultimately show ?thesis
    using assms handed_prefix [OF assms] by (simp add: stream_inv_def events_capacity_def)
qed

text \<open>C13. What reaches the channels of \<^verbatim>\<open>StreamTransactionEvents\<close>, in every interleaving with a caller that
  takes from them and may cancel: the events the caller has taken followed by those in the channel are
  those of the stream, in order, none lost and none twice; the channels stay within sixteen events and
  one error, and the error channel is closed first. When it is closed without a cancellation, all
  events before the end of the stream have been handed over, and the error that ended it has been
  reported unless it was a clean end. A stream that cannot be opened gives closed channels with the
  error.\<close>

theorem events_forwarded:
  assumes "stream_step\<^sup>*\<^sup>* (fst (StreamTransactionEvents stub c s)) x"
  shows "case fst (TransactionEvents (stub (client_conn c)) s) of
      Inl err \<Rightarrow> events_closed x \<and> errs_closed x \<and> taken_events x @ events x = [] \<and> taken_errs x @ errs x = [err]
    | Inr rs \<Rightarrow>
        length (events x) \<le> 16 \<and> length (errs x) \<le> 1 \<and> (events_closed x \<longrightarrow> errs_closed x) \<and>
        (\<exists>rest. rs = map Inr (taken_events x @ events x) @ rest) \<and>
        (errs_closed x \<and> \<not> cancelled x \<longrightarrow>
           (\<exists>err rest. rs = map Inr (taken_events x @ events x) @ Inl err # rest \<and>
              taken_errs x @ errs x = (if err = EOF then [] else [err])))"
proof (cases "TransactionEvents (stub (client_conn c)) s")
  case (Pair out s')
  show ?thesis
  proof (cases out)
    case (Inl err)
    then show ?thesis
      using stream_failed_stays [of err x] assms Pair
      by (simp add: StreamTransactionEvents_def start_stream_def handed_def reported_def)
  next
    case (Inr rs)
    then have "stream_inv rs x"
      using stream_inv_reachable assms Pair by (simp add: StreamTransactionEvents_def start_stream_def)
    from forwarded_inv [OF this] show ?thesis using Inr Pair by (simp add: handed_def reported_def)
  qed
qed

definition one_event :: "unit \<Rightarrow> (nat, string, string, string, string) wallet_stub" where
  "one_event conn = slow_wallet conn\<lparr>TransactionEvents := (\<lambda>n. (Inr [Inr ''mined'', Inl ContextError], n))\<rparr>"

definition one_event_done :: "string event_stream" where
  "one_event_done = \<lparr>position = ErrsClosed, incoming = [], events = [''mined''], errs = [ContextError],
     events_closed = False, errs_closed = True, cancelled = False, taken_events = [], taken_errs = []\<rparr>"

lemma one_event_run: "worker_step\<^sup>*\<^sup>* (stream_opened [Inr ''mined'', Inl ContextError]) one_event_done"
proof -
  let ?x0 = "stream_opened [Inr ''mined'', Inl ContextError] :: string event_stream"
  let ?x1 = "?x0\<lparr>position := SendingEvent ''mined'', incoming := [Inl ContextError]\<rparr>"
  let ?x2 = "?x1\<lparr>position := Receiving, events := events ?x1 @ [''mined'']\<rparr>"
  let ?x3 = "?x2\<lparr>position := SendingError ContextError, incoming := []\<rparr>"
  let ?x4 = "?x3\<lparr>position := Returning, errs := errs ?x3 @ [ContextError]\<rparr>"
  let ?x5 = "?x4\<lparr>position := ErrsClosed, errs_closed := True\<rparr>"
  have "worker_step ?x0 ?x1" by (rule worker_step.recv_event) (simp_all add: stream_opened_def)
  moreover have "worker_step ?x1 ?x2"
    by (rule worker_step.send_event) (simp_all add: stream_opened_def events_capacity_def)
  moreover have "worker_step ?x2 ?x3" by (rule worker_step.recv_error) (simp_all add: stream_opened_def)
  moreover have "worker_step ?x3 ?x4"
    by (rule worker_step.send_error) (simp_all add: stream_opened_def errs_capacity_def)
  moreover have "worker_step ?x4 ?x5" by (rule worker_step.close_errs) simp
  ultimately have "worker_step\<^sup>*\<^sup>* ?x0 ?x5" by (meson converse_rtranclp_into_rtranclp rtranclp.rtrancl_refl)
  moreover have "?x5 = one_event_done" by (simp add: stream_opened_def one_event_done_def)
  ultimately show ?thesis by (simp only:)
qed

lemma worker_run_is_run: "worker_step\<^sup>*\<^sup>* x y \<Longrightarrow> stream_step\<^sup>*\<^sup>* x y"
  by (rule rtranclp_mono [THEN predicate2D]) (auto simp: stream_step_def)

theorem events_forwarded_witness:
  "length (events one_event_done) \<le> 16 \<and>
   (\<exists>err rest. [Inr ''mined'', Inl ContextError] = map Inr [''mined''] @ Inl err # rest \<and>
      [ContextError] = (if err = EOF then [] else [err]))"
  using events_forwarded [where stub = one_event and c = "\<lparr>client_conn = ()\<rparr>" and s = 0 and x = one_event_done]
    worker_run_is_run [OF one_event_run]
  by (simp add: StreamTransactionEvents_def start_stream_def one_event_def one_event_done_def)

section \<open>The goroutine ends\<close>

fun stream_rank :: "'e event_stream \<Rightarrow> nat" where
  "stream_rank x =
     (case position x of
        Receiving \<Rightarrow> 2 * length (incoming x) + 4
      | SendingEvent _ \<Rightarrow> 2 * length (incoming x) + 5
      | SendingError _ \<Rightarrow> 3
      | Returning \<Rightarrow> 2
      | ErrsClosed \<Rightarrow> 1
      | Exited \<Rightarrow> 0)"

interpretation stream_runs: bounded_steps worker_step stream_rank
proof
  fix x y :: "'e event_stream"
  assume "worker_step x y"
  then show "stream_rank y < stream_rank x" by (induction rule: worker_step.induct) simp_all
qed

text \<open>The goroutine waits only for an event to arrive or for room for one, and not once the context is
  cancelled: the error channel always has room.\<close>

lemma worker_enabled:
  assumes "stream_inv rs x" "position x \<noteq> Exited"
    "cancelled x \<or> position x = Receiving \<and> incoming x \<noteq> [] \<or> length (events x) < 16 \<and> position x \<noteq> Receiving"
  shows "\<exists>y. worker_step x y"
proof (cases "position x")
  case Receiving
  show ?thesis
  proof (cases "cancelled x")
    case False
    then obtain r rs' where r: "incoming x = r # rs'" using assms(3) Receiving by (cases "incoming x") auto
    show ?thesis
    proof (cases r)
      case (Inl err)
      then show ?thesis
        using worker_step.recv_eof [OF Receiving] worker_step.recv_error [OF Receiving] r by (cases "err = EOF") blast+
    next
      case (Inr e)
      then show ?thesis using worker_step.recv_event [OF Receiving] r by blast
    qed
  qed (blast intro: worker_step.recv_cancelled [OF Receiving])
next
  case (SendingEvent e)
  then show ?thesis
    using assms(3) worker_step.send_event [OF SendingEvent] worker_step.select_done [OF SendingEvent]
    by (auto simp: events_capacity_def)
next
  case (SendingError err)
  then have "errs x = []" using assms(1) by (simp add: stream_inv_def reported_def)
  then show ?thesis using worker_step.send_error [OF SendingError] by (auto simp: errs_capacity_def)
qed (use assms(2) worker_step.close_errs worker_step.close_events in blast)+

lemma worker_keeps_cancelled: "worker_step x y \<Longrightarrow> cancelled y = cancelled x"
  by (induction rule: worker_step.induct) simp_all

lemma worker_run_keeps:
  "worker_step\<^sup>*\<^sup>* x y \<Longrightarrow> stream_inv rs x \<Longrightarrow> stream_inv rs y \<and> cancelled y = cancelled x"
  by (induction rule: rtranclp_induct) (auto intro: stream_inv_worker dest: worker_keeps_cancelled)

text \<open>C22. Cancelling the context ends the goroutine, whether or not the caller still takes from the
  channels: from every state of a cancelled stream the goroutine comes to its end, after at most two
  steps for each message that was still to come and five more; and it stops nowhere else than with both
  channels closed.\<close>

theorem cancel_ends_stream:
  assumes "stream_step\<^sup>*\<^sup>* (stream_opened rs) x" and "cancelled x"
  shows "(\<exists>y. worker_step\<^sup>*\<^sup>* x y \<and> (\<nexists>z. worker_step y z)) \<and>
    ((worker_step ^^ n) x y \<longrightarrow> n \<le> 2 * length (incoming x) + 5 \<and>
       ((\<nexists>z. worker_step y z) \<longrightarrow> position y = Exited \<and> events_closed y \<and> errs_closed y))"
proof -
  note inv = stream_inv_reachable [OF assms(1)]
  have "n \<le> 2 * length (incoming x) + 5" if "(worker_step ^^ n) x y"
    using stream_runs.run_bounded [OF that] by (simp split: position.splits)
  moreover have "position y = Exited \<and> events_closed y \<and> errs_closed y"
    if "(worker_step ^^ n) x y" "\<nexists>z. worker_step y z"
  proof -
    have "stream_inv rs y" "cancelled y"
      using worker_run_keeps [OF relpowp_imp_rtranclp [OF that(1)] inv] assms(2) by simp_all
    with worker_enabled [of rs y] that(2) show ?thesis by (auto simp: stream_inv_def)
  qed
  ultimately show ?thesis using stream_runs.run_ends [of x] by blast
qed

theorem cancel_ends_stream_witness:
  "\<exists>y. worker_step\<^sup>*\<^sup>* ((stream_opened [Inr ''a'', Inr ''b''])\<lparr>cancelled := True\<rparr>) y \<and> (\<nexists>z. worker_step y z)"
proof -
  let ?x = "(stream_opened [Inr ''a'', Inr ''b''])\<lparr>cancelled := True\<rparr> :: string event_stream"
  have "stream_step\<^sup>*\<^sup>* (stream_opened [Inr ''a'', Inr ''b'']) ?x"
    by (rule r_into_rtranclp) (simp add: stream_step_def caller_step.cancel)
  then show ?thesis using cancel_ends_stream [of "[Inr ''a'', Inr ''b'']" ?x 0 ?x] by simp
qed

end
