(* ===== verification/Node_Client.thy ===== *)
theory Node_Client
  imports Grpc_Calls
begin

text \<open>
  \<^verbatim>\<open>src/nodeGRPC/client.go\<close>: the methods of a client of one base node, and the deprecated functions on a
  connection of the package. Messages that are only passed on are of a type variable.
\<close>

section \<open>Messages and the stub\<close>

record HeightRequest =
  FromTip :: u64
  StartHeight :: u64
  EndHeight :: u64

record 'b BlockResponse =
  Block :: "'b option"

text \<open>The unary calls, each with its request; nil is \<open>None\<close>. A request the caller hands over is passed on
  as it is.\<close>

datatype 'q node_query =
    TipInfoQuery
  | NewBlockTemplateQuery "'q option"
  | NewBlockWithCoinbasesQuery "'q option"
  | NewBlockTemplateWithCoinbasesQuery "'q option"
  | NetworkStateQuery
  | NewBlockQuery "'q option"
  | HeaderByHashQuery bytes
  | SubmitBlockQuery "'q option"
  | IdentifyQuery
  | SyncProgressQuery
  | MempoolStatsQuery

text \<open>The generated \<^verbatim>\<open>BaseNodeClient\<close> over the state of the node. \<open>GetBlocks\<close> also takes the largest message
  the caller will receive.\<close>

record ('s, 'q, 'b, 'd, 'm) node_stub =
  NodeQuery :: "'q node_query \<Rightarrow> ('s, 'm) io"
  GetBlocks :: "u64 list \<Rightarrow> nat \<Rightarrow> ('s, 'b BlockResponse recvs) io"
  GetNetworkDifficulty :: "HeightRequest \<Rightarrow> ('s, 'd recvs) io"

text \<open>One \<^verbatim>\<open>Recv\<close> on a stream: \<open>None\<close> while nothing has come.\<close>

fun first_recv :: "'d recvs \<Rightarrow> (go_error + 'd) option" where
  "first_recv [] = None"
| "first_recv (r # rs) = Some r"

definition recv_once :: "('s, 'd recvs) io \<Rightarrow> 's \<Rightarrow> ((go_error + 'd) \<times> 's) option" where
  "recv_once call s =
     (case call s of
        (Inl err, s') \<Rightarrow> Some (Inl err, s')
      | (Inr rs, s') \<Rightarrow> map_option (\<lambda>r. (r, s')) (first_recv rs))"

section \<open>The client\<close>

record 'c NodeClient =
  node_conn :: 'c

definition NewClient :: "'c dialer \<Rightarrow> string \<Rightarrow> go_error + 'c NodeClient" where
  "NewClient dial nodeAddress =
     (case dial nodeAddress [InsecureCredentials] of
        Inl err \<Rightarrow> Inl err
      | Inr conn \<Rightarrow> Inr \<lparr>node_conn = conn\<rparr>)"

definition NodeClient_Close :: "('c \<Rightarrow> ('s, unit) io) \<Rightarrow> 'c NodeClient \<Rightarrow> ('s, unit) io" where
  "NodeClient_Close conn_close c = conn_close (node_conn c)"

definition GetTipInfo :: "('c \<Rightarrow> ('s, 'q, 'b, 'd, 'm) node_stub) \<Rightarrow> 'c NodeClient \<Rightarrow> ('s, 'm) io" where
  "GetTipInfo stub c = NodeQuery (stub (node_conn c)) TipInfoQuery"
definition GetBlockTemplate :: "('c \<Rightarrow> ('s, 'q, 'b, 'd, 'm) node_stub) \<Rightarrow> 'c NodeClient \<Rightarrow> 'q option \<Rightarrow> ('s, 'm) io" where
  "GetBlockTemplate stub c algo = NodeQuery (stub (node_conn c)) (NewBlockTemplateQuery algo)"
definition GetBlockWithCoinbases :: "('c \<Rightarrow> ('s, 'q, 'b, 'd, 'm) node_stub) \<Rightarrow> 'c NodeClient \<Rightarrow> 'q option \<Rightarrow> ('s, 'm) io" where
  "GetBlockWithCoinbases stub c requestData = NodeQuery (stub (node_conn c)) (NewBlockWithCoinbasesQuery requestData)"
definition GetNewBlockTemplateWithCoinbases ::
  "('c \<Rightarrow> ('s, 'q, 'b, 'd, 'm) node_stub) \<Rightarrow> 'c NodeClient \<Rightarrow> 'q option \<Rightarrow> ('s, 'm) io" where
  "GetNewBlockTemplateWithCoinbases stub c requestData =
     NodeQuery (stub (node_conn c)) (NewBlockTemplateWithCoinbasesQuery requestData)"
definition GetNetworkState :: "('c \<Rightarrow> ('s, 'q, 'b, 'd, 'm) node_stub) \<Rightarrow> 'c NodeClient \<Rightarrow> ('s, 'm) io" where
  "GetNetworkState stub c = NodeQuery (stub (node_conn c)) NetworkStateQuery"
definition GetNewBlock :: "('c \<Rightarrow> ('s, 'q, 'b, 'd, 'm) node_stub) \<Rightarrow> 'c NodeClient \<Rightarrow> 'q option \<Rightarrow> ('s, 'm) io" where
  "GetNewBlock stub c requestData = NodeQuery (stub (node_conn c)) (NewBlockQuery requestData)"

definition GetBlockByHeight ::
  "('c \<Rightarrow> ('s, 'q, 'b, 'd, 'm) node_stub) \<Rightarrow> 'c NodeClient \<Rightarrow> u64 list \<Rightarrow> 's \<Rightarrow> ((go_error + 'b option list) \<times> 's) option" where
  "GetBlockByHeight stub c blockIDs s =
     drained Block (GetBlocks (stub (node_conn c)) blockIDs (16 * 1024 * 1024)) s"

definition GetHeaderByHash :: "('c \<Rightarrow> ('s, 'q, 'b, 'd, 'm) node_stub) \<Rightarrow> 'c NodeClient \<Rightarrow> bytes \<Rightarrow> ('s, 'm) io" where
  "GetHeaderByHash stub c blockHash = NodeQuery (stub (node_conn c)) (HeaderByHashQuery blockHash)"
definition SubmitBlock :: "('c \<Rightarrow> ('s, 'q, 'b, 'd, 'm) node_stub) \<Rightarrow> 'c NodeClient \<Rightarrow> 'q option \<Rightarrow> ('s, 'm) io" where
  "SubmitBlock stub c requestData = NodeQuery (stub (node_conn c)) (SubmitBlockQuery requestData)"

text \<open>The fields a composite literal does not name are zero.\<close>

definition GetNetworkDiff ::
  "('c \<Rightarrow> ('s, 'q, 'b, 'd, 'm) node_stub) \<Rightarrow> 'c NodeClient \<Rightarrow> u64 \<Rightarrow> 's \<Rightarrow> ((go_error + 'd) \<times> 's) option" where
  "GetNetworkDiff stub c height s =
     recv_once (GetNetworkDifficulty (stub (node_conn c))
       (if height = 0 then \<lparr>FromTip = 1, StartHeight = 0, EndHeight = 0\<rparr>
        else \<lparr>FromTip = 0, StartHeight = height, EndHeight = height\<rparr>)) s"

definition GetNodeIdentity :: "('c \<Rightarrow> ('s, 'q, 'b, 'd, 'm) node_stub) \<Rightarrow> 'c NodeClient \<Rightarrow> ('s, 'm) io" where
  "GetNodeIdentity stub c = NodeQuery (stub (node_conn c)) IdentifyQuery"
definition GetSyncProgress :: "('c \<Rightarrow> ('s, 'q, 'b, 'd, 'm) node_stub) \<Rightarrow> 'c NodeClient \<Rightarrow> ('s, 'm) io" where
  "GetSyncProgress stub c = NodeQuery (stub (node_conn c)) SyncProgressQuery"
definition GetMempoolStats :: "('c \<Rightarrow> ('s, 'q, 'b, 'd, 'm) node_stub) \<Rightarrow> 'c NodeClient \<Rightarrow> ('s, 'm) io" where
  "GetMempoolStats stub c = NodeQuery (stub (node_conn c)) MempoolStatsQuery"

section \<open>The deprecated package-level functions\<close>

record 'c node_globals =
  grpcNodeAddress :: string
  node_grpcConn :: "'c option"

definition InitNodeGRPC :: "'c dialer \<Rightarrow> string \<Rightarrow> 'c node_globals \<Rightarrow> 'c node_globals" where
  "InitNodeGRPC dial nodeAddress g = g\<lparr>grpcNodeAddress := nodeAddress,
     node_grpcConn := (case dial nodeAddress [InsecureCredentials] of Inl _ \<Rightarrow> None | Inr c \<Rightarrow> Some c)\<rparr>"

definition old_GetTipInfo :: "('c \<Rightarrow> ('s, 'q, 'b, 'd, 'm) node_stub) \<Rightarrow> 'c node_globals \<Rightarrow> ('s, 'm) io" where
  "old_GetTipInfo stub g = with_conn (node_grpcConn g) (\<lambda>conn. NodeQuery (stub conn) TipInfoQuery)"
definition old_GetBlockTemplate ::
  "('c \<Rightarrow> ('s, 'q, 'b, 'd, 'm) node_stub) \<Rightarrow> 'c node_globals \<Rightarrow> 'q option \<Rightarrow> ('s, 'm) io" where
  "old_GetBlockTemplate stub g algo =
     with_conn (node_grpcConn g) (\<lambda>conn. NodeQuery (stub conn) (NewBlockTemplateQuery algo))"
definition old_GetBlockWithCoinbases ::
  "('c \<Rightarrow> ('s, 'q, 'b, 'd, 'm) node_stub) \<Rightarrow> 'c node_globals \<Rightarrow> 'q option \<Rightarrow> ('s, 'm) io" where
  "old_GetBlockWithCoinbases stub g requestData =
     with_conn (node_grpcConn g) (\<lambda>conn. NodeQuery (stub conn) (NewBlockWithCoinbasesQuery requestData))"
definition old_GetNewBlockTemplateWithCoinbases ::
  "('c \<Rightarrow> ('s, 'q, 'b, 'd, 'm) node_stub) \<Rightarrow> 'c node_globals \<Rightarrow> 'q option \<Rightarrow> ('s, 'm) io" where
  "old_GetNewBlockTemplateWithCoinbases stub g requestData =
     with_conn (node_grpcConn g) (\<lambda>conn. NodeQuery (stub conn) (NewBlockTemplateWithCoinbasesQuery requestData))"
definition old_GetNetworkState :: "('c \<Rightarrow> ('s, 'q, 'b, 'd, 'm) node_stub) \<Rightarrow> 'c node_globals \<Rightarrow> ('s, 'm) io" where
  "old_GetNetworkState stub g = with_conn (node_grpcConn g) (\<lambda>conn. NodeQuery (stub conn) NetworkStateQuery)"
definition old_GetNewBlock :: "('c \<Rightarrow> ('s, 'q, 'b, 'd, 'm) node_stub) \<Rightarrow> 'c node_globals \<Rightarrow> 'q option \<Rightarrow> ('s, 'm) io" where
  "old_GetNewBlock stub g requestData =
     with_conn (node_grpcConn g) (\<lambda>conn. NodeQuery (stub conn) (NewBlockQuery requestData))"
definition old_GetBlockByHeight ::
  "('c \<Rightarrow> ('s, 'q, 'b, 'd, 'm) node_stub) \<Rightarrow> 'c node_globals \<Rightarrow> u64 list \<Rightarrow> 's \<Rightarrow> ((go_error + 'b option list) \<times> 's) option" where
  "old_GetBlockByHeight stub g blockIDs s =
     drained Block (with_conn (node_grpcConn g) (\<lambda>conn. GetBlocks (stub conn) blockIDs (16 * 1024 * 1024))) s"
definition old_GetHeaderByHash :: "('c \<Rightarrow> ('s, 'q, 'b, 'd, 'm) node_stub) \<Rightarrow> 'c node_globals \<Rightarrow> bytes \<Rightarrow> ('s, 'm) io" where
  "old_GetHeaderByHash stub g blockHash =
     with_conn (node_grpcConn g) (\<lambda>conn. NodeQuery (stub conn) (HeaderByHashQuery blockHash))"
definition old_SubmitBlock :: "('c \<Rightarrow> ('s, 'q, 'b, 'd, 'm) node_stub) \<Rightarrow> 'c node_globals \<Rightarrow> 'q option \<Rightarrow> ('s, 'm) io" where
  "old_SubmitBlock stub g requestData =
     with_conn (node_grpcConn g) (\<lambda>conn. NodeQuery (stub conn) (SubmitBlockQuery requestData))"
definition old_GetNetworkDiff ::
  "('c \<Rightarrow> ('s, 'q, 'b, 'd, 'm) node_stub) \<Rightarrow> 'c node_globals \<Rightarrow> u64 \<Rightarrow> 's \<Rightarrow> ((go_error + 'd) \<times> 's) option" where
  "old_GetNetworkDiff stub g height s =
     recv_once (with_conn (node_grpcConn g) (\<lambda>conn. GetNetworkDifficulty (stub conn)
       (if height = 0 then \<lparr>FromTip = 1, StartHeight = 0, EndHeight = 0\<rparr>
        else \<lparr>FromTip = 0, StartHeight = height, EndHeight = height\<rparr>))) s"
definition old_GetNodeIdentity :: "('c \<Rightarrow> ('s, 'q, 'b, 'd, 'm) node_stub) \<Rightarrow> 'c node_globals \<Rightarrow> ('s, 'm) io" where
  "old_GetNodeIdentity stub g = with_conn (node_grpcConn g) (\<lambda>conn. NodeQuery (stub conn) IdentifyQuery)"
definition old_GetSyncProgress :: "('c \<Rightarrow> ('s, 'q, 'b, 'd, 'm) node_stub) \<Rightarrow> 'c node_globals \<Rightarrow> ('s, 'm) io" where
  "old_GetSyncProgress stub g = with_conn (node_grpcConn g) (\<lambda>conn. NodeQuery (stub conn) SyncProgressQuery)"
definition old_GetMempoolStats :: "('c \<Rightarrow> ('s, 'q, 'b, 'd, 'm) node_stub) \<Rightarrow> 'c node_globals \<Rightarrow> ('s, 'm) io" where
  "old_GetMempoolStats stub g = with_conn (node_grpcConn g) (\<lambda>conn. NodeQuery (stub conn) MempoolStatsQuery)"

section \<open>Streams\<close>

lemma first_recv_Some: "first_recv rs = Some r \<longleftrightarrow> (\<exists>rest. rs = r # rest)"
  by (cases rs) auto

lemma recv_once_result:
  "recv_once call s = Some (r, s') \<longleftrightarrow>
     (\<exists>err. call s = (Inl err, s') \<and> r = Inl err) \<or> (\<exists>rest. call s = (Inr (r # rest), s'))"
  by (cases "call s") (auto simp: recv_once_def first_recv_Some split: sum.splits)

text \<open>The two calls on streams of the node. \<^verbatim>\<open>GetBlockByHeight\<close> returns the blocks of all answers before a
  clean end, in order, or the first error alone. \<^verbatim>\<open>GetNetworkDiff\<close> asks for the tip when it is given zero
  and otherwise for the one height, and returns the first answer, be it a difficulty or an error. Both
  wait exactly as long as such an answer is missing.\<close>

theorem node_streams:
  "(GetBlockByHeight stub c blockIDs s = Some (r, s') \<longleftrightarrow>
      (\<exists>err. GetBlocks (stub (node_conn c)) blockIDs 16777216 s = (Inl err, s') \<and> r = Inl err) \<or>
      (\<exists>ms err rest. GetBlocks (stub (node_conn c)) blockIDs 16777216 s = (Inr (map Inr ms @ Inl err # rest), s') \<and>
         r = (if err = EOF then Inr (map Block ms) else Inl err))) \<and>
   (GetNetworkDiff stub c height s = Some (d, s') \<longleftrightarrow>
      (\<exists>req. (req = \<lparr>FromTip = 1, StartHeight = 0, EndHeight = 0\<rparr> \<and> height = 0 \<or>
             req = \<lparr>FromTip = 0, StartHeight = height, EndHeight = height\<rparr> \<and> height \<noteq> 0) \<and>
         ((\<exists>err. GetNetworkDifficulty (stub (node_conn c)) req s = (Inl err, s') \<and> d = Inl err) \<or>
          (\<exists>rest. GetNetworkDifficulty (stub (node_conn c)) req s = (Inr (d # rest), s')))))"
  by (auto simp: GetBlockByHeight_def GetNetworkDiff_def drained_result recv_once_result)

section \<open>The two interfaces\<close>

record ('s, 'q, 'b, 'd, 'm) node_calls =
  call_constant :: "('s, 'm) io list"
  call_with_request :: "('q option \<Rightarrow> ('s, 'm) io) list"
  call_header :: "bytes \<Rightarrow> ('s, 'm) io"
  call_blocks :: "u64 list \<Rightarrow> 's \<Rightarrow> ((go_error + 'b option list) \<times> 's) option"
  call_difficulty :: "u64 \<Rightarrow> 's \<Rightarrow> ((go_error + 'd) \<times> 's) option"

definition node_client_calls ::
  "('c \<Rightarrow> ('s, 'q, 'b, 'd, 'm) node_stub) \<Rightarrow> 'c NodeClient \<Rightarrow> ('s, 'q, 'b, 'd, 'm) node_calls" where
  "node_client_calls stub c = \<lparr>
     call_constant = [GetTipInfo stub c, GetNetworkState stub c, GetNodeIdentity stub c, GetSyncProgress stub c,
       GetMempoolStats stub c],
     call_with_request = [GetBlockTemplate stub c, GetBlockWithCoinbases stub c, GetNewBlockTemplateWithCoinbases stub c,
       GetNewBlock stub c, SubmitBlock stub c],
     call_header = GetHeaderByHash stub c, call_blocks = GetBlockByHeight stub c, call_difficulty = GetNetworkDiff stub c\<rparr>"

definition node_deprecated_calls ::
  "('c \<Rightarrow> ('s, 'q, 'b, 'd, 'm) node_stub) \<Rightarrow> 'c node_globals \<Rightarrow> ('s, 'q, 'b, 'd, 'm) node_calls" where
  "node_deprecated_calls stub g = \<lparr>
     call_constant = [old_GetTipInfo stub g, old_GetNetworkState stub g, old_GetNodeIdentity stub g, old_GetSyncProgress stub g,
       old_GetMempoolStats stub g],
     call_with_request = [old_GetBlockTemplate stub g, old_GetBlockWithCoinbases stub g,
       old_GetNewBlockTemplateWithCoinbases stub g, old_GetNewBlock stub g, old_SubmitBlock stub g],
     call_header = old_GetHeaderByHash stub g, call_blocks = old_GetBlockByHeight stub g,
     call_difficulty = old_GetNetworkDiff stub g\<rparr>"

lemmas node_defs =
  GetTipInfo_def GetNetworkState_def GetNodeIdentity_def GetSyncProgress_def GetMempoolStats_def GetBlockTemplate_def
  GetBlockWithCoinbases_def GetNewBlockTemplateWithCoinbases_def GetNewBlock_def SubmitBlock_def GetHeaderByHash_def
  GetBlockByHeight_def GetNetworkDiff_def node_client_calls_def

lemmas node_old_defs =
  old_GetTipInfo_def old_GetNetworkState_def old_GetNodeIdentity_def old_GetSyncProgress_def old_GetMempoolStats_def
  old_GetBlockTemplate_def old_GetBlockWithCoinbases_def old_GetNewBlockTemplateWithCoinbases_def old_GetNewBlock_def
  old_SubmitBlock_def old_GetHeaderByHash_def old_GetBlockByHeight_def old_GetNetworkDiff_def node_deprecated_calls_def

text \<open>The deprecated functions of the package are the methods of a client on the connection that
  \<^verbatim>\<open>InitNodeGRPC\<close> has dialled last. When dialling fails, \<^verbatim>\<open>NewClient\<close> returns the error; \<^verbatim>\<open>InitNodeGRPC\<close> drops
  it, also loses the connection it had, and every later call panics.\<close>

theorem deprecated_node_equivalent:
  "case NewClient dial nodeAddress of
     Inr c \<Rightarrow> node_deprecated_calls stub (InitNodeGRPC dial nodeAddress g) = node_client_calls stub c
   | Inl err \<Rightarrow>
       dial nodeAddress [InsecureCredentials] = Inl err \<and>
       (let old = node_deprecated_calls stub (InitNodeGRPC dial nodeAddress g) in
         list_all (\<lambda>call. call s = (Inl NilPanic, s)) (call_constant old) \<and>
         list_all (\<lambda>call. call req s = (Inl NilPanic, s)) (call_with_request old) \<and>
         call_header old hash s = (Inl NilPanic, s) \<and>
         call_blocks old ids s = Some (Inl NilPanic, s) \<and>
         call_difficulty old height s = Some (Inl NilPanic, s))"
proof (cases "dial nodeAddress [InsecureCredentials]")
  case (Inl err)
  then show ?thesis
    by (simp add: NewClient_def InitNodeGRPC_def node_old_defs with_conn_def drained_def recv_once_def)
next
  case (Inr conn)
  then have g: "node_grpcConn (InitNodeGRPC dial nodeAddress g) = Some conn"
    and c: "NewClient dial nodeAddress = Inr \<lparr>node_conn = conn\<rparr>"
    by (simp_all add: InitNodeGRPC_def NewClient_def)
  show ?thesis unfolding c by (simp add: g node_old_defs node_defs with_conn_def fun_eq_iff)
qed

end
