(* ===== verification/Spec2Isabelle.thy ===== *)
theory Spec2Isabelle
  imports Tari_Address Rpc_Properties Rpc_Errors Probe_Rpc Pipe_Exchange Responder_Shutdown Wallet_Events Node_Client
begin

text \<open>
  A verification library for the Go module \<^verbatim>\<open>go-tari-lib\<close>: Tari addresses, a client and a responder
  of the Tari peer-to-peer network, and clients of the gRPC interfaces of wallets and base nodes.

  \<^bold>\<open>The program and its parts.\<close>
  \<^item> \<^verbatim>\<open>src/address\<close>: single and dual addresses, their byte, emoji, base58 and hexadecimal forms, the
    checksum, \<^verbatim>\<open>Parse\<close> and \<^verbatim>\<open>CombineAddresses\<close>. It stands alone.
  \<^item> \<^verbatim>\<open>src/p2p\<close>: a probe dials a peer (\<^verbatim>\<open>socks.go\<close>), runs a Noise XX handshake over the Ristretto group
    (\<^verbatim>\<open>handshake.go\<close>, \<^verbatim>\<open>ristretto_dh.go\<close>, \<^verbatim>\<open>hashing.go\<close>) in length-prefixed frames (\<^verbatim>\<open>frame.go\<close>), exchanges
    signed identities over the encrypted session (\<^verbatim>\<open>session.go\<close>, \<^verbatim>\<open>identity.go\<close>, \<^verbatim>\<open>identity_signature.go\<close>),
    and may go on to multiplex it (\<^verbatim>\<open>yamuxadapter.go\<close>). \<^verbatim>\<open>responder.go\<close> is the other side.
  \<^item> \<^verbatim>\<open>src/p2p/rpc\<close>: protocol negotiation, session handshake and two calls, over one byte stream.
  \<^item> \<^verbatim>\<open>src/cmd/p2p-responder-spike\<close>: a program that serves the peers it has met within the hour.
  \<^item> \<^verbatim>\<open>src/walletGRPC\<close>, \<^verbatim>\<open>src/nodeGRPC\<close>: clients over generated gRPC stubs, each also as deprecated functions
    on one connection of the package.

  \<^bold>\<open>How code is modelled.\<close> A function is a definition of the same name where HOL allows it, a struct a
  record, an error an \<open>Inl\<close>. Stateful code is a function from a state to a result and a new state (theory
  \<open>Go_IO\<close>: the type \<open>io\<close>, sequencing with Go's early return, a connection as the bytes still to be read, the
  bytes written, and how many more the peer will take). Goroutines, channels and selects are step
  relations: \<open>exchange_step\<close> (\<open>Identity_Exchange\<close>), \<open>concurrent_step\<close> (\<open>Pipe_Exchange\<close>), \<open>serve_step\<close> (\<open>Responder\<close>), \<open>spike_step\<close>
  (\<open>Responder_Program\<close>), \<open>worker_step\<close> and \<open>caller_step\<close> (\<open>Wallet_Events\<close>). Fixed-width integers are
  words. Texts that Go interpolates into error messages are not kept, the format and the wrapped error
  are.

  \<^bold>\<open>The theories.\<close>
  \<^item> \<open>Prelude\<close>: bytes, hexadecimal, and the interfaces the components share as locales: \<open>codec\<close>,
    \<open>canonical_codec\<close>, \<open>prefix_code\<close>, \<open>stream_parser\<close>, \<open>bounded_steps\<close>.
  \<^item> \<open>Dammsum\<close>, \<open>Go_Strings\<close> (UTF-8 and runes), \<open>Emoji_Table\<close>, \<open>Address_Types\<close>, \<open>Base58_Text\<close>,
    \<open>Base58_Bitcoin\<close>, \<open>Address_Format\<close>, \<open>Single_Address\<close>, \<open>Dual_Address\<close>, \<open>Tari_Address\<close>: the files of
    \<^verbatim>\<open>src/address\<close> in the order of their imports. The decoders accept exactly the encodings of well-formed
    addresses; \<open>Parse\<close> recognises every text form; the checksum finds every substitution.
  \<^item> \<open>Noise_Frame\<close> (\<^verbatim>\<open>frame.go\<close>), \<open>Rpc_Frames\<close> (\<^verbatim>\<open>canonicalframe.go\<close>, \<^verbatim>\<open>negotiation.go\<close>), \<open>Rpc_Transport\<close>
    (\<^verbatim>\<open>transport.go\<close>, \<^verbatim>\<open>streamtransport.go\<close>), \<open>Proto_Messages\<close> and \<open>Proto_Wire\<close> (the messages and their proto3
    encoding), \<open>Rpc_Session\<close> (negotiation, session handshake, \<^verbatim>\<open>get_chain_metadata\<close>), \<open>Rpc_Get_Peers\<close> (both
    sides of \<^verbatim>\<open>get_peers\<close>), \<open>Rpc_Properties\<close>: frames and messages are read back as they were written, the
    two sides of each protocol agree, and a hostile peer is cut off. \<open>Proto_Accessors\<close> has the generated getters
    and \<^verbatim>\<open>Reset\<close> (a nil message reads like the reset one, which the empty encoding stands for), \<open>Rpc_Errors\<close> the
    texts of the errors that carry a number of the peer, and that they tell it.
  \<^item> \<open>Hashing\<close>, \<open>Ristretto\<close>, \<open>Identity\<close>: domain-separated transcripts are unambiguous, Diffie-Hellman agrees,
    and the identity message this package signs is one it verifies, and commits to its contents.
  \<^item> \<open>Noise_Session\<close> (frames of \<^verbatim>\<open>session.go\<close>, \<^verbatim>\<open>yamuxadapter.go\<close>), \<open>Identity_Exchange\<close> (the two goroutines and
    the select of \<^verbatim>\<open>ExchangeIdentityWithOptions\<close>), \<open>Handshake\<close>, \<open>Dialing\<close>, \<open>Probe\<close> (the six probes): the
    adapter is a byte stream, the exchange always ends and yields the peer's identity, both sides of the
    handshake meet, an onion address is never dialled in the clear, and a probe of a responder of this
    package returns that responder's identity. \<open>Pipe_Exchange\<close> joins the two sides of the exchange by an
    unbuffered pipe: the concurrent exchange completes, where writing before reading would block.
    \<open>Probe_Rpc\<close> goes through all layers: the probe for peers, met by the responder, returns its peers.
  \<^item> \<open>Multiaddr\<close>, \<open>Responder\<close>, \<open>Peer_Store\<close>, \<open>Responder_Program\<close>: what is advertised is a well-formed
    binary address; \<^verbatim>\<open>Serve\<close> waits for all it started and reports only authenticated peers; the store
    refines a map from peers to when they were last seen; and the program serves nothing but
    identities it has authenticated. \<open>Responder_Shutdown\<close>: once nothing new arrives, \<^verbatim>\<open>Serve\<close> and with it the
    program ends after a bounded number of events; but the cancelled context does not end a
    multiplexed connection, whose peer can hold up the end.
  \<^item> \<open>Grpc_Calls\<close>, \<open>Wallet_Client\<close>, \<open>Wallet_Events\<close>, \<open>Node_Client\<close>: a failed transfer is marked as ambiguous
    exactly when it may have been broadcast; streams are collected whole or not at all; events are
    forwarded in order and the goroutine ends when it is cancelled; the deprecated functions are the
    methods on the same connection, and panic after a failed dial.

  \<^bold>\<open>Interfaces and their instances.\<close> Code the repository only calls is a parameter, what it documents is a
  locale, and each locale is interpreted: \<open>base58\<close> on the Bitcoin algorithm (\<open>bitcoin\<close>), \<open>proto_codec\<close> and
  \<open>identity_codec\<close> on the proto3 wire format (\<open>proto3\<close>, \<open>identity_proto3\<close>), \<open>ristretto_group\<close> on the integers
  modulo the order of the group (\<open>residues\<close>), \<open>noise_cipher\<close> on a cipher that counts its messages
  (\<open>counters\<close>), \<open>noise_xx\<close> on the XX exchange of keys without encryption (\<open>plain\<close>). These show that
  the hypotheses can be met; they are not secure. The contracts between the repository's own components are
  interpreted on its own definitions: \<open>address_format\<close> (\<open>single_format\<close>, \<open>dual_format\<close>,
  \<open>tari_format\<close>), \<open>canonical_codec\<close> (\<open>emoji\<close>, \<open>canonical_frame\<close>, \<open>negotiation_frame\<close>), \<open>stream_parser\<close>
  (\<open>noise_frames\<close>), \<open>prefix_code\<close> (\<open>transcript\<close>), \<open>rpc_transport\<close> (\<open>stream_rpc\<close>), \<open>rpc_endpoint\<close>
  (\<open>stream_proto3\<close>), \<open>bounded_steps\<close> (\<open>exchange_runs\<close>, \<open>pipe_runs\<close>, \<open>quiet_runs\<close>, \<open>stream_runs\<close>),
  \<open>generated_message\<close> (one instance for each message, \<open>RpcRequest_pb\<close> to \<open>IdentitySignature_pb\<close>). \<open>enum_printer\<close>, how
  the protobuf library prints an enum, is interpreted on the documented function (\<open>print_enum\<close>).

  \<^bold>\<open>Bounds.\<close> Every loop of the code is a total function: the loop of \<^verbatim>\<open>GetPeers\<close> ends by the bound of 100000
  responses the code has itself, reading loops by the bytes that are left. \<open>adapter_ReadFull\<close> takes as fuel the number
  of bytes asked for, which is enough because every \<^verbatim>\<open>Read\<close> returns at least one. A call that waits for
  a server stream is \<open>None\<close> as long as the stream has delivered too little. Runs of the exchange, of
  the event goroutine and of a responder that nothing new reaches are bounded by ranks.

  \<^bold>\<open>Not modelled.\<close> The libraries named above, net, os and log; socket deadlines, beyond that setting one
  may fail and that a connection may end at any point; the reflection tables of the generated \<^verbatim>\<open>.pb.go\<close> files; data races on the
  package-level connections, which the sources themselves rule out for concurrent use; Yamux, which is a
  parameter that opens a byte stream over the adapter, so that the probes and the responder are joined to
  the RPC layer by that assumption and not by a model of its frames.
\<close>

end
